(* ===== verification/Prelude.thy ===== *)
theory Prelude
  imports Main "HOL-Library.State_Monad" "HOL-Library.Sublist"
begin

text \<open>
  Shared library of the development: the theorem collections, generic lemmas on lists and
  options, and a small program logic for the state monad in which the effectful Go code is
  written.

  Go strings and byte slices are both \<^typ>\<open>string\<close>: an Isabelle \<^typ>\<open>char\<close> is one
  byte. A Go call that returns \<open>(T, error)\<close> is a value of \<open>go_error + T\<close> (theory
  Errors). Effectful code is a \<open>('s, 'a) state\<close> action; the triple
  \<open>triple P m Q\<close> says that \<open>m\<close>, run from a state satisfying \<open>P\<close>, ends with a result
  and a state satisfying \<open>Q\<close>. State actions are total, so a triple is total correctness.
\<close>

named_theorems triple_rules \<open>introduction rules for triples\<close>
named_theorems default_simps \<open>unfolding of the configuration defaults\<close>
named_theorems frame_simps \<open>which parts of the state an operation leaves alone\<close>

section \<open>Lists and options\<close>

lemma find_Some_set: "find P xs = Some x \<Longrightarrow> x \<in> set xs \<and> P x"
  by (auto simp: find_Some_iff)

lemma find_None_all: "find P xs = None \<longleftrightarrow> (\<forall>x\<in>set xs. \<not> P x)"
  by (auto simp: find_None_iff)

lemma find_cong_append: "find P (xs @ ys) = (case find P xs of None \<Rightarrow> find P ys | Some x \<Rightarrow> Some x)"
  by (induction xs) auto

lemma find_unique:
  assumes "x \<in> set xs" and "P x" and "\<And>y. y \<in> set xs \<Longrightarrow> P y \<Longrightarrow> y = x"
  shows "find P xs = Some x"
proof (cases "find P xs")
  case None
  with assms(1,2) show ?thesis by (auto simp: find_None_all)
next
  case (Some y)
  with assms(3) show ?thesis by (auto dest: find_Some_set)
qed

lemma distinct_map_eqD:
  "distinct (map f xs) \<Longrightarrow> x \<in> set xs \<Longrightarrow> y \<in> set xs \<Longrightarrow> f x = f y \<Longrightarrow> x = y"
  by (auto simp: distinct_map inj_on_def)

lemma distinct_map_same:
  "(\<And>x. x \<in> set xs \<Longrightarrow> g (f x) = g x) \<Longrightarrow> map g (map f xs) = map g xs"
  by (induction xs) auto

lemma filter_map_same:
  "(\<And>x. x \<in> set xs \<Longrightarrow> P (f x) = P x) \<Longrightarrow> length (filter P (map f xs)) = length (filter P xs)"
  by (induction xs) auto

text \<open>The first row of a SELECT is what \<open>find\<close> finds.\<close>

lemma filter_find:
  "(case filter P xs of [] \<Rightarrow> a | x # _ \<Rightarrow> f x) = (case find P xs of None \<Rightarrow> a | Some x \<Rightarrow> f x)"
  by (induction xs) auto

lemma filter_map_find:
  "(case map g (filter P xs) of [] \<Rightarrow> a | x # _ \<Rightarrow> f x) = (case find P xs of None \<Rightarrow> a | Some x \<Rightarrow> f (g x))"
  by (induction xs) auto

lemma map_filter_Nil: "map g (filter P xs) = [] \<longleftrightarrow> find P xs = None"
  by (induction xs) auto

lemma map_filter_Cons: "map g (filter P xs) = y # ys \<Longrightarrow> \<exists>x. find P xs = Some x \<and> y = g x"
  by (induction xs) (auto split: if_splits)

lemma filter_Cons_find: "filter P xs = y # ys \<Longrightarrow> find P xs = Some y"
  by (induction xs) (auto split: if_splits)

section \<open>A program logic for state actions\<close>

definition triple :: "('s \<Rightarrow> bool) \<Rightarrow> ('s, 'a) state \<Rightarrow> ('a \<Rightarrow> 's \<Rightarrow> bool) \<Rightarrow> bool" where
  "triple P m Q \<longleftrightarrow> (\<forall>s. P s \<longrightarrow> (case run_state m s of (r, s') \<Rightarrow> Q r s'))"

lemma tripleI:
  "(\<And>s r s'. P s \<Longrightarrow> run_state m s = (r, s') \<Longrightarrow> Q r s') \<Longrightarrow> triple P m Q"
  by (auto simp: triple_def split: prod.splits)

lemma tripleD: "triple P m Q \<Longrightarrow> P s \<Longrightarrow> run_state m s = (r, s') \<Longrightarrow> Q r s'"
  by (auto simp: triple_def split: prod.splits)

lemma triple_weaken:
  "triple P' m Q' \<Longrightarrow> (\<And>s. P s \<Longrightarrow> P' s) \<Longrightarrow> (\<And>r s. Q' r s \<Longrightarrow> Q r s) \<Longrightarrow> triple P m Q"
  by (fastforce simp: triple_def split: prod.splits)

lemma triple_pre: "triple P' m Q \<Longrightarrow> (\<And>s. P s \<Longrightarrow> P' s) \<Longrightarrow> triple P m Q"
  by (auto simp: triple_def)

lemma triple_conj:
  "triple P m Q \<Longrightarrow> triple P' m Q' \<Longrightarrow> triple (\<lambda>s. P s \<and> P' s) m (\<lambda>r s. Q r s \<and> Q' r s)"
  by (fastforce simp: triple_def split: prod.splits)

lemma triple_return [triple_rules]:
  "(\<And>s. P s \<Longrightarrow> Q x s) \<Longrightarrow> triple P (State_Monad.return x) Q"
  by (auto simp: triple_def)

lemma triple_bind:
  "triple P m R \<Longrightarrow> (\<And>r. triple (R r) (f r) Q) \<Longrightarrow> triple P (State_Monad.bind m f) Q"
  by (fastforce simp: triple_def split: prod.splits)

lemma triple_get: "(\<And>s. P s \<Longrightarrow> Q s s) \<Longrightarrow> triple P State_Monad.get Q"
  by (auto simp: triple_def)

lemma triple_update: "(\<And>s. P s \<Longrightarrow> Q () (f s)) \<Longrightarrow> triple P (State_Monad.update f) Q"
  by (auto simp: triple_def State_Monad.update_def)

lemma triple_if [triple_rules]:
  "(b \<Longrightarrow> triple P m Q) \<Longrightarrow> (\<not> b \<Longrightarrow> triple P n Q) \<Longrightarrow> triple P (if b then m else n) Q"
  by simp

lemma triple_sum [triple_rules]:
  "(\<And>e. x = Inl e \<Longrightarrow> triple P (f e) Q) \<Longrightarrow> (\<And>v. x = Inr v \<Longrightarrow> triple P (g v) Q) \<Longrightarrow>
     triple P (case x of Inl e \<Rightarrow> f e | Inr v \<Rightarrow> g v) Q"
  by (cases x) auto

lemma triple_option [triple_rules]:
  "(x = None \<Longrightarrow> triple P m Q) \<Longrightarrow> (\<And>v. x = Some v \<Longrightarrow> triple P (f v) Q) \<Longrightarrow>
     triple P (case x of None \<Rightarrow> m | Some v \<Rightarrow> f v) Q"
  by (cases x) auto

lemma triple_prod [triple_rules]:
  "(\<And>a b. x = (a, b) \<Longrightarrow> triple P (f a b) Q) \<Longrightarrow> triple P (case x of (a, b) \<Rightarrow> f a b) Q"
  by (cases x) auto

lemma triple_let [triple_rules]: "triple P (f x) Q \<Longrightarrow> triple P (let y = x in f y) Q"
  by simp

text \<open>An action that keeps \<open>I\<close> composes with one that keeps \<open>I\<close>.\<close>

lemma triple_bind_inv:
  "triple I m (\<lambda>_. I) \<Longrightarrow> (\<And>r. triple I (f r) (\<lambda>_. I)) \<Longrightarrow>
     triple I (State_Monad.bind m f) (\<lambda>_. I)"
  by (rule triple_bind)

lemma run_state_update [simp]: "run_state (State_Monad.update f) s = ((), f s)"
  by (simp add: State_Monad.update_def)

end
