(* ===== verification/GoStrings.thy ===== *)
theory GoStrings
  imports Prelude
begin

text \<open>
  What the program uses of Go's packages \<open>strings\<close>, \<open>unicode\<close> and \<open>unicode/utf8\<close>, on
  byte strings: prefixes and suffixes, splitting, containment, trimming, rune decoding, lower
  casing. The Unicode lower-case table is the parameter \<open>low\<close> of \<open>toLower\<close>; everything
  else is computed.
\<close>

section \<open>Prefixes, suffixes, containment\<close>

fun hasPrefix :: "string \<Rightarrow> string \<Rightarrow> bool" where
  "hasPrefix s [] = True"
| "hasPrefix [] (p # ps) = False"
| "hasPrefix (c # s) (p # ps) = (c = p \<and> hasPrefix s ps)"

definition hasSuffix :: "string \<Rightarrow> string \<Rightarrow> bool" where
  "hasSuffix s p = hasPrefix (rev s) (rev p)"

definition trimPrefix :: "string \<Rightarrow> string \<Rightarrow> string" where
  "trimPrefix s p = (if hasPrefix s p then drop (length p) s else s)"

definition trimSuffix :: "string \<Rightarrow> string \<Rightarrow> string" where
  "trimSuffix s p = (if hasSuffix s p then take (length s - length p) s else s)"

fun contains :: "string \<Rightarrow> string \<Rightarrow> bool" where
  "contains [] sub = (sub = [])"
| "contains (c # s) sub = (hasPrefix (c # s) sub \<or> contains s sub)"

lemma hasPrefix_iff: "hasPrefix s p \<longleftrightarrow> (\<exists>t. s = p @ t)"
  by (induction s p rule: hasPrefix.induct) auto

lemma hasPrefix_append [simp]: "hasPrefix (p @ t) p"
  by (auto simp: hasPrefix_iff)

lemma hasSuffix_iff: "hasSuffix s p \<longleftrightarrow> (\<exists>t. s = t @ p)"
proof -
  have "(\<exists>t. rev s = rev p @ t) \<longleftrightarrow> (\<exists>t. s = t @ p)"
    by (metis rev_append rev_rev_ident)
  then show ?thesis by (simp add: hasSuffix_def hasPrefix_iff)
qed

lemma trimPrefix_append [simp]: "trimPrefix (p @ t) p = t"
  by (simp add: trimPrefix_def)

lemma trimSuffix_append [simp]: "trimSuffix (t @ p) p = t"
  by (simp add: trimSuffix_def hasSuffix_iff)

lemma contains_iff: "contains s sub \<longleftrightarrow> (\<exists>a b. s = a @ sub @ b)"
proof (induction s)
  case Nil
  then show ?case by simp
next
  case (Cons c s)
  have "(\<exists>a b. c # s = a @ sub @ b) \<longleftrightarrow> (\<exists>b. c # s = sub @ b) \<or> (\<exists>a b. s = a @ sub @ b)"
    by (auto simp: Cons_eq_append_conv)
  with Cons show ?case by (simp add: hasPrefix_iff)
qed

section \<open>Splitting and joining\<close>

text \<open>\<open>strings.Split(s, sep)\<close> and \<open>strings.SplitN(s, sep, 2)\<close> for a one-byte separator.\<close>

fun splitOn :: "char \<Rightarrow> string \<Rightarrow> string list" where
  "splitOn sep [] = [[]]"
| "splitOn sep (c # s) =
     (if c = sep then [] # splitOn sep s
      else (case splitOn sep s of [] \<Rightarrow> [[c]] | p # ps \<Rightarrow> (c # p) # ps))"

fun splitN2 :: "char \<Rightarrow> string \<Rightarrow> string list" where
  "splitN2 sep [] = [[]]"
| "splitN2 sep (c # s) =
     (if c = sep then [[], s]
      else (case splitN2 sep s of [] \<Rightarrow> [[c]] | p # ps \<Rightarrow> (c # p) # ps))"

fun joinWith :: "string \<Rightarrow> string list \<Rightarrow> string" where
  "joinWith sep [] = []"
| "joinWith sep [p] = p"
| "joinWith sep (p # q # ps) = p @ sep @ joinWith sep (q # ps)"

lemma splitOn_neq_Nil [simp]: "splitOn sep s \<noteq> []"
  by (induction s) (auto split: list.splits)

lemma splitOn_no_sep: "sep \<notin> set s \<Longrightarrow> splitOn sep s = [s]"
  by (induction s) auto

lemma splitOn_append_sep: "sep \<notin> set p \<Longrightarrow> splitOn sep (p @ sep # s) = p # splitOn sep s"
  by (induction p) auto

lemma splitN2_no_sep: "sep \<notin> set s \<Longrightarrow> splitN2 sep s = [s]"
  by (induction s) auto

lemma splitN2_append_sep: "sep \<notin> set p \<Longrightarrow> splitN2 sep (p @ sep # s) = [p, s]"
  by (induction p) auto

lemma splitOn_pieces_no_sep: "p \<in> set (splitOn sep s) \<Longrightarrow> sep \<notin> set p"
  by (induction s arbitrary: p) (auto split: list.splits if_splits)

lemma joinWith_splitOn: "joinWith [sep] (splitOn sep s) = s"
proof (induction s)
  case Nil
  then show ?case by simp
next
  case (Cons c s)
  obtain p ps where "splitOn sep s = p # ps"
    by (cases "splitOn sep s") auto
  with Cons show ?case by (cases ps) auto
qed

section \<open>Runes\<close>

definition byte_in :: "nat \<Rightarrow> nat \<Rightarrow> char \<Rightarrow> bool" where
  "byte_in lo hi c \<longleftrightarrow> lo \<le> of_char c \<and> of_char c \<le> hi"

definition cont_bits :: "char \<Rightarrow> nat" where
  "cont_bits c = of_char c mod 64"

text \<open>
  \<open>utf8.DecodeRune\<close>: the first rune of a non-empty byte string with its width; an invalid
  or truncated sequence is \<open>RuneError\<close> (U+FFFD) of width 1. The lead byte narrows the range
  of the second byte for \<open>E0\<close>, \<open>ED\<close>, \<open>F0\<close> and \<open>F4\<close>.
\<close>

definition runeError :: nat where
  "runeError = 65533"

definition second_lo :: "nat \<Rightarrow> nat" where
  "second_lo b = (if b = 0xE0 then 0xA0 else if b = 0xF0 then 0x90 else 0x80)"

definition second_hi :: "nat \<Rightarrow> nat" where
  "second_hi b = (if b = 0xED then 0x9F else if b = 0xF4 then 0x8F else 0xBF)"

fun decodeRune :: "string \<Rightarrow> nat \<times> nat" where
  "decodeRune [] = (runeError, 0)"
| "decodeRune (c # s) =
     (let b = of_char c in
      if b < 0x80 then (b, 1)
      else if 0xC2 \<le> b \<and> b \<le> 0xDF then
        (case s of
           c1 # _ \<Rightarrow> if byte_in 0x80 0xBF c1 then ((b mod 32) * 64 + cont_bits c1, 2) else (runeError, 1)
         | _ \<Rightarrow> (runeError, 1))
      else if 0xE0 \<le> b \<and> b \<le> 0xEF then
        (case s of
           c1 # c2 # _ \<Rightarrow>
             if byte_in (second_lo b) (second_hi b) c1 \<and> byte_in 0x80 0xBF c2
             then ((b mod 16) * 4096 + cont_bits c1 * 64 + cont_bits c2, 3) else (runeError, 1)
         | _ \<Rightarrow> (runeError, 1))
      else if 0xF0 \<le> b \<and> b \<le> 0xF4 then
        (case s of
           c1 # c2 # c3 # _ \<Rightarrow>
             if byte_in (second_lo b) (second_hi b) c1 \<and> byte_in 0x80 0xBF c2 \<and> byte_in 0x80 0xBF c3
             then ((b mod 8) * 262144 + cont_bits c1 * 4096 + cont_bits c2 * 64 + cont_bits c3, 4)
             else (runeError, 1)
         | _ \<Rightarrow> (runeError, 1))
      else (runeError, 1))"

lemma decodeRune_width: "s \<noteq> [] \<Longrightarrow> 1 \<le> snd (decodeRune s)"
  by (cases s) (auto simp: Let_def split: list.splits)

text \<open>The runes a \<open>for _, r := range s\<close> loop visits.\<close>

function runes :: "string \<Rightarrow> nat list" where
  "runes s = (if s = [] then [] else fst (decodeRune s) # runes (drop (snd (decodeRune s)) s))"
  by pat_completeness auto
termination
proof (relation "measure length")
  fix s :: string
  assume "s \<noteq> []"
  then show "(drop (snd (decodeRune s)) s, s) \<in> measure length"
    using decodeRune_width [of s] by (cases s) auto
qed simp

declare runes.simps [simp del]

lemma runes_Nil [simp]: "runes [] = []"
  by (subst runes.simps) simp

lemma runes_ascii: "of_char c < (0x80 :: nat) \<Longrightarrow> runes (c # s) = of_char c # runes s"
  by (subst runes.simps) simp

text \<open>\<open>utf8.AppendRune\<close> on a valid rune.\<close>

definition encodeRune :: "nat \<Rightarrow> string" where
  "encodeRune r =
     (if r < 0x80 then [char_of r]
      else if r < 0x800 then [char_of (0xC0 + r div 64), char_of (0x80 + r mod 64)]
      else if r < 0x10000 then
        [char_of (0xE0 + r div 4096), char_of (0x80 + r div 64 mod 64), char_of (0x80 + r mod 64)]
      else [char_of (0xF0 + r div 262144), char_of (0x80 + r div 4096 mod 64),
            char_of (0x80 + r div 64 mod 64), char_of (0x80 + r mod 64)])"

text \<open>\<open>unicode.IsControl\<close>: the category Cc holds exactly the C0 and C1 controls and DEL.\<close>

definition isControl :: "nat \<Rightarrow> bool" where
  "isControl r \<longleftrightarrow> r < 0x20 \<or> (0x7F \<le> r \<and> r \<le> 0x9F)"

section \<open>Lower case\<close>

definition asciiLower :: "char \<Rightarrow> char" where
  "asciiLower c =
     (let b = of_char c in if 65 \<le> b \<and> b \<le> (90 :: nat) then char_of (b + 32) else c)"

definition isAscii :: "string \<Rightarrow> bool" where
  "isAscii s \<longleftrightarrow> (\<forall>c\<in>set s. of_char c < (0x80 :: nat))"

text \<open>
  \<open>strings.ToLower\<close>: bytewise on ASCII strings, otherwise rune by rune through the table
  \<open>low\<close> (\<open>unicode.ToLower\<close>).
\<close>

definition toLower :: "(nat \<Rightarrow> nat) \<Rightarrow> string \<Rightarrow> string" where
  "toLower low s =
     (if isAscii s then map asciiLower s else concat (map (\<lambda>r. encodeRune (low r)) (runes s)))"

section \<open>Trimming\<close>

text \<open>
  \<open>strings.TrimSpace\<close> strips the runes of \<open>unicode.IsSpace\<close>. A leading or trailing
  space rune is one of finitely many byte sequences.
\<close>

definition spaceRunes :: "nat list" where
  "spaceRunes = [0x09, 0x0A, 0x0B, 0x0C, 0x0D, 0x20, 0x85, 0xA0, 0x1680, 0x2000, 0x2001, 0x2002,
     0x2003, 0x2004, 0x2005, 0x2006, 0x2007, 0x2008, 0x2009, 0x200A, 0x2028, 0x2029, 0x202F,
     0x205F, 0x3000]"

definition spaceSeqs :: "string list" where
  "spaceSeqs = map encodeRune spaceRunes"

lemma spaceSeqs_nonempty: "q \<in> set spaceSeqs \<Longrightarrow> q \<noteq> []"
  by (auto simp: spaceSeqs_def encodeRune_def)

function trimLeftSeqs :: "string list \<Rightarrow> string \<Rightarrow> string" where
  "trimLeftSeqs qs s =
     (case find (\<lambda>q. q \<noteq> [] \<and> hasPrefix s q) qs of
        None \<Rightarrow> s
      | Some q \<Rightarrow> trimLeftSeqs qs (drop (length q) s))"
  by pat_completeness auto
termination
proof (relation "measure (\<lambda>(qs, s). length s)")
  fix qs :: "string list" and s q
  assume "find (\<lambda>q. q \<noteq> [] \<and> hasPrefix s q) qs = Some q"
  then have "q \<noteq> [] \<and> hasPrefix s q" by (auto dest: find_Some_set)
  then show "((qs, drop (length q) s), qs, s) \<in> measure (\<lambda>(qs, s). length s)"
    by (auto simp: hasPrefix_iff)
qed simp

declare trimLeftSeqs.simps [simp del]

definition trimSpace :: "string \<Rightarrow> string" where
  "trimSpace s =
     rev (trimLeftSeqs (map rev spaceSeqs) (rev (trimLeftSeqs spaceSeqs s)))"

lemma trimLeftSeqs_suffix: "\<exists>p. s = p @ trimLeftSeqs qs s"
proof (induction qs s rule: trimLeftSeqs.induct)
  case (1 qs s)
  show ?case
  proof (cases "find (\<lambda>q. q \<noteq> [] \<and> hasPrefix s q) qs")
    case None
    then show ?thesis by (simp add: trimLeftSeqs.simps [of qs s])
  next
    case (Some q)
    then have "hasPrefix s q" by (auto dest: find_Some_set)
    then obtain t where t: "s = q @ t" by (auto simp: hasPrefix_iff)
    moreover have "trimLeftSeqs qs s = trimLeftSeqs qs t"
      by (subst trimLeftSeqs.simps) (simp add: Some, simp add: t)
    moreover obtain p where "t = p @ trimLeftSeqs qs t"
      using "1.IH" [OF Some] t by auto
    ultimately show ?thesis by (metis append.assoc)
  qed
qed

lemma trimLeftSeqs_stop: "q \<in> set qs \<Longrightarrow> q \<noteq> [] \<Longrightarrow> \<not> hasPrefix (trimLeftSeqs qs s) q"
proof (induction qs s rule: trimLeftSeqs.induct)
  case (1 qs s)
  show ?case
  proof (cases "find (\<lambda>q. q \<noteq> [] \<and> hasPrefix s q) qs")
    case None
    then have "trimLeftSeqs qs s = s" by (subst trimLeftSeqs.simps) simp
    with None "1.prems" show ?thesis by (auto simp: find_None_all)
  next
    case (Some q')
    with "1.IH" [OF Some] "1.prems" show ?thesis by (simp add: trimLeftSeqs.simps [of qs s])
  qed
qed

lemma trimLeftSeqs_id: "(\<And>q. q \<in> set qs \<Longrightarrow> q \<noteq> [] \<Longrightarrow> \<not> hasPrefix s q) \<Longrightarrow> trimLeftSeqs qs s = s"
proof -
  assume "\<And>q. q \<in> set qs \<Longrightarrow> q \<noteq> [] \<Longrightarrow> \<not> hasPrefix s q"
  then have "find (\<lambda>q. q \<noteq> [] \<and> hasPrefix s q) qs = None" by (auto simp: find_None_all)
  then show ?thesis by (simp add: trimLeftSeqs.simps [of qs s])
qed

lemma trimSpace_infix: "\<exists>a b. s = a @ trimSpace s @ b"
proof -
  obtain a where a: "s = a @ trimLeftSeqs spaceSeqs s"
    using trimLeftSeqs_suffix by blast
  let ?t = "trimLeftSeqs spaceSeqs s"
  obtain b where "rev ?t = b @ trimLeftSeqs (map rev spaceSeqs) (rev ?t)"
    using trimLeftSeqs_suffix by blast
  then have "?t = rev (trimLeftSeqs (map rev spaceSeqs) (rev ?t)) @ rev b"
    by (metis rev_append rev_rev_ident)
  then have "?t = trimSpace s @ rev b" by (simp add: trimSpace_def)
  with a show ?thesis by metis
qed

lemma trimSpace_Nil [simp]: "trimSpace [] = []"
proof -
  have "trimLeftSeqs qs [] = []" for qs
    by (rule trimLeftSeqs_id) (auto simp: hasPrefix_iff)
  then show ?thesis by (simp add: trimSpace_def)
qed

end
