(* ===== verification/Errors.thy ===== *)
theory Errors
  imports GoStrings
begin

text \<open>
  Go \<open>error\<close> values as one datatype: the sentinels and the \<open>PasswordError\<close> of
  \<open>auth/password/errors.go\<close>, the pgx errors the code inspects, \<open>errors.New\<close> strings and
  \<open>fmt.Errorf("...: %w", err)\<close> wrappers; with \<open>Unwrap\<close>, \<open>errors.Is\<close> and
  \<open>errors.As\<close> as walks along the chain.
\<close>

datatype sentinel =
    ErrInvalidCredentials
  | ErrAccountLocked
  | ErrPasswordPolicyViolation
  | ErrEmailAlreadyRegistered
  | ErrEmailNotVerified
  | ErrTokenInvalid
  | ErrUserNotFound

fun sentinelText :: "sentinel \<Rightarrow> string" where
  "sentinelText ErrInvalidCredentials = ''invalid email or password''"
| "sentinelText ErrAccountLocked = ''account temporarily locked due to repeated failed attempts''"
| "sentinelText ErrPasswordPolicyViolation = ''password does not meet complexity requirements''"
| "sentinelText ErrEmailAlreadyRegistered = ''email is already registered''"
| "sentinelText ErrEmailNotVerified = ''email address has not been verified''"
| "sentinelText ErrTokenInvalid = ''token is invalid or expired''"
| "sentinelText ErrUserNotFound = ''user not found''"

text \<open>
  \<open>PasswordError err status detail\<close> is \<open>&PasswordError{Err, Status, Detail}\<close>;
  \<open>PgError code\<close> a \<open>*pgconn.PgError\<close> with its SQLSTATE.
\<close>

datatype go_error =
    ErrNoRows
  | ErrTxClosed
  | ErrTxCommitRollback
  | PgError string
  | Sentinel sentinel
  | PasswordError sentinel nat string
  | ErrorString string
  | Wrapped string go_error

fun unwrap :: "go_error \<Rightarrow> go_error option" where
  "unwrap (Wrapped m e) = Some e"
| "unwrap (PasswordError s st d) = Some (Sentinel s)"
| "unwrap _ = None"

fun errorText :: "go_error \<Rightarrow> string" where
  "errorText ErrNoRows = ''no rows in result set''"
| "errorText ErrTxClosed = ''tx is closed''"
| "errorText ErrTxCommitRollback = ''commit unexpectedly resulted in rollback''"
| "errorText (PgError code) = ''SQLSTATE '' @ code"
| "errorText (Sentinel s) = sentinelText s"
| "errorText (PasswordError s st d) = (if d \<noteq> '''' then d else sentinelText s)"
| "errorText (ErrorString m) = m"
| "errorText (Wrapped m e) = m @ '': '' @ errorText e"

fun errorsIs :: "go_error \<Rightarrow> go_error \<Rightarrow> bool" where
  "errorsIs (Wrapped m e) t = (Wrapped m e = t \<or> errorsIs e t)"
| "errorsIs (PasswordError s st d) t = (PasswordError s st d = t \<or> Sentinel s = t)"
| "errorsIs e t = (e = t)"

fun asPgError :: "go_error \<Rightarrow> string option" where
  "asPgError (PgError c) = Some c"
| "asPgError (Wrapped m e) = asPgError e"
| "asPgError _ = None"

fun asPasswordError :: "go_error \<Rightarrow> (sentinel \<times> nat \<times> string) option" where
  "asPasswordError (PasswordError s st d) = Some (s, st, d)"
| "asPasswordError (Wrapped m e) = asPasswordError e"
| "asPasswordError _ = None"

text \<open>\<open>errors.Is\<close> is equality anywhere along the \<open>Unwrap\<close> chain.\<close>

lemma errorsIs_unwrap:
  "errorsIs e t \<longleftrightarrow> e = t \<or> (case unwrap e of None \<Rightarrow> False | Some e' \<Rightarrow> errorsIs e' t)"
  by (cases e) auto

lemma asPasswordError_is: "asPasswordError e = Some (s, st, d) \<Longrightarrow> errorsIs e (Sentinel s)"
  by (induction e) auto

text \<open>\<open>err != nil\<close> as a test on results.\<close>

definition isOk :: "go_error + 'a \<Rightarrow> bool" where
  "isOk r \<longleftrightarrow> (case r of Inl _ \<Rightarrow> False | Inr _ \<Rightarrow> True)"

lemma isOk_simps [simp]: "isOk (Inr x)" "\<not> isOk (Inl e)"
  by (simp_all add: isOk_def)

end
