(* ===== verification/World.thy ===== *)
theory World
  imports Errors "HOL-Library.Word"
begin

text \<open>
  The world the effectful code runs in: the PostgreSQL tables (one record per table row,
  after \<open>internal/db/models.go\<close> and the files of \<open>migrations/\<close>), the open transaction, the
  outbox of the mail sender, and a counter that numbers every call to the outside.

  Everything the program cannot control is in the record \<open>env\<close>, a parameter of the model,
  indexed by that counter: whether a database round trip fails and how, what the clocks of the
  application and of the database show, what \<open>crypto/rand\<close> and the UUID generators return,
  what the mail sender answers; and the functions of libraries that are not part of the
  repository (SHA-256, Argon2id, the Unicode lower-case table, IP address parsing, UUID text).
  A statement that fails is not applied; a failed statement aborts its transaction.
\<close>

type_synonym uuid = "128 word"

section \<open>Tables\<close>

record user =
  u_id :: uuid
  u_email :: string
  u_email_verified :: bool
  u_username :: "string option"
  u_name :: "string option"
  u_issuer :: string
  u_subject :: string
  u_last_login_at :: "int option"
  u_created_at :: int
  u_updated_at :: int

record tenant =
  t_tenant_id :: uuid
  t_name :: string
  t_created_at :: int
  t_updated_at :: int

record tenant_membership =
  tm_user_id :: uuid
  tm_tenant_id :: uuid
  tm_role :: string
  tm_created_at :: int
  tm_updated_at :: int

record password_credential =
  pc_user_id :: uuid
  pc_password_hash :: string
  pc_hash_algorithm :: string
  pc_created_at :: int
  pc_updated_at :: int

record login_attempt =
  la_user_id :: uuid
  la_attempted_at :: int
  la_ip_address :: "string option"
  la_success :: bool

record auth_token =
  at_user_id :: uuid
  at_token_hash :: string
  at_token_type :: string
  at_expires_at :: int
  at_consumed_at :: "int option"
  at_created_at :: int

text \<open>The tables, rows in insertion order.\<close>

record database =
  users :: "user list"
  tenants :: "tenant list"
  memberships :: "tenant_membership list"
  credentials :: "password_credential list"
  attempts :: "login_attempt list"
  tokens :: "auth_token list"

definition empty_db :: database where
  "empty_db = \<lparr>users = [], tenants = [], memberships = [], credentials = [], attempts = [], tokens = []\<rparr>"

section \<open>Environment and world\<close>

datatype fault = PgFault string | ConnFault string

fun faultError :: "fault \<Rightarrow> go_error" where
  "faultError (PgFault c) = PgError c"
| "faultError (ConnFault m) = ErrorString m"

record env =
  db_fault :: "nat \<Rightarrow> fault option"
  app_now :: "nat \<Rightarrow> int"
  db_now :: "nat \<Rightarrow> int"
  rand_read :: "nat \<Rightarrow> nat \<Rightarrow> go_error + string"
  uuid_v7 :: "nat \<Rightarrow> go_error + uuid"
  uuid_new :: "nat \<Rightarrow> uuid"
  mail_result :: "nat \<Rightarrow> go_error option"
  sha256 :: "string \<Rightarrow> string"
  argon2_IDKey :: "string \<Rightarrow> string \<Rightarrow> 32 word \<Rightarrow> 32 word \<Rightarrow> 8 word \<Rightarrow> 32 word \<Rightarrow> string"
  unicode_lower :: "nat \<Rightarrow> nat"
  parse_addr :: "string \<Rightarrow> string option"
  uuid_string :: "uuid \<Rightarrow> string"
  uuid_parse :: "string \<Rightarrow> go_error + uuid"

record tx =
  tx_db :: database
  tx_now :: int
  tx_aborted :: bool

datatype mail =
    PasswordResetMail string string
  | EmailVerificationMail string string
  | PasswordChangedMail string

record world =
  w_tick :: nat
  w_db :: database
  w_tx :: "tx option"
  w_mail :: "mail list"

type_synonym ('z, 'a) io = "('z world_scheme, 'a) state"

text \<open>Every call to the outside takes the next number.\<close>

definition nextTick :: "('z, nat) io" where
  "nextTick = do { w \<leftarrow> State_Monad.get;
                   _ \<leftarrow> State_Monad.set (w\<lparr>w_tick := Suc (w_tick w)\<rparr>);
                   State_Monad.return (w_tick w) }"

definition timeNow :: "env \<Rightarrow> ('z, int) io" where
  "timeNow E = do { t \<leftarrow> nextTick; State_Monad.return (app_now E t) }"

definition randRead :: "env \<Rightarrow> nat \<Rightarrow> ('z, go_error + string) io" where
  "randRead E n = do { t \<leftarrow> nextTick; State_Monad.return (rand_read E t n) }"

text \<open>\<open>uuid.NewV7()\<close>, falling back to \<open>uuid.New()\<close>, as the code always uses them.\<close>

definition newUUID :: "env \<Rightarrow> ('z, uuid) io" where
  "newUUID E = do {
     t \<leftarrow> nextTick;
     case uuid_v7 E t of
       Inr u \<Rightarrow> State_Monad.return u
     | Inl _ \<Rightarrow> do { t' \<leftarrow> nextTick; State_Monad.return (uuid_new E t') } }"

text \<open>An \<open>EmailSender\<close> call: the mail is handed over, the sender answers with an error or not.\<close>

definition sendMail :: "env \<Rightarrow> mail \<Rightarrow> ('z, go_error option) io" where
  "sendMail E m = do {
     t \<leftarrow> nextTick;
     _ \<leftarrow> State_Monad.update (\<lambda>w. w\<lparr>w_mail := w_mail w @ [m]\<rparr>);
     State_Monad.return (mail_result E t) }"

section \<open>Transactions\<close>

text \<open>\<open>DBTX\<close>: a query runs on the pool (auto-commit) or on the open transaction.\<close>

datatype dbtx = OnPool | OnTx

type_synonym 'r stmt = "int \<Rightarrow> database \<Rightarrow> go_error + ('r list \<times> database)"

definition abortTx :: "'z world_scheme \<Rightarrow> 'z world_scheme" where
  "abortTx w = w\<lparr>w_tx := map_option (\<lambda>x. x\<lparr>tx_aborted := True\<rparr>) (w_tx w)\<rparr>"

definition runStmt :: "env \<Rightarrow> dbtx \<Rightarrow> 'r stmt \<Rightarrow> ('z, go_error + 'r list) io" where
  "runStmt E h st = do {
     t \<leftarrow> nextTick;
     w \<leftarrow> State_Monad.get;
     case h of
       OnPool \<Rightarrow>
         (case db_fault E t of
            Some f \<Rightarrow> State_Monad.return (Inl (faultError f))
          | None \<Rightarrow>
              (case st (db_now E t) (w_db w) of
                 Inl e \<Rightarrow> State_Monad.return (Inl e)
               | Inr (rows, d) \<Rightarrow> do {
                   _ \<leftarrow> State_Monad.set (w\<lparr>w_db := d\<rparr>);
                   State_Monad.return (Inr rows) }))
     | OnTx \<Rightarrow>
         (case w_tx w of
            None \<Rightarrow> State_Monad.return (Inl ErrTxClosed)
          | Some x \<Rightarrow>
              if tx_aborted x then State_Monad.return (Inl (PgError ''25P02''))
              else (case db_fault E t of
                      Some f \<Rightarrow> do {
                        _ \<leftarrow> State_Monad.set (abortTx w);
                        State_Monad.return (Inl (faultError f)) }
                    | None \<Rightarrow>
                        (case st (tx_now x) (tx_db x) of
                           Inl e \<Rightarrow> do {
                             _ \<leftarrow> State_Monad.set (abortTx w);
                             State_Monad.return (Inl e) }
                         | Inr (rows, d) \<Rightarrow> do {
                             _ \<leftarrow> State_Monad.set (w\<lparr>w_tx := Some (x\<lparr>tx_db := d\<rparr>)\<rparr>);
                             State_Monad.return (Inr rows) }))) }"

definition beginTx :: "env \<Rightarrow> ('z, go_error + unit) io" where
  "beginTx E = do {
     t \<leftarrow> nextTick;
     case db_fault E t of
       Some f \<Rightarrow> State_Monad.return (Inl (faultError f))
     | None \<Rightarrow> do {
         _ \<leftarrow> State_Monad.update (\<lambda>w. w\<lparr>w_tx :=
                Some \<lparr>tx_db = w_db w, tx_now = db_now E t, tx_aborted = False\<rparr>\<rparr>);
         State_Monad.return (Inr ()) } }"

definition commitTx :: "env \<Rightarrow> ('z, go_error + unit) io" where
  "commitTx E = do {
     t \<leftarrow> nextTick;
     w \<leftarrow> State_Monad.get;
     case w_tx w of
       None \<Rightarrow> State_Monad.return (Inl ErrTxClosed)
     | Some x \<Rightarrow> do {
         _ \<leftarrow> State_Monad.set (w\<lparr>w_tx := None\<rparr>);
         if tx_aborted x then State_Monad.return (Inl ErrTxCommitRollback)
         else (case db_fault E t of
                 Some f \<Rightarrow> State_Monad.return (Inl (faultError f))
               | None \<Rightarrow> do {
                   _ \<leftarrow> State_Monad.set (w\<lparr>w_tx := None, w_db := tx_db x\<rparr>);
                   State_Monad.return (Inr ()) }) } }"

definition rollbackTx :: "('z, unit) io" where
  "rollbackTx = State_Monad.update (\<lambda>w. w\<lparr>w_tx := None\<rparr>)"

text \<open>\<open>defer tx.Rollback(ctx)\<close> around the rest of a function.\<close>

definition deferRollback :: "('z, 'a) io \<Rightarrow> ('z, 'a) io" where
  "deferRollback m = do { r \<leftarrow> m; _ \<leftarrow> rollbackTx; State_Monad.return r }"

text \<open>\<open>QueryRow(...).Scan(...)\<close>, \<open>Query(...)\<close> and \<open>Exec(...)\<close>.\<close>

definition queryRow :: "env \<Rightarrow> dbtx \<Rightarrow> 'r stmt \<Rightarrow> ('z, go_error + 'r) io" where
  "queryRow E h st = do {
     r \<leftarrow> runStmt E h st;
     State_Monad.return
       (case r of Inl e \<Rightarrow> Inl e | Inr [] \<Rightarrow> Inl ErrNoRows | Inr (x # _) \<Rightarrow> Inr x) }"

definition queryRows :: "env \<Rightarrow> dbtx \<Rightarrow> 'r stmt \<Rightarrow> ('z, go_error + 'r list) io" where
  "queryRows E h st = runStmt E h st"

definition execStmt :: "env \<Rightarrow> dbtx \<Rightarrow> 'r stmt \<Rightarrow> ('z, go_error + unit) io" where
  "execStmt E h st = do {
     r \<leftarrow> runStmt E h st;
     State_Monad.return (case r of Inl e \<Rightarrow> Inl e | Inr _ \<Rightarrow> Inr ()) }"

end
