(* ===== verification/AuthTypes.thy ===== *)
theory AuthTypes
  imports World
begin

text \<open>
  \<open>auth/types.go\<close> and \<open>auth/config.go\<close>: the constants, the identity, membership and claims
  types, the configuration of the OIDC handler and its defaults.
\<close>

section \<open>Constants\<close>

definition DefaultSessionKey :: string where
  "DefaultSessionKey = ''auth''"
definition DefaultLoginPath :: string where
  "DefaultLoginPath = ''/auth/login''"
definition DefaultTenantPickerPath :: string where
  "DefaultTenantPickerPath = ''/auth/tenants''"
definition DefaultPostLoginRedirect :: string where
  "DefaultPostLoginRedirect = ''/ui/profile''"
definition DefaultAuthorizePath :: string where
  "DefaultAuthorizePath = ''/oidc/authorize''"
definition DefaultCallbackPath :: string where
  "DefaultCallbackPath = ''/oidc/callback''"
definition DefaultTenantsPath :: string where
  "DefaultTenantsPath = ''/tenants''"
definition DefaultTenantSelectPath :: string where
  "DefaultTenantSelectPath = ''/tenant/select''"
definition DefaultLogoutPath :: string where
  "DefaultLogoutPath = ''/oidc/logout''"
definition DefaultPostLogoutRedirect :: string where
  "DefaultPostLogoutRedirect = ''/''"
definition DefaultStateCookieName :: string where
  "DefaultStateCookieName = ''oidc_state''"
definition DefaultCookieMaxAgeSecond :: int where
  "DefaultCookieMaxAgeSecond = 3600"

lemmas auth_constants =
  DefaultSessionKey_def DefaultLoginPath_def DefaultTenantPickerPath_def
  DefaultPostLoginRedirect_def DefaultAuthorizePath_def DefaultCallbackPath_def
  DefaultTenantsPath_def DefaultTenantSelectPath_def DefaultLogoutPath_def
  DefaultPostLogoutRedirect_def DefaultStateCookieName_def DefaultCookieMaxAgeSecond_def

section \<open>Types\<close>

type_synonym role = string

definition RoleOwner :: role where "RoleOwner = ''owner''"
definition RoleAdmin :: role where "RoleAdmin = ''admin''"
definition RoleMember :: role where "RoleMember = ''member''"

text \<open>
  JSON values. The raw claims of an identity are a \<open>map[string]any\<close> of them (a nil map is the
  empty list); the code of the library neither fills nor reads it.
\<close>

datatype json =
    JNull
  | JBool bool
  | JInt int
  | JString string
  | JArray "json list"
  | JObject "(string \<times> json) list"

record identity =
  id_Issuer :: string
  id_Subject :: string
  id_Email :: string
  id_EmailVerified :: bool
  id_Username :: string
  id_Name :: string
  id_PreferredUsername :: string
  id_RawClaims :: "(string \<times> json) list"

record user_ref =
  ref_UserID :: uuid
  ref_Issuer :: string
  ref_Subject :: string

record membership =
  mb_TenantID :: uuid
  mb_TenantName :: string
  mb_Role :: role

record tenant_display =
  td_TenantID :: uuid
  td_Name :: string

record session_claims =
  sc_Authenticated :: bool
  sc_UserID :: uuid
  sc_Issuer :: string
  sc_Subject :: string
  sc_ActiveTenantID :: "uuid option"

text \<open>
  The interface \<open>IdentityStore\<close> as the record of its methods, over the state type \<open>'w\<close> of the
  store's world.
\<close>

record 'w identity_store_api =
  api_ResolveOrProvisionUser :: "identity \<Rightarrow> ('w, go_error + user_ref) state"
  api_ListMemberships :: "uuid \<Rightarrow> ('w, go_error + membership list) state"
  api_GetTenantDisplay :: "uuid \<Rightarrow> ('w, go_error + tenant_display) state"

section \<open>Configuration of the OIDC handler\<close>

record config =
  cfg_Enabled :: bool
  cfg_IssuerURL :: string
  cfg_ClientID :: string
  cfg_ClientSecret :: string
  cfg_RedirectURL :: string
  cfg_LoginPath :: string
  cfg_PostLoginRedirect :: string
  cfg_TenantPickerPath :: string
  cfg_SessionKey :: string
  cfg_AuthorizePath :: string
  cfg_CallbackPath :: string
  cfg_TenantsPath :: string
  cfg_TenantSelectPath :: string
  cfg_LogoutPath :: string
  cfg_PostLogoutRedirect :: string
  cfg_StateCookieName :: string
  cfg_CookieSecure :: "bool option"

text \<open>A field left empty takes its default.\<close>

definition orDefault :: "string \<Rightarrow> string \<Rightarrow> string" where
  "orDefault v d = (if v = '''' then d else v)"

definition withDefaults :: "config \<Rightarrow> config" where
  "withDefaults c = c\<lparr>
     cfg_LoginPath := orDefault (cfg_LoginPath c) DefaultLoginPath,
     cfg_PostLoginRedirect := orDefault (cfg_PostLoginRedirect c) DefaultPostLoginRedirect,
     cfg_TenantPickerPath := orDefault (cfg_TenantPickerPath c) DefaultTenantPickerPath,
     cfg_SessionKey := orDefault (cfg_SessionKey c) DefaultSessionKey,
     cfg_AuthorizePath := orDefault (cfg_AuthorizePath c) DefaultAuthorizePath,
     cfg_CallbackPath := orDefault (cfg_CallbackPath c) DefaultCallbackPath,
     cfg_TenantsPath := orDefault (cfg_TenantsPath c) DefaultTenantsPath,
     cfg_TenantSelectPath := orDefault (cfg_TenantSelectPath c) DefaultTenantSelectPath,
     cfg_LogoutPath := orDefault (cfg_LogoutPath c) DefaultLogoutPath,
     cfg_PostLogoutRedirect := orDefault (cfg_PostLogoutRedirect c) DefaultPostLogoutRedirect,
     cfg_StateCookieName := orDefault (cfg_StateCookieName c) DefaultStateCookieName,
     cfg_CookieSecure := Some (case cfg_CookieSecure c of None \<Rightarrow> True | Some b \<Rightarrow> b)\<rparr>"

lemma orDefault_nonempty: "d \<noteq> '''' \<Longrightarrow> orDefault v d \<noteq> ''''"
  by (simp add: orDefault_def)

lemma orDefault_idem [simp]: "orDefault (orDefault v d) d = orDefault v d"
  by (simp add: orDefault_def)

lemma orDefault_keep: "v \<noteq> '''' \<Longrightarrow> orDefault v d = v"
  by (simp add: orDefault_def)

lemma withDefaults_idem: "withDefaults (withDefaults c) = withDefaults c"
  by (simp add: withDefaults_def)

lemma withDefaults_paths_nonempty:
  "cfg_SessionKey (withDefaults c) \<noteq> ''''" "cfg_StateCookieName (withDefaults c) \<noteq> ''''"
  "cfg_LoginPath (withDefaults c) \<noteq> ''''" "cfg_CookieSecure (withDefaults c) \<noteq> None"
  by (simp_all add: withDefaults_def auth_constants orDefault_def)

end
