(* ===== verification/GoEncoding.thy ===== *)
theory GoEncoding
  imports GoStrings
begin

text \<open>
  What the program uses of Go's \<open>strconv\<close> (\<open>%d\<close> formatting, \<open>ParseUint\<close> in base 10,
  \<open>Atoi\<close>) and \<open>encoding/base64\<close> (the unpadded standard and URL encodings), with the
  round-trip lemmas the password hasher rests on.
\<close>

section \<open>Decimal numbers\<close>

definition digitChar :: "nat \<Rightarrow> char" where
  "digitChar d = char_of (48 + d)"

definition digitVal :: "char \<Rightarrow> nat option" where
  "digitVal c = (let b = of_char c in if 48 \<le> b \<and> b \<le> 57 then Some (b - 48) else None)"

fun showNat :: "nat \<Rightarrow> string" where
  "showNat n = (if n < 10 then [digitChar n] else showNat (n div 10) @ [digitChar (n mod 10)])"

declare showNat.simps [simp del]

text \<open>\<open>%d\<close> of a signed integer.\<close>

definition showInt :: "int \<Rightarrow> string" where
  "showInt i = (if i < 0 then ''-'' @ showNat (nat (- i)) else showNat (nat i))"

fun parseDigits :: "nat \<Rightarrow> string \<Rightarrow> nat option" where
  "parseDigits acc [] = Some acc"
| "parseDigits acc (c # s) =
     (case digitVal c of None \<Rightarrow> None | Some d \<Rightarrow> parseDigits (acc * 10 + d) s)"

text \<open>\<open>strconv.ParseUint(s, 10, bits)\<close>; a syntax or range error is None.\<close>

definition parseUint :: "nat \<Rightarrow> string \<Rightarrow> nat option" where
  "parseUint bits s =
     (if s = [] then None
      else (case parseDigits 0 s of
              None \<Rightarrow> None
            | Some n \<Rightarrow> if n < 2 ^ bits then Some n else None))"

text \<open>\<open>strconv.Atoi\<close> on a 64-bit platform.\<close>

definition atoi :: "string \<Rightarrow> int option" where
  "atoi s =
     (let neg = hasPrefix s ''-'';
          body = (if hasPrefix s ''-'' \<or> hasPrefix s ''+'' then drop 1 s else s)
      in if body = [] then None
         else (case parseDigits 0 body of
                 None \<Rightarrow> None
               | Some n \<Rightarrow>
                   let v = (if neg then - int n else int n)
                   in if - (2 ^ 63) \<le> v \<and> v < 2 ^ 63 then Some v else None))"

lemma digitVal_digitChar [simp]: "d < 10 \<Longrightarrow> digitVal (digitChar d) = Some d"
  by (simp add: digitVal_def digitChar_def)

lemma digitChar_is_digit: "d < 10 \<Longrightarrow> digitChar d \<in> set ''0123456789''"
proof -
  assume "d < 10"
  then have "d \<in> set [0, 1, 2, 3, 4, 5, 6, 7, 8, 9]" by auto
  moreover have "\<forall>d\<in>set [0, 1, 2, 3, 4, 5, 6, 7, 8, 9]. digitChar d \<in> set ''0123456789''"
    by code_simp
  ultimately show ?thesis by blast
qed

lemma parseDigits_append:
  "parseDigits acc (s @ t) = (case parseDigits acc s of None \<Rightarrow> None | Some n \<Rightarrow> parseDigits n t)"
  by (induction s arbitrary: acc) (auto split: option.splits)

lemma parseDigits_showNat: "parseDigits 0 (showNat n) = Some n"
proof (induction n rule: showNat.induct)
  case (1 n)
  show ?case
  proof (cases "n < 10")
    case True
    then show ?thesis by (simp add: showNat.simps [of n])
  next
    case False
    with "1.IH" have "parseDigits 0 (showNat (n div 10)) = Some (n div 10)" by simp
    with False show ?thesis by (simp add: showNat.simps [of n] parseDigits_append)
  qed
qed

lemma showNat_neq_Nil [simp]: "showNat n \<noteq> []"
  by (subst showNat.simps) simp

lemma showNat_digits: "set (showNat n) \<subseteq> set ''0123456789''"
proof (induction n rule: showNat.induct)
  case (1 n)
  have d: "digitChar (n mod 10) \<in> set ''0123456789''" by (rule digitChar_is_digit) simp
  show ?case
  proof (cases "n < 10")
    case True
    with d have "digitChar n \<in> set ''0123456789''" by simp
    with True show ?thesis by (subst showNat.simps) simp
  next
    case False
    with "1.IH" have "set (showNat (n div 10)) \<subseteq> set ''0123456789''" by simp
    moreover have "showNat n = showNat (n div 10) @ [digitChar (n mod 10)]"
      using False by (subst showNat.simps) simp
    ultimately show ?thesis using d by (metis Un_subset_iff empty_set insert_subset list.simps(15)
        set_append empty_subsetI)
  qed
qed

lemma parseUint_showNat: "n < 2 ^ bits \<Longrightarrow> parseUint bits (showNat n) = Some n"
  by (simp add: parseUint_def parseDigits_showNat)

lemma parseUint_bound: "parseUint bits s = Some n \<Longrightarrow> n < 2 ^ bits"
  by (auto simp: parseUint_def split: if_splits option.splits)

section \<open>Base64 without padding\<close>

definition stdAlphabet :: string where
  "stdAlphabet = ''ABCDEFGHIJKLMNOPQRSTUVWXYZabcdefghijklmnopqrstuvwxyz0123456789+/''"

definition urlAlphabet :: string where
  "urlAlphabet = ''ABCDEFGHIJKLMNOPQRSTUVWXYZabcdefghijklmnopqrstuvwxyz0123456789-_''"

fun indexOf :: "char \<Rightarrow> string \<Rightarrow> nat option" where
  "indexOf c [] = None"
| "indexOf c (d # s) = (if c = d then Some 0 else map_option Suc (indexOf c s))"

fun sextets :: "nat list \<Rightarrow> nat list" where
  "sextets (a # b # c # r) =
     [a div 4, (a mod 4) * 16 + b div 16, (b mod 16) * 4 + c div 64, c mod 64] @ sextets r"
| "sextets [a, b] = [a div 4, (a mod 4) * 16 + b div 16, (b mod 16) * 4]"
| "sextets [a] = [a div 4, (a mod 4) * 16]"
| "sextets [] = []"

fun octets :: "nat list \<Rightarrow> nat list option" where
  "octets (w # x # y # z # r) =
     map_option (\<lambda>t. [w * 4 + x div 16, (x mod 16) * 16 + y div 4, (y mod 4) * 64 + z] @ t)
       (octets r)"
| "octets [w, x, y] = Some [w * 4 + x div 16, (x mod 16) * 16 + y div 4]"
| "octets [w, x] = Some [w * 4 + x div 16]"
| "octets [w] = None"
| "octets [] = Some []"

text \<open>
  \<open>EncodeToString\<close> and \<open>DecodeString\<close> of \<open>RawStdEncoding\<close> and \<open>RawURLEncoding\<close>. The
  decoder skips carriage returns and newlines, refuses any other byte outside the alphabet,
  and ignores the unused low bits of the last sextet.
\<close>

definition encode64 :: "string \<Rightarrow> string \<Rightarrow> string" where
  "encode64 alpha bs = map (\<lambda>n. alpha ! n) (sextets (map of_char bs))"

fun sextetsOf :: "string \<Rightarrow> string \<Rightarrow> nat list option" where
  "sextetsOf alpha [] = Some []"
| "sextetsOf alpha (c # s) =
     (if c = char_of (13 :: nat) \<or> c = char_of (10 :: nat) then sextetsOf alpha s
      else (case indexOf c alpha of
              None \<Rightarrow> None
            | Some n \<Rightarrow> map_option ((#) n) (sextetsOf alpha s)))"

definition decode64 :: "string \<Rightarrow> string \<Rightarrow> string option" where
  "decode64 alpha s =
     (case sextetsOf alpha s of
        None \<Rightarrow> None
      | Some ns \<Rightarrow> map_option (map char_of) (octets ns))"

definition alphabet_ok :: "string \<Rightarrow> bool" where
  "alphabet_ok alpha \<longleftrightarrow> length alpha = 64 \<and> distinct alpha \<and>
     char_of (13 :: nat) \<notin> set alpha \<and> char_of (10 :: nat) \<notin> set alpha"

lemma stdAlphabet_ok: "alphabet_ok stdAlphabet"
  unfolding alphabet_ok_def stdAlphabet_def by code_simp

lemma urlAlphabet_ok: "alphabet_ok urlAlphabet"
  unfolding alphabet_ok_def urlAlphabet_def by code_simp

lemma indexOf_nth: "distinct s \<Longrightarrow> n < length s \<Longrightarrow> indexOf (s ! n) s = Some n"
proof (induction s arbitrary: n)
  case Nil
  then show ?case by simp
next
  case (Cons c s)
  show ?case
  proof (cases n)
    case 0
    then show ?thesis by simp
  next
    case (Suc m)
    with Cons.prems have "c \<notin> set s" and "m < length s" by auto
    then have "s ! m \<noteq> c" by (metis nth_mem)
    with Cons Suc \<open>m < length s\<close> show ?thesis by simp
  qed
qed

lemma sextets_bound: "\<forall>b\<in>set bs. b < 256 \<Longrightarrow> \<forall>n\<in>set (sextets bs). n < 64"
proof (induction bs rule: sextets.induct)
  case (1 a b c r)
  have "a div 4 < 64" "(a mod 4) * 16 + b div 16 < 64" "(b mod 16) * 4 + c div 64 < 64"
    using "1.prems" by (auto simp: less_mult_imp_div_less)
  with 1 show ?case by auto
next
  case (2 a b)
  have "a div 4 < 64" "(a mod 4) * 16 + b div 16 < 64" "(b mod 16) * 4 < 64"
    using "2.prems" by (auto simp: less_mult_imp_div_less)
  then show ?case by auto
next
  case (3 a)
  have "a div 4 < 64" "(a mod 4) * 16 < 64"
    using "3.prems" by (auto simp: less_mult_imp_div_less)
  then show ?case by auto
qed auto

lemma octets_sextets: "\<forall>b\<in>set bs. b < 256 \<Longrightarrow> octets (sextets bs) = Some bs"
proof (induction bs rule: sextets.induct)
  case (1 a b c r)
  have "b div 16 < 16" "c div 64 < 4" using "1.prems" by auto
  moreover have "\<forall>x\<in>set r. x < 256" using "1.prems" by simp
  ultimately show ?case using "1.IH" by simp
next
  case (2 a b)
  then have "b div 16 < 16" by auto
  then show ?case by simp
next
  case (3 a)
  then show ?case by simp
qed simp

lemma sextetsOf_map:
  assumes "alphabet_ok alpha" and "\<forall>n\<in>set ns. n < 64"
  shows "sextetsOf alpha (map (\<lambda>n. alpha ! n) ns) = Some ns"
  using assms(2)
proof (induction ns)
  case Nil
  then show ?case by simp
next
  case (Cons n ns)
  with assms(1) have "n < length alpha" by (simp add: alphabet_ok_def)
  then have "alpha ! n \<in> set alpha" by simp
  with assms(1) have "alpha ! n \<noteq> char_of (13 :: nat)" "alpha ! n \<noteq> char_of (10 :: nat)"
    by (auto simp: alphabet_ok_def)
  moreover have "indexOf (alpha ! n) alpha = Some n"
    using assms(1) \<open>n < length alpha\<close> by (simp add: alphabet_ok_def indexOf_nth)
  ultimately show ?case using Cons by simp
qed

lemma of_char_bound: "\<forall>b\<in>set (map of_char bs). b < (256 :: nat)"
  by auto

lemma decode64_encode64: "alphabet_ok alpha \<Longrightarrow> decode64 alpha (encode64 alpha bs) = Some bs"
proof -
  assume ok: "alphabet_ok alpha"
  have "sextetsOf alpha (encode64 alpha bs) = Some (sextets (map of_char bs))"
    unfolding encode64_def by (rule sextetsOf_map [OF ok sextets_bound [OF of_char_bound]])
  moreover have "octets (sextets (map of_char bs)) = Some (map of_char bs)"
    by (rule octets_sextets [OF of_char_bound])
  ultimately show ?thesis by (simp add: decode64_def comp_def)
qed

lemma encode64_alphabet: "alphabet_ok alpha \<Longrightarrow> set (encode64 alpha bs) \<subseteq> set alpha"
proof -
  assume "alphabet_ok alpha"
  then have "\<forall>n\<in>set (sextets (map of_char bs)). n < length alpha"
    using sextets_bound [OF of_char_bound, of bs] by (simp add: alphabet_ok_def)
  then show ?thesis by (auto simp: encode64_def)
qed

lemma length_sextets: "length (sextets bs) = (length bs * 4 + 2) div 3"
  by (induction bs rule: sextets.induct) auto

lemma length_encode64: "length (encode64 alpha bs) = (length bs * 4 + 2) div 3"
  by (simp add: encode64_def length_sextets)

end
