(* ===== verification/Sample.thy ===== *)
theory Sample
  imports World GoEncoding
begin

text \<open>
  A concrete environment on which the witnesses of the other theories evaluate: nothing
  fails, clocks advance with the call counter, random bytes repeat the counter, UUIDs are
  counted and written in decimal. \<open>faultAt\<close> makes the database fail at one call.
\<close>

definition sampleEnv :: env where
  "sampleEnv =
     \<lparr>db_fault = (\<lambda>_. None),
      app_now = (\<lambda>t. 1000000000 * int t),
      db_now = (\<lambda>t. 1000000000 * int t),
      rand_read = (\<lambda>t n. Inr (replicate n (char_of t))),
      uuid_v7 = (\<lambda>t. Inr (of_nat (100 + t))),
      uuid_new = (\<lambda>t. of_nat (200 + t)),
      mail_result = (\<lambda>_. None),
      sha256 = (\<lambda>s. s),
      argon2_IDKey = (\<lambda>pw salt t m p len. take (unat len) (pw @ salt @ replicate (unat len) CHR 0x00)),
      unicode_lower = (\<lambda>n. n),
      parse_addr = (\<lambda>s. if s = '''' then None else Some s),
      uuid_string = (\<lambda>u. showNat (unat u)),
      uuid_parse = (\<lambda>s. case parseUint 128 s of
                           None \<Rightarrow> Inl (ErrorString ''invalid UUID'')
                         | Some n \<Rightarrow> Inr (of_nat n))\<rparr>"

definition faultAt :: "nat \<Rightarrow> env \<Rightarrow> env" where
  "faultAt n E = E\<lparr>db_fault := (\<lambda>t. if t = n then Some (ConnFault ''connection lost'') else None)\<rparr>"

definition sampleWorld :: "database \<Rightarrow> world" where
  "sampleWorld d = \<lparr>w_tick = 0, w_db = d, w_tx = None, w_mail = []\<rparr>"

lemma sample_simps [simp]:
  "db_fault sampleEnv t = None" "mail_result sampleEnv t = None"
  "app_now sampleEnv t = 1000000000 * int t" "db_now sampleEnv t = 1000000000 * int t"
  "uuid_v7 sampleEnv t = Inr (of_nat (100 + t))" "sha256 sampleEnv s = s"
  "rand_read sampleEnv t n = Inr (replicate n (char_of t))"
  "uuid_string sampleEnv u = showNat (unat u)" "unicode_lower sampleEnv c = c"
  "db_fault (faultAt k E) t = (if t = k then Some (ConnFault ''connection lost'') else None)"
  "uuid_v7 (faultAt k E) t = uuid_v7 E t" "app_now (faultAt k E) t = app_now E t"
  "db_now (faultAt k E) t = db_now E t" "uuid_string (faultAt k E) u = uuid_string E u"
  by (simp_all add: sampleEnv_def faultAt_def)

lemma sampleWorld_simps [simp]:
  "w_tick (sampleWorld d) = 0" "w_db (sampleWorld d) = d" "w_tx (sampleWorld d) = None"
  "w_mail (sampleWorld d) = []"
  by (simp_all add: sampleWorld_def)

lemma sample_uuid_roundtrip: "uuid_parse sampleEnv (uuid_string sampleEnv u) = Inr u"
proof -
  have "unat u < 2 ^ 128" using unsigned_less [of u] by simp
  then show ?thesis by (simp add: sampleEnv_def parseUint_showNat)
qed

lemma sample_uuid_letter: "uuid_parse sampleEnv (CHR ''A'' # s) = Inl (ErrorString ''invalid UUID'')"
  by (simp add: sampleEnv_def parseUint_def digitVal_def)

end
