(* ===== verification/Tenantctx.thy ===== *)
theory Tenantctx
  imports AuthTypes Sample
begin

text \<open>
  \<open>tenantctx/tenantctx.go\<close> and \<open>auth/context.go\<close>: request contexts as the chain of their
  \<open>context.WithValue\<close> layers, innermost first, and the tenant and claims values kept in
  them. A value is a string or session claims; each package's unexported key type is a
  constructor of its own, so keys of different packages never meet.
\<close>

datatype ctx_key =
    TenantContextKey
  | ClaimsContextKey
  | RequestIDContextKey
  | LegacyContextKey string

datatype ctx_val = CtxString string | CtxClaims session_claims

type_synonym ctx = "(ctx_key \<times> ctx_val) list"

definition withValue :: "ctx \<Rightarrow> ctx_key \<Rightarrow> ctx_val \<Rightarrow> ctx" where
  "withValue c k v = (k, v) # c"

definition ctxValue :: "ctx \<Rightarrow> ctx_key \<Rightarrow> ctx_val option" where
  "ctxValue c k = map_of c k"

lemma ctxValue_withValue [simp]:
  "ctxValue (withValue c k v) k' = (if k = k' then Some v else ctxValue c k')"
  by (simp add: ctxValue_def withValue_def)

lemma ctxValue_background [simp]: "ctxValue [] k = None"
  by (simp add: ctxValue_def)

section \<open>tenantctx.go\<close>

definition SystemTenant :: string where
  "SystemTenant = ''ADMIN_SYSTEM''"

definition WithTenantIDString :: "ctx \<Rightarrow> string \<Rightarrow> ctx" where
  "WithTenantIDString c tid = withValue c TenantContextKey (CtxString tid)"

definition WithTenantID :: "env \<Rightarrow> ctx \<Rightarrow> uuid \<Rightarrow> ctx" where
  "WithTenantID E c tid = withValue c TenantContextKey (CtxString (uuid_string E tid))"

definition WithSystemTenant :: "ctx \<Rightarrow> ctx" where
  "WithSystemTenant c = WithTenantIDString c SystemTenant"

text \<open>\<open>(value, true)\<close> is Some, \<open>("", false)\<close> is None.\<close>

definition TenantIDString :: "ctx \<Rightarrow> string option" where
  "TenantIDString c =
     (case ctxValue c TenantContextKey of
        Some (CtxString tid) \<Rightarrow> if tid = '''' then None else Some tid
      | _ \<Rightarrow> None)"

definition TenantID :: "env \<Rightarrow> ctx \<Rightarrow> uuid option" where
  "TenantID E c =
     (case TenantIDString c of
        None \<Rightarrow> None
      | Some s \<Rightarrow> (case uuid_parse E s of Inl _ \<Rightarrow> None | Inr u \<Rightarrow> Some u))"

definition IsSystemTenant :: "ctx \<Rightarrow> bool" where
  "IsSystemTenant c =
     (case TenantIDString c of None \<Rightarrow> False | Some s \<Rightarrow> s = SystemTenant)"

lemma TenantIDString_with [simp]:
  "TenantIDString (WithTenantIDString c s) = (if s = '''' then None else Some s)"
  by (simp add: TenantIDString_def WithTenantIDString_def)

lemma TenantIDString_withID [simp]:
  "TenantIDString (WithTenantID E c u) = (if uuid_string E u = '''' then None else Some (uuid_string E u))"
  by (simp add: TenantIDString_def WithTenantID_def)

lemma TenantIDString_other [simp]:
  "k \<noteq> TenantContextKey \<Longrightarrow> TenantIDString (withValue c k v) = TenantIDString c"
  by (simp add: TenantIDString_def)

text \<open>
  What the code relies on of \<open>github.com/google/uuid\<close>: \<open>Parse\<close> reads back what \<open>String\<close>
  writes, the text is never empty, and the word \<open>ADMIN_SYSTEM\<close> (12 bytes; UUID texts have 32,
  36, 38 or 45) is refused.
\<close>

definition uuid_contract :: "env \<Rightarrow> bool" where
  "uuid_contract E \<longleftrightarrow>
     (\<forall>u. uuid_parse E (uuid_string E u) = Inr u) \<and> (\<forall>u. uuid_string E u \<noteq> '''') \<and>
     \<not> isOk (uuid_parse E SystemTenant)"

lemma sample_uuid_contract: "uuid_contract sampleEnv"
  unfolding uuid_contract_def SystemTenant_def sample_uuid_letter sample_uuid_roundtrip
  by simp

section \<open>auth/context.go\<close>

definition WithSessionClaims :: "ctx \<Rightarrow> session_claims \<Rightarrow> ctx" where
  "WithSessionClaims c claims = withValue c ClaimsContextKey (CtxClaims claims)"

definition SessionClaimsFromContext :: "ctx \<Rightarrow> session_claims option" where
  "SessionClaimsFromContext c =
     (case ctxValue c ClaimsContextKey of Some (CtxClaims cl) \<Rightarrow> Some cl | _ \<Rightarrow> None)"

definition activeTenantFromClaims :: "session_claims \<Rightarrow> uuid option" where
  "activeTenantFromClaims claims = sc_ActiveTenantID claims"

lemma SessionClaimsFromContext_with [simp]:
  "SessionClaimsFromContext (WithSessionClaims c cl) = Some cl"
  by (simp add: SessionClaimsFromContext_def WithSessionClaims_def)

lemma SessionClaimsFromContext_other [simp]:
  "k \<noteq> ClaimsContextKey \<Longrightarrow> SessionClaimsFromContext (withValue c k v) = SessionClaimsFromContext c"
  "SessionClaimsFromContext (WithTenantID E c u) = SessionClaimsFromContext c"
  by (simp_all add: SessionClaimsFromContext_def WithTenantID_def)

lemma TenantIDString_claims [simp]: "TenantIDString (WithSessionClaims c cl) = TenantIDString c"
  by (simp add: WithSessionClaims_def)

lemma TenantID_with [simp]: "uuid_contract E \<Longrightarrow> TenantID E (WithTenantID E c u) = Some u"
  by (simp add: TenantID_def uuid_contract_def)

section \<open>Properties\<close>

text \<open>
  A tenant put in the context is read back, as text and as UUID, through any layer that
  another package adds; the system tenant is recognised, and it is never a tenant UUID.
\<close>

theorem tenant_roundtrip:
  assumes "uuid_contract E" and "k \<noteq> TenantContextKey"
  shows "TenantID E (withValue (WithTenantID E c u) k v) = Some u \<and>
         TenantIDString (withValue (WithTenantID E c u) k v) = Some (uuid_string E u) \<and>
         \<not> IsSystemTenant (withValue (WithTenantID E c u) k v) \<and>
         IsSystemTenant (withValue (WithSystemTenant c) k v) \<and>
         TenantID E (withValue (WithSystemTenant c) k v) = None"
proof -
  have "uuid_string E u \<noteq> ''''" and rt: "uuid_parse E (uuid_string E u) = Inr u"
    and sys: "\<not> isOk (uuid_parse E SystemTenant)"
    using assms(1) by (auto simp: uuid_contract_def)
  moreover from rt sys have "uuid_string E u \<noteq> SystemTenant" by auto
  ultimately show ?thesis
    using assms(2)
    by (auto simp: TenantID_def IsSystemTenant_def WithSystemTenant_def SystemTenant_def
        split: sum.splits)
qed

theorem tenant_roundtrip_witness:
  "TenantID sampleEnv (withValue (WithTenantID sampleEnv [] 7) RequestIDContextKey (CtxString ''r1'')) = Some 7"
  using tenant_roundtrip [OF sample_uuid_contract, of RequestIDContextKey] by blast

end
