(* ===== verification/Http.thy ===== *)
theory Http
  imports Tenantctx
begin

text \<open>
  What the handlers use of \<open>net/http\<close>: a request's method, path, query, headers, cookies,
  remote address, host and context; a response as its status, the headers and cookies set before
  it, and the body written. \<open>http.Error\<close>, \<open>http.Redirect\<close> and \<open>json.Encode\<close> are kept as
  constructors of the body: what is sent, not its bytes.
\<close>

record http_request =
  rq_Method :: string
  rq_Path :: string
  rq_Query :: "string \<Rightarrow> string"
  rq_Header :: "string \<Rightarrow> string"
  rq_Cookies :: "(string \<times> string) list"
  rq_RemoteAddr :: string
  rq_Host :: string
  rq_Context :: ctx

datatype same_site = SameSiteDefaultMode | SameSiteLaxMode | SameSiteStrictMode | SameSiteNoneMode

record http_cookie =
  ck_Name :: string
  ck_Value :: string
  ck_Path :: string
  ck_MaxAge :: int
  ck_Secure :: bool
  ck_HttpOnly :: bool
  ck_SameSite :: same_site
  ck_Expires :: "int option"

datatype body =
    NoBody
  | ErrorBody string
  | RedirectBody string
  | JsonBody json
  | TextBody string

record http_response =
  rs_Status :: nat
  rs_Headers :: "(string \<times> string) list"
  rs_Cookies :: "http_cookie list"
  rs_Body :: body

definition respond :: "nat \<Rightarrow> body \<Rightarrow> http_response" where
  "respond st b = \<lparr>rs_Status = st, rs_Headers = [], rs_Cookies = [], rs_Body = b\<rparr>"

definition httpError :: "string \<Rightarrow> nat \<Rightarrow> http_response" where
  "httpError m st = respond st (ErrorBody m)"

definition httpRedirect :: "string \<Rightarrow> nat \<Rightarrow> http_response" where
  "httpRedirect url st = respond st (RedirectBody url)"

definition jsonResponse :: "nat \<Rightarrow> json \<Rightarrow> http_response" where
  "jsonResponse st j = (respond st (JsonBody j))\<lparr>rs_Headers := [(''Content-Type'', ''application/json'')]\<rparr>"

definition addCookie :: "http_cookie \<Rightarrow> http_response \<Rightarrow> http_response" where
  "addCookie c r = r\<lparr>rs_Cookies := c # rs_Cookies r\<rparr>"

text \<open>A string field tagged \<open>omitempty\<close>.\<close>

definition omitEmpty :: "string \<Rightarrow> string \<Rightarrow> (string \<times> json) list" where
  "omitEmpty key v = (if v = '''' then [] else [(key, JString v)])"

lemma response_simps [simp]:
  "rs_Status (respond st b) = st" "rs_Body (respond st b) = b"
  "rs_Status (httpError m st) = st" "rs_Body (httpError m st) = ErrorBody m"
  "rs_Status (httpRedirect u st) = st" "rs_Body (httpRedirect u st) = RedirectBody u"
  "rs_Status (jsonResponse st j) = st" "rs_Body (jsonResponse st j) = JsonBody j"
  "rs_Status (addCookie c r) = rs_Status r" "rs_Body (addCookie c r) = rs_Body r"
  "rs_Cookies (addCookie c r) = c # rs_Cookies r"
  "rs_Cookies (httpError m st) = []" "rs_Cookies (httpRedirect u st) = []"
  "rs_Cookies (jsonResponse st j) = []"
  by (simp_all add: respond_def httpError_def httpRedirect_def jsonResponse_def addCookie_def)

end
