(* ===== verification/Session.thy ===== *)
theory Session
  imports Http
begin

text \<open>
  \<open>session/session.go\<close>: the session manager, its configuration and its operations, over the
  SCS library. SCS is a parameter: the record \<open>scs\<close> of its operations on a state \<open>'s\<close> (the
  session data of the request and the store behind it). The contract \<open>scs_contract\<close> states the
  documented behaviour the handlers rely on.
\<close>

datatype session_value = SVClaims session_claims | SVString string | SVInt int

record 's scs =
  scs_Get :: "'s \<Rightarrow> string \<Rightarrow> session_value option"
  scs_Put :: "'s \<Rightarrow> string \<Rightarrow> session_value \<Rightarrow> 's"
  scs_Destroy :: "'s \<Rightarrow> go_error option \<times> 's"
  scs_Load :: "'s \<Rightarrow> string \<Rightarrow> go_error + 's"

section \<open>Configuration\<close>

text \<open>Durations are in nanoseconds, as in Go.\<close>

definition second :: int where "second = 1000000000"
definition minute :: int where "minute = 60 * second"
definition hour :: int where "hour = 60 * minute"

definition SessionCookieDefault :: string where
  "SessionCookieDefault = ''session''"

text \<open>\<open>http.SameSite\<close> is an integer in Go; its zero value is None here.\<close>

record session_config =
  ses_ExpiryInterval :: int
  ses_Lifetime :: int
  ses_CookieName :: string
  ses_CookieSecure :: bool
  ses_CookieSameSite :: "same_site option"

definition sessionDefaults :: "session_config \<Rightarrow> session_config" where
  "sessionDefaults c = c\<lparr>
     ses_ExpiryInterval := (if ses_ExpiryInterval c \<le> 0 then 5 * minute else ses_ExpiryInterval c),
     ses_Lifetime := (if ses_Lifetime c \<le> 0 then 24 * hour else ses_Lifetime c),
     ses_CookieName := (if ses_CookieName c = '''' then SessionCookieDefault else ses_CookieName c),
     ses_CookieSameSite :=
       Some (case ses_CookieSameSite c of None \<Rightarrow> SameSiteLaxMode | Some m \<Rightarrow> m)\<rparr>"

section \<open>Manager\<close>

datatype session_backend = MemoryStore int | PgxStore int "string option" | CustomStore

record 's session_manager =
  mgr_Lifetime :: int
  mgr_CookieName :: string
  mgr_CookieSecure :: bool
  mgr_CookieSameSite :: "same_site option"
  mgr_Store :: session_backend
  mgr_scs :: "'s scs"

definition sessionNew :: "session_config \<Rightarrow> session_backend \<Rightarrow> 's scs \<Rightarrow> 's session_manager" where
  "sessionNew cfg store ops =
     (let c = sessionDefaults cfg
      in \<lparr>mgr_Lifetime = ses_Lifetime c, mgr_CookieName = ses_CookieName c,
          mgr_CookieSecure = ses_CookieSecure c, mgr_CookieSameSite = ses_CookieSameSite c,
          mgr_Store = store, mgr_scs = ops\<rparr>)"

definition NewMemory :: "session_config \<Rightarrow> 's scs \<Rightarrow> 's session_manager" where
  "NewMemory cfg ops =
     (let c = sessionDefaults cfg in sessionNew c (MemoryStore (ses_ExpiryInterval c)) ops)"

definition NewPostgres :: "session_config \<Rightarrow> string \<Rightarrow> 's scs \<Rightarrow> 's session_manager" where
  "NewPostgres cfg tableName ops =
     (let c = sessionDefaults cfg
      in sessionNew c (PgxStore (ses_ExpiryInterval c) (if tableName \<noteq> '''' then Some tableName else None)) ops)"

definition managerGet :: "'s session_manager \<Rightarrow> 's \<Rightarrow> string \<Rightarrow> session_value option" where
  "managerGet m s key = scs_Get (mgr_scs m) s key"

definition managerGetString :: "'s session_manager \<Rightarrow> 's \<Rightarrow> string \<Rightarrow> string" where
  "managerGetString m s key =
     (case scs_Get (mgr_scs m) s key of Some (SVString v) \<Rightarrow> v | _ \<Rightarrow> '''')"

definition managerPut :: "'s session_manager \<Rightarrow> 's \<Rightarrow> string \<Rightarrow> session_value \<Rightarrow> 's" where
  "managerPut m s key v = scs_Put (mgr_scs m) s key v"

definition managerDestroy :: "'s session_manager \<Rightarrow> 's \<Rightarrow> go_error option \<times> 's" where
  "managerDestroy m s = scs_Destroy (mgr_scs m) s"

definition managerLoad :: "'s session_manager \<Rightarrow> 's \<Rightarrow> string \<Rightarrow> go_error + 's" where
  "managerLoad m s token = scs_Load (mgr_scs m) s token"

definition managerPutHTTP :: "'s session_manager \<Rightarrow> 's \<Rightarrow> string \<Rightarrow> session_value \<Rightarrow> 's" where
  "managerPutHTTP m s key v = scs_Put (mgr_scs m) s key v"

definition managerInner :: "'s session_manager \<Rightarrow> 's scs" where
  "managerInner m = mgr_scs m"

text \<open>\<open>loadAndSave\<close> is the middleware of SCS on its manager.\<close>

definition managerLoadAndSave :: "('s scs \<Rightarrow> 'h \<Rightarrow> 'h) \<Rightarrow> 's session_manager \<Rightarrow> 'h \<Rightarrow> 'h" where
  "managerLoadAndSave loadAndSave m = loadAndSave (mgr_scs m)"

text \<open>
  The registry of \<open>encoding/gob\<close>, by the names of the registered types; registering a type again
  under its name changes nothing.
\<close>

fun RegisterGobTypes :: "string list \<Rightarrow> string list \<Rightarrow> string list" where
  "RegisterGobTypes [] registry = registry"
| "RegisterGobTypes (v # vs) registry =
     RegisterGobTypes vs (if v \<in> set registry then registry else registry @ [v])"

lemma RegisterGobTypes_set: "set (RegisterGobTypes vs registry) = set vs \<union> set registry"
  by (induction vs registry rule: RegisterGobTypes.induct) auto

text \<open>The constructors apply the defaults twice; once is enough.\<close>

lemma sessionDefaults_idem [simp]: "sessionDefaults (sessionDefaults c) = sessionDefaults c"
  by (simp add: sessionDefaults_def SessionCookieDefault_def minute_def hour_def second_def split: option.split)

lemma NewMemory_settings:
  "mgr_Lifetime (NewMemory cfg ops) = ses_Lifetime (sessionDefaults cfg)"
  "mgr_CookieName (NewMemory cfg ops) = ses_CookieName (sessionDefaults cfg)"
  "mgr_Store (NewMemory cfg ops) = MemoryStore (ses_ExpiryInterval (sessionDefaults cfg))"
  by (simp_all add: NewMemory_def sessionNew_def Let_def)

text \<open>A manager never has an empty cookie name, a lifetime or a clean-up interval that is not positive.\<close>

lemma sessionDefaults_positive:
  "0 < ses_Lifetime (sessionDefaults c) \<and> 0 < ses_ExpiryInterval (sessionDefaults c) \<and>
   ses_CookieName (sessionDefaults c) \<noteq> '''' \<and> ses_CookieSameSite (sessionDefaults c) \<noteq> None"
  by (simp add: sessionDefaults_def SessionCookieDefault_def minute_def hour_def second_def)

text \<open>
  What the handlers rely on of SCS: \<open>Get\<close> returns what \<open>Put\<close> stored last under the key and is
  not affected by other keys, after a successful \<open>Destroy\<close> nothing is stored, and a \<open>Destroy\<close>
  that fails leaves the values as they were.
\<close>

definition scs_contract :: "'s scs \<Rightarrow> bool" where
  "scs_contract ops \<longleftrightarrow>
     (\<forall>s k v k'. scs_Get ops (scs_Put ops s k v) k' = (if k = k' then Some v else scs_Get ops s k')) \<and>
     (\<forall>s s' k. scs_Destroy ops s = (None, s') \<longrightarrow> scs_Get ops s' k = None) \<and>
     (\<forall>s e s' k. scs_Destroy ops s = (Some e, s') \<longrightarrow> scs_Get ops s' k = scs_Get ops s k)"

section \<open>The session interface\<close>

text \<open>What a handler may assume of a session manager that is \<open>good\<close>.\<close>

locale session_store =
  fixes good :: "'m \<Rightarrow> bool"
    and get :: "'m \<Rightarrow> 's \<Rightarrow> string \<Rightarrow> session_value option"
    and put :: "'m \<Rightarrow> 's \<Rightarrow> string \<Rightarrow> session_value \<Rightarrow> 's"
    and destroy :: "'m \<Rightarrow> 's \<Rightarrow> go_error option \<times> 's"
  assumes get_put: "good m \<Longrightarrow> get m (put m s k v) k' = (if k = k' then Some v else get m s k')"
    and get_destroy: "good m \<Longrightarrow> destroy m s = (None, s') \<Longrightarrow> get m s' k = None"
    and get_destroy_failed: "good m \<Longrightarrow> destroy m s = (Some e, s') \<Longrightarrow> get m s' k = get m s k"
begin

lemma get_put_put:
  "good m \<Longrightarrow> k \<noteq> k' \<Longrightarrow> get m (put m (put m s k v) k' v') k = Some v"
  by (simp add: get_put)

lemma get_destroy_put:
  "good m \<Longrightarrow> destroy m (put m s k v) = (None, s') \<Longrightarrow> get m s' k = None"
  by (rule get_destroy)

lemma destroy_keeps_or_clears:
  "good m \<Longrightarrow> get m (snd (destroy m s)) k = Some v \<Longrightarrow> get m s k = Some v"
  using get_destroy [of m s "snd (destroy m s)" k] get_destroy_failed [of m s _ "snd (destroy m s)" k]
  by (cases "destroy m s"; cases "fst (destroy m s)") auto

end

definition manager_good :: "'s session_manager \<Rightarrow> bool" where
  "manager_good m \<longleftrightarrow> scs_contract (mgr_scs m)"

interpretation mgr: session_store manager_good managerGet managerPut managerDestroy
  by unfold_locales
    (simp_all add: manager_good_def scs_contract_def managerGet_def managerPut_def managerDestroy_def)

text \<open>A map-backed SCS satisfies the contract.\<close>

definition sampleScs :: "(string \<Rightarrow> session_value option) scs" where
  "sampleScs =
     \<lparr>scs_Get = (\<lambda>s k. s k), scs_Put = (\<lambda>s k v. s(k \<mapsto> v)),
      scs_Destroy = (\<lambda>s. (None, \<lambda>_. None)), scs_Load = (\<lambda>s token. Inr s)\<rparr>"

definition sampleManager :: "(string \<Rightarrow> session_value option) session_manager" where
  "sampleManager =
     NewMemory \<lparr>ses_ExpiryInterval = 0, ses_Lifetime = 0, ses_CookieName = '''',
                ses_CookieSecure = True, ses_CookieSameSite = None\<rparr> sampleScs"

lemma sampleManager_good: "manager_good sampleManager"
  by (auto simp: manager_good_def sampleManager_def NewMemory_def sessionNew_def Let_def
      scs_contract_def sampleScs_def)

lemma sampleManager_ops [simp]:
  "managerGet sampleManager s k = s k" "managerPut sampleManager s k v = s(k \<mapsto> v)"
  "managerDestroy sampleManager s = (None, \<lambda>_. None)"
  by (simp_all add: sampleManager_def NewMemory_def sessionNew_def Let_def sampleScs_def
      managerGet_def managerPut_def managerDestroy_def)

section \<open>Handlers' world\<close>

text \<open>The world of a request handler: the store's world and the request's session.\<close>

record 's web = world +
  w_sess :: 's

definition sampleWeb :: "database \<Rightarrow> 's \<Rightarrow> 's web" where
  "sampleWeb d s = \<lparr>w_tick = 0, w_db = d, w_tx = None, w_mail = [], w_sess = s\<rparr>"

lemma sampleWeb_simps [simp]:
  "w_tick (sampleWeb d s) = 0" "w_db (sampleWeb d s) = d" "w_tx (sampleWeb d s) = None"
  "w_mail (sampleWeb d s) = []" "w_sess (sampleWeb d s) = s"
  by (simp_all add: sampleWeb_def)

type_synonym ('s, 'a) web_io = "('s web, 'a) state"

definition sessGet :: "'s session_manager \<Rightarrow> string \<Rightarrow> ('s, session_value option) web_io" where
  "sessGet m key = do { w \<leftarrow> State_Monad.get; State_Monad.return (managerGet m (w_sess w) key) }"

definition sessPut :: "'s session_manager \<Rightarrow> string \<Rightarrow> session_value \<Rightarrow> ('s, unit) web_io" where
  "sessPut m key v = State_Monad.update (\<lambda>w. w\<lparr>w_sess := managerPut m (w_sess w) key v\<rparr>)"

definition sessDestroy :: "'s session_manager \<Rightarrow> ('s, go_error option) web_io" where
  "sessDestroy m = do {
     w \<leftarrow> State_Monad.get;
     _ \<leftarrow> State_Monad.set (w\<lparr>w_sess := snd (managerDestroy m (w_sess w))\<rparr>);
     State_Monad.return (fst (managerDestroy m (w_sess w))) }"

lemma run_sess [simp]:
  "run_state (sessGet m key) w = (managerGet m (w_sess w) key, w)"
  "run_state (sessPut m key v) w = ((), w\<lparr>w_sess := managerPut m (w_sess w) key v\<rparr>)"
  "run_state (sessDestroy m) w =
     (fst (managerDestroy m (w_sess w)), w\<lparr>w_sess := snd (managerDestroy m (w_sess w))\<rparr>)"
  by (simp_all add: sessGet_def sessPut_def sessDestroy_def)

text \<open>The type assertion \<open>value.(SessionClaims)\<close> and the check every handler makes.\<close>

definition claimsIn :: "session_value option \<Rightarrow> session_claims option" where
  "claimsIn v = (case v of Some (SVClaims c) \<Rightarrow> Some c | _ \<Rightarrow> None)"

definition authenticatedClaims :: "session_value option \<Rightarrow> session_claims option" where
  "authenticatedClaims v =
     (case claimsIn v of None \<Rightarrow> None | Some c \<Rightarrow> if sc_Authenticated c then Some c else None)"

lemma authenticatedClaims_Some:
  "authenticatedClaims v = Some c \<longleftrightarrow> v = Some (SVClaims c) \<and> sc_Authenticated c"
  by (auto simp: authenticatedClaims_def claimsIn_def split: option.splits session_value.splits)

lemma authenticatedClaims_simps [simp]:
  "authenticatedClaims (Some (SVClaims c)) = (if sc_Authenticated c then Some c else None)"
  "authenticatedClaims None = None"
  by (simp_all add: authenticatedClaims_def claimsIn_def)

text \<open>\<open>getSessionClaims\<close> of both handlers, and the claims both of them store at a login.\<close>

definition getSessionClaims :: "'s session_manager \<Rightarrow> string \<Rightarrow> ('s, session_claims option) web_io" where
  "getSessionClaims m key = do {
     v \<leftarrow> sessGet m key;
     State_Monad.return
       (case claimsIn v of
          None \<Rightarrow> None
        | Some c \<Rightarrow> if \<not> sc_Authenticated c then None else Some c) }"

definition claimsFor :: "user_ref \<Rightarrow> membership list \<Rightarrow> session_claims" where
  "claimsFor ref ms =
     \<lparr>sc_Authenticated = True, sc_UserID = ref_UserID ref, sc_Issuer = ref_Issuer ref,
      sc_Subject = ref_Subject ref,
      sc_ActiveTenantID = (if length ms = 1 then Some (mb_TenantID (hd ms)) else None)\<rparr>"

lemma run_getSessionClaims [simp]:
  "run_state (getSessionClaims m key) w = (authenticatedClaims (managerGet m (w_sess w) key), w)"
  by (simp add: getSessionClaims_def authenticatedClaims_def split: option.split)

end
