(* ===== verification/Queries.thy ===== *)
theory Queries
  imports World
begin

text \<open>
  The generated queries of \<open>internal/db/auth.sql.go\<close> and \<open>internal/db/password.sql.go\<close>. For
  each there is the SQL statement as a function from the tables to the returned rows and the
  tables after it (\<open>sql...\<close>), with the constraints of the migrations, and the Go method that
  runs it. SQLSTATE 23505 is a unique violation, 23503 a missing foreign key, 23514 a failed
  CHECK. \<open>NOW()\<close> is the statement's time argument: the start of the transaction.
\<close>

section \<open>Constraints of the schema\<close>

definition userExists :: "database \<Rightarrow> uuid \<Rightarrow> bool" where
  "userExists d uid \<longleftrightarrow> uid \<in> set (map u_id (users d))"

definition tenantExists :: "database \<Rightarrow> uuid \<Rightarrow> bool" where
  "tenantExists d tid \<longleftrightarrow> tid \<in> set (map t_tenant_id (tenants d))"

definition roleNames :: "string list" where
  "roleNames = [''owner'', ''admin'', ''member'']"

definition tokenTypes :: "string list" where
  "tokenTypes = [''password_reset'', ''email_verification'']"

section \<open>auth.sql.go\<close>

definition sqlGetFirstTenant :: "uuid stmt" where
  "sqlGetFirstTenant now d =
     Inr (map t_tenant_id (take 1 (sort_key t_created_at (tenants d))), d)"

definition GetFirstTenant :: "env \<Rightarrow> dbtx \<Rightarrow> ('z, go_error + uuid) io" where
  "GetFirstTenant E h = queryRow E h sqlGetFirstTenant"

record membership_row =
  mr_TenantID :: uuid
  mr_Role :: string

definition sqlGetMembershipByUserAndTenant :: "uuid \<Rightarrow> uuid \<Rightarrow> membership_row stmt" where
  "sqlGetMembershipByUserAndTenant uid tid now d =
     Inr (map (\<lambda>m. \<lparr>mr_TenantID = tm_tenant_id m, mr_Role = tm_role m\<rparr>)
            (filter (\<lambda>m. tm_user_id m = uid \<and> tm_tenant_id m = tid) (memberships d)), d)"

definition GetMembershipByUserAndTenant ::
    "env \<Rightarrow> dbtx \<Rightarrow> uuid \<Rightarrow> uuid \<Rightarrow> ('z, go_error + membership_row) io" where
  "GetMembershipByUserAndTenant E h uid tid = queryRow E h (sqlGetMembershipByUserAndTenant uid tid)"

record tenant_row =
  tr_TenantID :: uuid
  tr_Name :: string

definition sqlGetTenantByID :: "uuid \<Rightarrow> tenant_row stmt" where
  "sqlGetTenantByID tid now d =
     Inr (map (\<lambda>t. \<lparr>tr_TenantID = t_tenant_id t, tr_Name = t_name t\<rparr>)
            (filter (\<lambda>t. t_tenant_id t = tid) (tenants d)), d)"

definition GetTenantByID :: "env \<Rightarrow> dbtx \<Rightarrow> uuid \<Rightarrow> ('z, go_error + tenant_row) io" where
  "GetTenantByID E h tid = queryRow E h (sqlGetTenantByID tid)"

record user_row =
  ur_ID :: uuid
  ur_Issuer :: string
  ur_IdentifierSubject :: string

definition userRow :: "user \<Rightarrow> user_row" where
  "userRow u = \<lparr>ur_ID = u_id u, ur_Issuer = u_issuer u, ur_IdentifierSubject = u_subject u\<rparr>"

definition sqlGetUserByIdentifier :: "string \<Rightarrow> string \<Rightarrow> user_row stmt" where
  "sqlGetUserByIdentifier issuer subject now d =
     Inr (map userRow (filter (\<lambda>u. u_issuer u = issuer \<and> u_subject u = subject) (users d)), d)"

definition GetUserByIdentifier ::
    "env \<Rightarrow> dbtx \<Rightarrow> string \<Rightarrow> string \<Rightarrow> ('z, go_error + user_row) io" where
  "GetUserByIdentifier E h issuer subject = queryRow E h (sqlGetUserByIdentifier issuer subject)"

definition sqlInsertTenant :: "uuid \<Rightarrow> string \<Rightarrow> unit stmt" where
  "sqlInsertTenant tid name now d =
     (if tenantExists d tid then Inl (PgError ''23505'')
      else Inr ([], d\<lparr>tenants := tenants d @
             [\<lparr>t_tenant_id = tid, t_name = name, t_created_at = now, t_updated_at = now\<rparr>]\<rparr>))"

definition InsertTenant :: "env \<Rightarrow> dbtx \<Rightarrow> uuid \<Rightarrow> string \<Rightarrow> ('z, go_error + unit) io" where
  "InsertTenant E h tid name = execStmt E h (sqlInsertTenant tid name)"

record insert_user_params =
  iu_ID :: uuid
  iu_Email :: string
  iu_EmailVerified :: bool
  iu_Username :: "string option"
  iu_Name :: "string option"
  iu_Issuer :: string
  iu_IdentifierSubject :: string
  iu_LastLoginAt :: "int option"

text \<open>
  The unique constraints of \<open>users\<close>: the primary key, \<open>unique_issuer_subject\<close>, and the
  partial index \<open>users_email_issuer_uniq\<close> on rows with a non-empty email.
\<close>

definition userConflict :: "database \<Rightarrow> insert_user_params \<Rightarrow> bool" where
  "userConflict d p \<longleftrightarrow>
     (\<exists>u\<in>set (users d). u_id u = iu_ID p
        \<or> (u_issuer u = iu_Issuer p \<and> u_subject u = iu_IdentifierSubject p)
        \<or> (iu_Email p \<noteq> '''' \<and> u_email u = iu_Email p \<and> u_issuer u = iu_Issuer p))"

definition sqlInsertUser :: "insert_user_params \<Rightarrow> user_row stmt" where
  "sqlInsertUser p now d =
     (if userConflict d p then Inl (PgError ''23505'')
      else (let u = \<lparr>u_id = iu_ID p, u_email = iu_Email p, u_email_verified = iu_EmailVerified p,
                     u_username = iu_Username p, u_name = iu_Name p, u_issuer = iu_Issuer p,
                     u_subject = iu_IdentifierSubject p, u_last_login_at = iu_LastLoginAt p,
                     u_created_at = now, u_updated_at = now\<rparr>
            in Inr ([userRow u], d\<lparr>users := users d @ [u]\<rparr>)))"

definition InsertUser :: "env \<Rightarrow> dbtx \<Rightarrow> insert_user_params \<Rightarrow> ('z, go_error + user_row) io" where
  "InsertUser E h p = queryRow E h (sqlInsertUser p)"

record list_memberships_row =
  lm_TenantID :: uuid
  lm_TenantName :: string
  lm_Role :: string

definition sqlListMemberships :: "uuid \<Rightarrow> list_memberships_row stmt" where
  "sqlListMemberships uid now d =
     Inr (concat (map (\<lambda>m. map (\<lambda>t. \<lparr>lm_TenantID = tm_tenant_id m, lm_TenantName = t_name t,
                                   lm_Role = tm_role m\<rparr>)
                          (filter (\<lambda>t. t_tenant_id t = tm_tenant_id m) (tenants d)))
            (sort_key tm_created_at (filter (\<lambda>m. tm_user_id m = uid) (memberships d)))), d)"

definition ListMembershipRows ::
    "env \<Rightarrow> dbtx \<Rightarrow> uuid \<Rightarrow> ('z, go_error + list_memberships_row list) io" where
  "ListMembershipRows E h uid = queryRows E h (sqlListMemberships uid)"

definition sqlUpsertMembership :: "uuid \<Rightarrow> uuid \<Rightarrow> string \<Rightarrow> membership_row stmt" where
  "sqlUpsertMembership uid tid role now d =
     (if role \<notin> set roleNames then Inl (PgError ''23514'')
      else if \<not> userExists d uid \<or> \<not> tenantExists d tid then Inl (PgError ''23503'')
      else Inr ([\<lparr>mr_TenantID = tid, mr_Role = role\<rparr>],
        if (\<exists>m\<in>set (memberships d). tm_user_id m = uid \<and> tm_tenant_id m = tid)
        then d\<lparr>memberships := map (\<lambda>m. if tm_user_id m = uid \<and> tm_tenant_id m = tid
                                       then m\<lparr>tm_role := role\<rparr> else m) (memberships d)\<rparr>
        else d\<lparr>memberships := memberships d @
               [\<lparr>tm_user_id = uid, tm_tenant_id = tid, tm_role = role,
                 tm_created_at = now, tm_updated_at = now\<rparr>]\<rparr>))"

definition UpsertMembership ::
    "env \<Rightarrow> dbtx \<Rightarrow> uuid \<Rightarrow> uuid \<Rightarrow> string \<Rightarrow> ('z, go_error + membership_row) io" where
  "UpsertMembership E h uid tid role = queryRow E h (sqlUpsertMembership uid tid role)"

section \<open>password.sql.go\<close>

definition consumable :: "string \<Rightarrow> string \<Rightarrow> int \<Rightarrow> auth_token \<Rightarrow> bool" where
  "consumable h ty now t \<longleftrightarrow>
     at_token_hash t = h \<and> at_token_type t = ty \<and> at_consumed_at t = None \<and> now < at_expires_at t"

definition sqlConsumeAuthToken :: "string \<Rightarrow> string \<Rightarrow> uuid stmt" where
  "sqlConsumeAuthToken h ty now d =
     Inr (map at_user_id (filter (consumable h ty now) (tokens d)),
          d\<lparr>tokens := map (\<lambda>t. if consumable h ty now t then t\<lparr>at_consumed_at := Some now\<rparr> else t)
                        (tokens d)\<rparr>)"

definition ConsumeAuthToken :: "env \<Rightarrow> dbtx \<Rightarrow> string \<Rightarrow> string \<Rightarrow> ('z, go_error + uuid) io" where
  "ConsumeAuthToken E h th ty = queryRow E h (sqlConsumeAuthToken th ty)"

definition recentFailure :: "uuid \<Rightarrow> int \<Rightarrow> login_attempt \<Rightarrow> bool" where
  "recentFailure uid since a \<longleftrightarrow> la_user_id a = uid \<and> \<not> la_success a \<and> since < la_attempted_at a"

definition sqlCountRecentFailedAttempts :: "uuid \<Rightarrow> int \<Rightarrow> nat stmt" where
  "sqlCountRecentFailedAttempts uid since now d =
     Inr ([length (filter (recentFailure uid since) (attempts d))], d)"

definition CountRecentFailedAttempts :: "env \<Rightarrow> dbtx \<Rightarrow> uuid \<Rightarrow> int \<Rightarrow> ('z, go_error + nat) io" where
  "CountRecentFailedAttempts E h uid since = queryRow E h (sqlCountRecentFailedAttempts uid since)"

definition sqlDeletePasswordCredential :: "uuid \<Rightarrow> unit stmt" where
  "sqlDeletePasswordCredential uid now d =
     Inr ([], d\<lparr>credentials := filter (\<lambda>c. pc_user_id c \<noteq> uid) (credentials d)\<rparr>)"

definition DeletePasswordCredential :: "env \<Rightarrow> dbtx \<Rightarrow> uuid \<Rightarrow> ('z, go_error + unit) io" where
  "DeletePasswordCredential E h uid = execStmt E h (sqlDeletePasswordCredential uid)"

definition sqlGetPasswordCredential :: "uuid \<Rightarrow> password_credential stmt" where
  "sqlGetPasswordCredential uid now d =
     Inr (filter (\<lambda>c. pc_user_id c = uid) (credentials d), d)"

definition GetPasswordCredential :: "env \<Rightarrow> dbtx \<Rightarrow> uuid \<Rightarrow> ('z, go_error + password_credential) io" where
  "GetPasswordCredential E h uid = queryRow E h (sqlGetPasswordCredential uid)"

definition sqlGetUserByEmailAndIssuer :: "string \<Rightarrow> string \<Rightarrow> user stmt" where
  "sqlGetUserByEmailAndIssuer email issuer now d =
     Inr (filter (\<lambda>u. u_email u = email \<and> u_issuer u = issuer) (users d), d)"

definition GetUserByEmailAndIssuer ::
    "env \<Rightarrow> dbtx \<Rightarrow> string \<Rightarrow> string \<Rightarrow> ('z, go_error + user) io" where
  "GetUserByEmailAndIssuer E h email issuer = queryRow E h (sqlGetUserByEmailAndIssuer email issuer)"

definition sqlGetUserByID :: "uuid \<Rightarrow> user stmt" where
  "sqlGetUserByID uid now d = Inr (filter (\<lambda>u. u_id u = uid) (users d), d)"

definition GetUserByID :: "env \<Rightarrow> dbtx \<Rightarrow> uuid \<Rightarrow> ('z, go_error + user) io" where
  "GetUserByID E h uid = queryRow E h (sqlGetUserByID uid)"

definition sqlInsertAuthToken :: "uuid \<Rightarrow> string \<Rightarrow> string \<Rightarrow> int \<Rightarrow> unit stmt" where
  "sqlInsertAuthToken uid h ty expires now d =
     (if ty \<notin> set tokenTypes then Inl (PgError ''23514'')
      else if \<not> userExists d uid then Inl (PgError ''23503'')
      else Inr ([], d\<lparr>tokens := tokens d @
             [\<lparr>at_user_id = uid, at_token_hash = h, at_token_type = ty, at_expires_at = expires,
               at_consumed_at = None, at_created_at = now\<rparr>]\<rparr>))"

definition InsertAuthToken ::
    "env \<Rightarrow> dbtx \<Rightarrow> uuid \<Rightarrow> string \<Rightarrow> string \<Rightarrow> int \<Rightarrow> ('z, go_error + unit) io" where
  "InsertAuthToken E h uid th ty expires = execStmt E h (sqlInsertAuthToken uid th ty expires)"

definition sqlInvalidateUserTokens :: "uuid \<Rightarrow> string \<Rightarrow> unit stmt" where
  "sqlInvalidateUserTokens uid ty now d =
     Inr ([], d\<lparr>tokens := map (\<lambda>t. if at_user_id t = uid \<and> at_token_type t = ty \<and> at_consumed_at t = None
                                    then t\<lparr>at_consumed_at := Some now\<rparr> else t) (tokens d)\<rparr>)"

definition InvalidateUserTokens :: "env \<Rightarrow> dbtx \<Rightarrow> uuid \<Rightarrow> string \<Rightarrow> ('z, go_error + unit) io" where
  "InvalidateUserTokens E h uid ty = execStmt E h (sqlInvalidateUserTokens uid ty)"

definition sqlRecordLoginAttempt :: "uuid \<Rightarrow> string option \<Rightarrow> bool \<Rightarrow> unit stmt" where
  "sqlRecordLoginAttempt uid ip success now d =
     (if \<not> userExists d uid then Inl (PgError ''23503'')
      else Inr ([], d\<lparr>attempts := attempts d @
             [\<lparr>la_user_id = uid, la_attempted_at = now, la_ip_address = ip, la_success = success\<rparr>]\<rparr>))"

definition RecordLoginAttempt ::
    "env \<Rightarrow> dbtx \<Rightarrow> uuid \<Rightarrow> string option \<Rightarrow> bool \<Rightarrow> ('z, go_error + unit) io" where
  "RecordLoginAttempt E h uid ip success = execStmt E h (sqlRecordLoginAttempt uid ip success)"

definition sqlUpdateEmailVerified :: "uuid \<Rightarrow> unit stmt" where
  "sqlUpdateEmailVerified uid now d =
     Inr ([], d\<lparr>users := map (\<lambda>u. if u_id u = uid then u\<lparr>u_email_verified := True, u_updated_at := now\<rparr>
                                   else u) (users d)\<rparr>)"

definition UpdateEmailVerified :: "env \<Rightarrow> dbtx \<Rightarrow> uuid \<Rightarrow> ('z, go_error + unit) io" where
  "UpdateEmailVerified E h uid = execStmt E h (sqlUpdateEmailVerified uid)"

definition sqlUpdateLastLoginAt :: "uuid \<Rightarrow> unit stmt" where
  "sqlUpdateLastLoginAt uid now d =
     Inr ([], d\<lparr>users := map (\<lambda>u. if u_id u = uid then u\<lparr>u_last_login_at := Some now, u_updated_at := now\<rparr>
                                   else u) (users d)\<rparr>)"

definition UpdateLastLoginAt :: "env \<Rightarrow> dbtx \<Rightarrow> uuid \<Rightarrow> ('z, go_error + unit) io" where
  "UpdateLastLoginAt E h uid = execStmt E h (sqlUpdateLastLoginAt uid)"

definition sqlUpdatePasswordHash :: "uuid \<Rightarrow> string \<Rightarrow> unit stmt" where
  "sqlUpdatePasswordHash uid hash now d =
     Inr ([], d\<lparr>credentials := map (\<lambda>c. if pc_user_id c = uid
                                         then c\<lparr>pc_password_hash := hash, pc_updated_at := now\<rparr> else c)
                              (credentials d)\<rparr>)"

definition UpdatePasswordHash :: "env \<Rightarrow> dbtx \<Rightarrow> uuid \<Rightarrow> string \<Rightarrow> ('z, go_error + unit) io" where
  "UpdatePasswordHash E h uid hash = execStmt E h (sqlUpdatePasswordHash uid hash)"

definition sqlUpsertPasswordCredential :: "uuid \<Rightarrow> string \<Rightarrow> string \<Rightarrow> unit stmt" where
  "sqlUpsertPasswordCredential uid hash alg now d =
     (if \<not> userExists d uid then Inl (PgError ''23503'')
      else Inr ([],
        if (\<exists>c\<in>set (credentials d). pc_user_id c = uid)
        then d\<lparr>credentials := map (\<lambda>c. if pc_user_id c = uid
                 then c\<lparr>pc_password_hash := hash, pc_hash_algorithm := alg, pc_updated_at := now\<rparr> else c)
                 (credentials d)\<rparr>
        else d\<lparr>credentials := credentials d @
               [\<lparr>pc_user_id = uid, pc_password_hash = hash, pc_hash_algorithm = alg,
                 pc_created_at = now, pc_updated_at = now\<rparr>]\<rparr>))"

definition UpsertPasswordCredential ::
    "env \<Rightarrow> dbtx \<Rightarrow> uuid \<Rightarrow> string \<Rightarrow> string \<Rightarrow> ('z, go_error + unit) io" where
  "UpsertPasswordCredential E h uid hash alg = execStmt E h (sqlUpsertPasswordCredential uid hash alg)"

lemmas sql_defs =
  sqlGetFirstTenant_def sqlGetMembershipByUserAndTenant_def sqlGetTenantByID_def
  sqlGetUserByIdentifier_def sqlInsertTenant_def sqlInsertUser_def sqlListMemberships_def
  sqlUpsertMembership_def sqlConsumeAuthToken_def sqlCountRecentFailedAttempts_def
  sqlDeletePasswordCredential_def sqlGetPasswordCredential_def sqlGetUserByEmailAndIssuer_def
  sqlGetUserByID_def sqlInsertAuthToken_def sqlInvalidateUserTokens_def sqlRecordLoginAttempt_def
  sqlUpdateEmailVerified_def sqlUpdateLastLoginAt_def sqlUpdatePasswordHash_def
  sqlUpsertPasswordCredential_def

lemmas query_defs =
  GetFirstTenant_def GetMembershipByUserAndTenant_def GetTenantByID_def GetUserByIdentifier_def
  InsertTenant_def InsertUser_def ListMembershipRows_def UpsertMembership_def ConsumeAuthToken_def
  CountRecentFailedAttempts_def DeletePasswordCredential_def GetPasswordCredential_def
  GetUserByEmailAndIssuer_def GetUserByID_def InsertAuthToken_def InvalidateUserTokens_def
  RecordLoginAttempt_def UpdateEmailVerified_def UpdateLastLoginAt_def UpdatePasswordHash_def
  UpsertPasswordCredential_def

end
