(* ===== verification/Schema.thy ===== *)
theory Schema
  imports Queries
begin

text \<open>
  What the database guarantees for every caller: the constraints of the migrations as one
  invariant \<open>db_ok\<close> that every statement keeps, and the lifting of such statement invariants
  to effectful code. An invariant of the tables is an invariant of the committed tables and of
  the open transaction's copy (\<open>inv\<close>), whatever the fault pattern; code that runs on a
  transaction leaves the committed tables alone until it commits.
\<close>

named_theorems preserves_rules \<open>statements that keep an invariant of the tables\<close>
named_theorems inv_rules \<open>actions that keep an invariant of the tables\<close>
named_theorems tx_rules \<open>actions that leave the committed tables alone\<close>
named_theorems extra_rules \<open>actions that leave the caller's own state alone\<close>

section \<open>The schema invariant\<close>

definition users_ok :: "user list \<Rightarrow> bool" where
  "users_ok us \<longleftrightarrow>
     distinct (map u_id us) \<and> distinct (map (\<lambda>u. (u_issuer u, u_subject u)) us) \<and>
     distinct (map (\<lambda>u. (u_email u, u_issuer u)) (filter (\<lambda>u. u_email u \<noteq> '''') us))"

definition db_ok :: "database \<Rightarrow> bool" where
  "db_ok d \<longleftrightarrow>
     users_ok (users d) \<and>
     distinct (map t_tenant_id (tenants d)) \<and>
     distinct (map (\<lambda>m. (tm_user_id m, tm_tenant_id m)) (memberships d)) \<and>
     (\<forall>m\<in>set (memberships d). userExists d (tm_user_id m) \<and> tenantExists d (tm_tenant_id m) \<and>
        tm_role m \<in> set roleNames) \<and>
     distinct (map pc_user_id (credentials d)) \<and>
     (\<forall>c\<in>set (credentials d). userExists d (pc_user_id c)) \<and>
     (\<forall>a\<in>set (attempts d). userExists d (la_user_id a)) \<and>
     (\<forall>t\<in>set (tokens d). userExists d (at_user_id t) \<and> at_token_type t \<in> set tokenTypes)"

definition preserves :: "(database \<Rightarrow> bool) \<Rightarrow> 'r stmt \<Rightarrow> bool" where
  "preserves I st \<longleftrightarrow> (\<forall>now d rows d'. I d \<longrightarrow> st now d = Inr (rows, d') \<longrightarrow> I d')"

text \<open>A statement that only reads keeps every invariant.\<close>

definition readonly :: "'r stmt \<Rightarrow> bool" where
  "readonly st \<longleftrightarrow> (\<forall>now d rows d'. st now d = Inr (rows, d') \<longrightarrow> d' = d)"

lemma readonly_preserves: "readonly st \<Longrightarrow> preserves I st"
  by (auto simp: readonly_def preserves_def)

lemma readonly_selects:
  "readonly sqlGetFirstTenant"
  "readonly (sqlGetMembershipByUserAndTenant uid tid)"
  "readonly (sqlGetTenantByID tid)"
  "readonly (sqlGetUserByIdentifier issuer subject)"
  "readonly (sqlListMemberships uid)"
  "readonly (sqlCountRecentFailedAttempts uid since)"
  "readonly (sqlGetPasswordCredential uid)"
  "readonly (sqlGetUserByEmailAndIssuer email issuer)"
  "readonly (sqlGetUserByID uid)"
  by (simp_all add: readonly_def sql_defs)

lemmas preserves_selects [preserves_rules] = readonly_selects [THEN readonly_preserves]

lemma db_ok_empty: "db_ok empty_db"
  by (simp add: db_ok_def users_ok_def empty_db_def)

lemma db_ok_users_update:
  assumes "db_ok d"
    and "\<And>u. u_id (f u) = u_id u" "\<And>u. u_issuer (f u) = u_issuer u"
        "\<And>u. u_subject (f u) = u_subject u" "\<And>u. u_email (f u) = u_email u"
  shows "db_ok (d\<lparr>users := map f (users d)\<rparr>)"
proof -
  have "map u_id (map f us) = map u_id us"
    "map (\<lambda>u. (u_issuer u, u_subject u)) (map f us) = map (\<lambda>u. (u_issuer u, u_subject u)) us"
    "map (\<lambda>u. (u_email u, u_issuer u)) (filter (\<lambda>u. u_email u \<noteq> '''') (map f us)) =
       map (\<lambda>u. (u_email u, u_issuer u)) (filter (\<lambda>u. u_email u \<noteq> '''') us)" for us
    using assms(2-) by (induction us) auto
  then have "users_ok (map f (users d)) = users_ok (users d)"
    and "map u_id (map f (users d)) = map u_id (users d)"
    by (simp_all only: users_ok_def)
  with assms(1) show ?thesis
    by (simp add: db_ok_def userExists_def tenantExists_def del: set_map map_map)
qed

lemma users_ok_append:
  assumes "users_ok us"
    and "\<forall>v\<in>set us. u_id v \<noteq> u_id u \<and> \<not> (u_issuer v = u_issuer u \<and> u_subject v = u_subject u)
            \<and> \<not> (u_email u \<noteq> '''' \<and> u_email v = u_email u \<and> u_issuer v = u_issuer u)"
  shows "users_ok (us @ [u])"
  using assms by (auto simp: users_ok_def)

lemma db_ok_insert_user:
  assumes "db_ok d" and "users_ok (users d @ [u])"
  shows "db_ok (d\<lparr>users := users d @ [u]\<rparr>)"
  using assms by (auto simp: db_ok_def userExists_def tenantExists_def)

lemma preserves_insertUser: "preserves db_ok (sqlInsertUser p)"
proof -
  have "db_ok (d\<lparr>users := users d @ [u]\<rparr>)"
    if "db_ok d" "\<not> userConflict d p" "u_id u = iu_ID p" "u_issuer u = iu_Issuer p"
       "u_subject u = iu_IdentifierSubject p" "u_email u = iu_Email p" for d u
  proof (rule db_ok_insert_user [OF that(1) users_ok_append])
    show "users_ok (users d)" using that(1) by (simp add: db_ok_def)
  qed (use that in \<open>auto simp: userConflict_def\<close>)
  then show ?thesis
    by (auto simp: preserves_def sqlInsertUser_def Let_def split: if_splits)
qed

lemma preserves_insertTenant: "preserves db_ok (sqlInsertTenant tid name)"
  by (auto simp: preserves_def sqlInsertTenant_def db_ok_def userExists_def tenantExists_def
      split: if_splits)

lemma distinct_map_update:
  "(\<And>m. g (f m) = g m) \<Longrightarrow> distinct (map g (map f ms)) = distinct (map g ms)"
  by (induction ms) auto

lemma preserves_upsertMembership: "preserves db_ok (sqlUpsertMembership uid tid role)"
proof -
  let ?f = "\<lambda>m. if tm_user_id m = uid \<and> tm_tenant_id m = tid then m\<lparr>tm_role := role\<rparr> else m"
  have "distinct (map (\<lambda>m. (tm_user_id m, tm_tenant_id m)) (map ?f ms)) =
        distinct (map (\<lambda>m. (tm_user_id m, tm_tenant_id m)) ms)" for ms :: "tenant_membership list"
    by (rule distinct_map_update) simp
  then show ?thesis
    by (auto simp: preserves_def sqlUpsertMembership_def db_ok_def userExists_def tenantExists_def
        split: if_splits)
qed

lemma preserves_consume: "preserves db_ok (sqlConsumeAuthToken h ty)"
  by (auto simp: preserves_def sqlConsumeAuthToken_def db_ok_def userExists_def tenantExists_def)

lemma preserves_invalidate: "preserves db_ok (sqlInvalidateUserTokens uid ty)"
  by (auto simp: preserves_def sqlInvalidateUserTokens_def db_ok_def userExists_def tenantExists_def)

lemma preserves_deleteCredential: "preserves db_ok (sqlDeletePasswordCredential uid)"
  by (auto simp: preserves_def sqlDeletePasswordCredential_def db_ok_def userExists_def
      tenantExists_def distinct_map_filter)

lemma preserves_insertToken: "preserves db_ok (sqlInsertAuthToken uid h ty ex)"
  by (auto simp: preserves_def sqlInsertAuthToken_def db_ok_def userExists_def tenantExists_def
      split: if_splits)

lemma preserves_recordAttempt: "preserves db_ok (sqlRecordLoginAttempt uid ip ok)"
  by (auto simp: preserves_def sqlRecordLoginAttempt_def db_ok_def userExists_def tenantExists_def
      split: if_splits)

lemma preserves_updateUsers:
  "preserves db_ok (sqlUpdateEmailVerified uid)" "preserves db_ok (sqlUpdateLastLoginAt uid)"
  by (auto simp: preserves_def sqlUpdateEmailVerified_def sqlUpdateLastLoginAt_def
      intro!: db_ok_users_update)

lemma db_ok_credentials_update:
  assumes "db_ok d" and "\<And>c. pc_user_id (f c) = pc_user_id c"
  shows "db_ok (d\<lparr>credentials := map f (credentials d)\<rparr>)"
proof -
  have "distinct (map pc_user_id (map f (credentials d))) = distinct (map pc_user_id (credentials d))"
    by (rule distinct_map_update) (rule assms(2))
  with assms show ?thesis
    by (auto simp: db_ok_def userExists_def tenantExists_def)
qed

lemma preserves_updateHash: "preserves db_ok (sqlUpdatePasswordHash uid hash)"
  by (auto simp: preserves_def sqlUpdatePasswordHash_def intro!: db_ok_credentials_update)

lemma preserves_upsertCredential:
  "preserves db_ok (sqlUpsertPasswordCredential uid hash alg)"
proof -
  have "db_ok (d\<lparr>credentials := credentials d @ [c]\<rparr>)"
    if "db_ok d" "userExists d (pc_user_id c)" "\<forall>c'\<in>set (credentials d). pc_user_id c' \<noteq> pc_user_id c"
    for d c
    using that by (auto simp: db_ok_def userExists_def tenantExists_def)
  then show ?thesis
    by (auto simp: preserves_def sqlUpsertPasswordCredential_def intro!: db_ok_credentials_update
        split: if_splits)
qed

section \<open>Invariants of all statements\<close>

text \<open>An invariant that every statement which writes keeps; the schema is one.\<close>

definition stmt_inv :: "(database \<Rightarrow> bool) \<Rightarrow> bool" where
  "stmt_inv I \<longleftrightarrow>
     (\<forall>p. preserves I (sqlInsertUser p)) \<and>
     (\<forall>t n. preserves I (sqlInsertTenant t n)) \<and>
     (\<forall>u t r. preserves I (sqlUpsertMembership u t r)) \<and>
     (\<forall>h ty. preserves I (sqlConsumeAuthToken h ty)) \<and>
     (\<forall>u ty. preserves I (sqlInvalidateUserTokens u ty)) \<and>
     (\<forall>u. preserves I (sqlDeletePasswordCredential u)) \<and>
     (\<forall>u h ty ex. preserves I (sqlInsertAuthToken u h ty ex)) \<and>
     (\<forall>u ip ok. preserves I (sqlRecordLoginAttempt u ip ok)) \<and>
     (\<forall>u. preserves I (sqlUpdateEmailVerified u)) \<and>
     (\<forall>u. preserves I (sqlUpdateLastLoginAt u)) \<and>
     (\<forall>u h. preserves I (sqlUpdatePasswordHash u h)) \<and>
     (\<forall>u h a. preserves I (sqlUpsertPasswordCredential u h a))"

lemma stmt_inv_db_ok [preserves_rules]: "stmt_inv db_ok"
  using preserves_insertUser preserves_insertTenant preserves_upsertMembership preserves_consume
    preserves_invalidate preserves_deleteCredential preserves_insertToken preserves_recordAttempt
    preserves_updateUsers preserves_updateHash preserves_upsertCredential
  by (simp add: stmt_inv_def)

lemma stmt_inv_statements [preserves_rules]:
  "stmt_inv I \<Longrightarrow> preserves I (sqlInsertUser p)"
  "stmt_inv I \<Longrightarrow> preserves I (sqlInsertTenant t n)"
  "stmt_inv I \<Longrightarrow> preserves I (sqlUpsertMembership u t r)"
  "stmt_inv I \<Longrightarrow> preserves I (sqlConsumeAuthToken h ty)"
  "stmt_inv I \<Longrightarrow> preserves I (sqlInvalidateUserTokens u ty)"
  "stmt_inv I \<Longrightarrow> preserves I (sqlDeletePasswordCredential u)"
  "stmt_inv I \<Longrightarrow> preserves I (sqlInsertAuthToken u h ty ex)"
  "stmt_inv I \<Longrightarrow> preserves I (sqlRecordLoginAttempt u ip ok)"
  "stmt_inv I \<Longrightarrow> preserves I (sqlUpdateEmailVerified u)"
  "stmt_inv I \<Longrightarrow> preserves I (sqlUpdateLastLoginAt u)"
  "stmt_inv I \<Longrightarrow> preserves I (sqlUpdatePasswordHash u h)"
  "stmt_inv I \<Longrightarrow> preserves I (sqlUpsertPasswordCredential u h a)"
  by (simp_all add: stmt_inv_def)

section \<open>Lifting to actions\<close>

definition inv :: "(database \<Rightarrow> bool) \<Rightarrow> 'z world_scheme \<Rightarrow> bool" where
  "inv I w \<longleftrightarrow> I (w_db w) \<and> (case w_tx w of None \<Rightarrow> True | Some x \<Rightarrow> I (tx_db x))"

lemma triple_nextTick: "(\<And>w. P w \<Longrightarrow> Q (w_tick w) (w\<lparr>w_tick := Suc (w_tick w)\<rparr>)) \<Longrightarrow> triple P nextTick Q"
  by (auto simp: triple_def nextTick_def)

lemma inv_tick [simp]: "inv I (w\<lparr>w_tick := n\<rparr>) = inv I w"
  by (simp add: inv_def)

lemma inv_mail [simp]: "inv I (w\<lparr>w_mail := n\<rparr>) = inv I w"
  by (simp add: inv_def)

lemma inv_return [inv_rules]: "triple (inv I) (State_Monad.return x) (\<lambda>_. inv I)"
  by (rule triple_return)

lemma inv_nextTick [inv_rules]: "triple (inv I) nextTick (\<lambda>_. inv I)"
  by (rule triple_nextTick) simp

lemma inv_timeNow [inv_rules]: "triple (inv I) (timeNow E) (\<lambda>_. inv I)"
  unfolding timeNow_def by (intro triple_bind_inv inv_rules)

lemma inv_randRead [inv_rules]: "triple (inv I) (randRead E n) (\<lambda>_. inv I)"
  unfolding randRead_def by (intro triple_bind_inv inv_rules)

lemma inv_newUUID [inv_rules]: "triple (inv I) (newUUID E) (\<lambda>_. inv I)"
  unfolding newUUID_def by (intro triple_bind_inv triple_rules inv_rules)

lemma inv_sendMail [inv_rules]: "triple (inv I) (sendMail E m) (\<lambda>_. inv I)"
  unfolding sendMail_def by (intro triple_bind_inv triple_update inv_rules) simp

lemma inv_runStmt: "preserves I st \<Longrightarrow> triple (inv I) (runStmt E h st) (\<lambda>_. inv I)"
  by (rule tripleI)
    (auto simp: runStmt_def nextTick_def inv_def preserves_def abortTx_def
      split: dbtx.splits option.splits sum.splits prod.splits if_splits)

lemma inv_queryRow [inv_rules]: "preserves I st \<Longrightarrow> triple (inv I) (queryRow E h st) (\<lambda>_. inv I)"
  unfolding queryRow_def by (intro triple_bind_inv inv_runStmt inv_rules)

lemma inv_queryRows [inv_rules]: "preserves I st \<Longrightarrow> triple (inv I) (queryRows E h st) (\<lambda>_. inv I)"
  unfolding queryRows_def by (rule inv_runStmt)

lemma inv_execStmt [inv_rules]: "preserves I st \<Longrightarrow> triple (inv I) (execStmt E h st) (\<lambda>_. inv I)"
  unfolding execStmt_def by (intro triple_bind_inv inv_runStmt inv_rules)

lemma inv_beginTx [inv_rules]: "triple (inv I) (beginTx E) (\<lambda>_. inv I)"
  by (rule tripleI) (auto simp: beginTx_def nextTick_def inv_def split: option.splits)

lemma inv_commitTx [inv_rules]: "triple (inv I) (commitTx E) (\<lambda>_. inv I)"
  by (rule tripleI)
    (auto simp: commitTx_def nextTick_def inv_def split: option.splits if_splits)

lemma inv_rollbackTx [inv_rules]: "triple (inv I) rollbackTx (\<lambda>_. inv I)"
  by (rule tripleI) (auto simp: rollbackTx_def inv_def split: option.splits)

lemma inv_deferRollback [inv_rules]:
  "triple (inv I) m (\<lambda>_. inv I) \<Longrightarrow> triple (inv I) (deferRollback m) (\<lambda>_. inv I)"
  unfolding deferRollback_def by (intro triple_bind_inv inv_rules)

text \<open>The queries keep what their statements keep.\<close>

lemmas query_inv = query_defs inv_queryRow inv_queryRows inv_execStmt

section \<open>Committed tables during a transaction\<close>

text \<open>The committed tables are \<open>d\<close>, and a transaction that is open began at \<open>n\<close>.\<close>

definition committed :: "database \<Rightarrow> int \<Rightarrow> 'z world_scheme \<Rightarrow> bool" where
  "committed d n w \<longleftrightarrow> w_db w = d \<and> (\<forall>x. w_tx w = Some x \<longrightarrow> tx_now x = n)"

lemma committed_return [tx_rules]: "triple (committed d n) (State_Monad.return x) (\<lambda>_. committed d n)"
  by (rule triple_return)

lemma committed_nextTick [tx_rules]: "triple (committed d n) nextTick (\<lambda>_. committed d n)"
  by (rule triple_nextTick) (simp add: committed_def)

lemma committed_timeNow [tx_rules]: "triple (committed d n) (timeNow E) (\<lambda>_. committed d n)"
  unfolding timeNow_def by (intro triple_bind_inv tx_rules)

lemma committed_randRead [tx_rules]: "triple (committed d n) (randRead E k) (\<lambda>_. committed d n)"
  unfolding randRead_def by (intro triple_bind_inv tx_rules)

lemma committed_newUUID [tx_rules]: "triple (committed d n) (newUUID E) (\<lambda>_. committed d n)"
  unfolding newUUID_def by (intro triple_bind_inv triple_rules tx_rules)

lemma committed_sendMail [tx_rules]: "triple (committed d n) (sendMail E m) (\<lambda>_. committed d n)"
  unfolding sendMail_def by (intro triple_bind_inv triple_update tx_rules) (simp add: committed_def)

lemma committed_runStmt: "triple (committed d n) (runStmt E OnTx st) (\<lambda>_. committed d n)"
  by (rule tripleI)
    (auto simp: runStmt_def nextTick_def committed_def abortTx_def
      split: option.splits sum.splits prod.splits if_splits)

lemma committed_queryRow [tx_rules]: "triple (committed d n) (queryRow E OnTx st) (\<lambda>_. committed d n)"
  unfolding queryRow_def by (intro triple_bind_inv committed_runStmt tx_rules)

lemma committed_queryRows [tx_rules]: "triple (committed d n) (queryRows E OnTx st) (\<lambda>_. committed d n)"
  unfolding queryRows_def by (rule committed_runStmt)

lemma committed_execStmt [tx_rules]: "triple (committed d n) (execStmt E OnTx st) (\<lambda>_. committed d n)"
  unfolding execStmt_def by (intro triple_bind_inv committed_runStmt tx_rules)

lemma committed_rollbackTx [tx_rules]: "triple (committed d n) rollbackTx (\<lambda>_. committed d n)"
  by (rule tripleI) (auto simp: rollbackTx_def committed_def)

lemma committed_deferRollback [tx_rules]:
  "triple P m (\<lambda>r w. Q r (w\<lparr>w_tx := None\<rparr>)) \<Longrightarrow> triple P (deferRollback m) Q"
  unfolding deferRollback_def rollbackTx_def
  by (rule triple_bind, assumption) (intro triple_bind triple_update triple_return; assumption?)

section \<open>What a handle sees\<close>

text \<open>
  \<open>on h P\<close>: the tables that queries on \<open>h\<close> see satisfy \<open>P\<close>. On the pool these are the
  committed tables. On a transaction they are its own copy, unless it is already aborted:
  then nothing it sees matters any more, since it cannot commit.
\<close>

definition on :: "dbtx \<Rightarrow> (database \<Rightarrow> bool) \<Rightarrow> 'z world_scheme \<Rightarrow> bool" where
  "on h P w \<longleftrightarrow>
     (case h of
        OnPool \<Rightarrow> P (w_db w)
      | OnTx \<Rightarrow> (case w_tx w of None \<Rightarrow> False | Some x \<Rightarrow> tx_aborted x \<or> P (tx_db x)))"

lemma on_pool [simp]: "on OnPool P w = P (w_db w)"
  by (simp add: on_def)

lemma on_mono: "on h P w \<Longrightarrow> (\<And>d. P d \<Longrightarrow> Q d) \<Longrightarrow> on h Q w"
  by (auto simp: on_def split: dbtx.splits option.splits)

lemma on_frame:
  assumes "\<And>w r w'. run_state m w = (r, w') \<Longrightarrow> w_db w' = w_db w \<and> w_tx w' = w_tx w"
  shows "triple (on h P) m (\<lambda>_. on h P)"
  by (rule tripleI) (drule assms, simp add: on_def split: dbtx.splits)

lemma on_return: "(\<And>d. P d \<Longrightarrow> Q x d) \<Longrightarrow> triple (on h P) (State_Monad.return x) (\<lambda>r. on h (Q r))"
  by (rule triple_return) (auto intro: on_mono)

lemma on_weaken:
  "triple (on h P) m (\<lambda>r. on h (Q r)) \<Longrightarrow> (\<And>d. P' d \<Longrightarrow> P d) \<Longrightarrow> (\<And>r d. Q r d \<Longrightarrow> Q' r d) \<Longrightarrow>
     triple (on h P') m (\<lambda>r. on h (Q' r))"
  by (erule triple_weaken) (auto intro: on_mono)

lemma on_runStmt:
  assumes "\<And>d f. P d \<Longrightarrow> Q (Inl (faultError f)) d"
    and "\<And>d now e. P d \<Longrightarrow> st now d = Inl e \<Longrightarrow> Q (Inl e) d"
    and "\<And>d now xs d'. P d \<Longrightarrow> st now d = Inr (xs, d') \<Longrightarrow> Q (Inr xs) d'"
  shows "triple (on h P) (runStmt E h st) (\<lambda>r. on h (Q r))"
  using assms
  by (intro tripleI)
    (auto simp: runStmt_def nextTick_def on_def abortTx_def
      split: dbtx.splits option.splits sum.splits prod.splits if_splits)

text \<open>
  Rules for the three kinds of queries. A failed round trip gives one of the fault errors and
  changes nothing that matters.
\<close>

lemma on_row:
  assumes "\<And>d f. P d \<Longrightarrow> Q (Inl (faultError f)) d"
    and "\<And>d now e. P d \<Longrightarrow> st now d = Inl e \<Longrightarrow> Q (Inl e) d"
    and "\<And>d now d'. P d \<Longrightarrow> st now d = Inr ([], d') \<Longrightarrow> Q (Inl ErrNoRows) d'"
    and "\<And>d now x xs d'. P d \<Longrightarrow> st now d = Inr (x # xs, d') \<Longrightarrow> Q (Inr x) d'"
  shows "triple (on h P) (queryRow E h st) (\<lambda>r. on h (Q r))"
proof -
  let ?q = "\<lambda>r. case r of Inl e \<Rightarrow> Inl e | Inr [] \<Rightarrow> Inl ErrNoRows | Inr (x # _) \<Rightarrow> Inr x"
  have "triple (on h P) (runStmt E h st) (\<lambda>r. on h (Q (?q r)))"
    using assms by (intro on_runStmt) (auto split: list.splits)
  then show ?thesis
    unfolding queryRow_def by (rule triple_bind) (rule triple_return)
qed

lemma on_rows:
  assumes "\<And>d f. P d \<Longrightarrow> Q (Inl (faultError f)) d"
    and "\<And>d now e. P d \<Longrightarrow> st now d = Inl e \<Longrightarrow> Q (Inl e) d"
    and "\<And>d now xs d'. P d \<Longrightarrow> st now d = Inr (xs, d') \<Longrightarrow> Q (Inr xs) d'"
  shows "triple (on h P) (queryRows E h st) (\<lambda>r. on h (Q r))"
  unfolding queryRows_def using assms by (rule on_runStmt)

lemma on_exec:
  assumes "\<And>d f. P d \<Longrightarrow> Q (Inl (faultError f)) d"
    and "\<And>d now e. P d \<Longrightarrow> st now d = Inl e \<Longrightarrow> Q (Inl e) d"
    and "\<And>d now xs d'. P d \<Longrightarrow> st now d = Inr (xs, d') \<Longrightarrow> Q (Inr ()) d'"
  shows "triple (on h P) (execStmt E h st) (\<lambda>r. on h (Q r))"
proof -
  let ?q = "\<lambda>r. case r of Inl e \<Rightarrow> Inl e | Inr _ \<Rightarrow> Inr ()"
  have "triple (on h P) (runStmt E h st) (\<lambda>r. on h (Q (?q r)))"
    using assms by (intro on_runStmt) auto
  then show ?thesis
    unfolding execStmt_def by (rule triple_bind) (rule triple_return)
qed

text \<open>Begin and commit connect the committed tables with the transaction's.\<close>

definition intx :: "database \<Rightarrow> int \<Rightarrow> (database \<Rightarrow> bool) \<Rightarrow> 'z world_scheme \<Rightarrow> bool" where
  "intx d0 n P w \<longleftrightarrow> committed d0 n w \<and> on OnTx P w"

lemma intx_begin:
  "triple (\<lambda>w. w_db w = d0) (beginTx E)
     (\<lambda>r w. case r of Inl _ \<Rightarrow> w_db w = d0 | Inr _ \<Rightarrow> \<exists>n. intx d0 n (\<lambda>d. d = d0) w)"
  by (rule tripleI)
    (auto simp: beginTx_def nextTick_def committed_def intx_def on_def split: option.splits)

lemma triple_ex:
  assumes "\<And>n. triple (P n) m Q"
  shows "triple (\<lambda>w. \<exists>n. P n w) m Q"
  by (rule tripleI, elim exE, rule tripleD [OF assms])

lemma intx_commit:
  "triple (intx d0 n P) (commitTx E)
     (\<lambda>r w. case r of Inl _ \<Rightarrow> w_db w = d0 | Inr _ \<Rightarrow> P (w_db w))"
  by (rule tripleI)
    (auto simp: commitTx_def nextTick_def committed_def intx_def on_def
      split: option.splits if_splits)

lemma intx_step:
  "triple (committed d0 n) m (\<lambda>_. committed d0 n) \<Longrightarrow> triple (on OnTx P) m (\<lambda>r. on OnTx (Q r)) \<Longrightarrow>
     triple (intx d0 n P) m (\<lambda>r. intx d0 n (Q r))"
  unfolding intx_def by (rule triple_conj)

lemma intx_committed: "intx d0 n P w \<Longrightarrow> committed d0 n w"
  by (simp add: intx_def)

text \<open>On a transaction only the results of successful statements matter.\<close>

lemma intx_runStmt:
  assumes "\<And>d xs d'. P d \<Longrightarrow> st n d = Inr (xs, d') \<Longrightarrow> Q (Inr xs) d'"
  shows "triple (intx d0 n P) (runStmt E OnTx st) (\<lambda>r. intx d0 n (Q r))"
  using assms
  by (intro tripleI)
    (auto simp: runStmt_def nextTick_def intx_def committed_def on_def abortTx_def
      split: option.splits sum.splits prod.splits if_splits)

lemma intx_row:
  assumes "\<And>d d'. P d \<Longrightarrow> st n d = Inr ([], d') \<Longrightarrow> Q (Inl ErrNoRows) d'"
    and "\<And>d x xs d'. P d \<Longrightarrow> st n d = Inr (x # xs, d') \<Longrightarrow> Q (Inr x) d'"
  shows "triple (intx d0 n P) (queryRow E OnTx st) (\<lambda>r. intx d0 n (Q r))"
proof -
  let ?q = "\<lambda>r. case r of Inl e \<Rightarrow> Inl e | Inr [] \<Rightarrow> Inl ErrNoRows | Inr (x # _) \<Rightarrow> Inr x"
  have "triple (intx d0 n P) (runStmt E OnTx st) (\<lambda>r. intx d0 n (Q (?q r)))"
    using assms by (intro intx_runStmt) (auto split: list.splits)
  then show ?thesis
    unfolding queryRow_def by (rule triple_bind) (rule triple_return)
qed

lemma intx_exec:
  assumes "\<And>d xs d'. P d \<Longrightarrow> st n d = Inr (xs, d') \<Longrightarrow> Q (Inr ()) d'"
  shows "triple (intx d0 n P) (execStmt E OnTx st) (\<lambda>r. intx d0 n (Q r))"
proof -
  let ?q = "\<lambda>r. case r of Inl e \<Rightarrow> Inl e | Inr _ \<Rightarrow> Inr ()"
  have "triple (intx d0 n P) (runStmt E OnTx st) (\<lambda>r. intx d0 n (Q (?q r)))"
    using assms by (intro intx_runStmt) auto
  then show ?thesis
    unfolding execStmt_def by (rule triple_bind) (rule triple_return)
qed

lemma intx_mono: "intx d0 n P w \<Longrightarrow> (\<And>d. P d \<Longrightarrow> Q d) \<Longrightarrow> intx d0 n Q w"
  by (auto simp: intx_def intro: on_mono)

lemma intx_return: "(\<And>w. w_db w = d0 \<Longrightarrow> Q x w) \<Longrightarrow> triple (intx d0 n P) (State_Monad.return x) Q"
  by (rule triple_return) (simp add: intx_def committed_def)

lemma faultError_not_NoRows [simp]: "faultError f \<noteq> ErrNoRows"
  by (cases f) auto

section \<open>The caller's own state\<close>

text \<open>No primitive touches what a caller adds to the world (a handler's session).\<close>

definition extra :: "'z \<Rightarrow> 'z world_scheme \<Rightarrow> bool" where
  "extra x w \<longleftrightarrow> world.more w = x"

lemma extra_return [extra_rules]: "triple (extra x) (State_Monad.return v) (\<lambda>_. extra x)"
  by (rule triple_return)

lemma extra_nextTick [extra_rules]: "triple (extra x) nextTick (\<lambda>_. extra x)"
  by (rule triple_nextTick) (simp add: extra_def)

lemma extra_timeNow [extra_rules]: "triple (extra x) (timeNow E) (\<lambda>_. extra x)"
  unfolding timeNow_def by (intro triple_bind_inv extra_rules)

lemma extra_randRead [extra_rules]: "triple (extra x) (randRead E n) (\<lambda>_. extra x)"
  unfolding randRead_def by (intro triple_bind_inv extra_rules)

lemma extra_newUUID [extra_rules]: "triple (extra x) (newUUID E) (\<lambda>_. extra x)"
  unfolding newUUID_def by (intro triple_bind_inv triple_rules extra_rules)

lemma extra_sendMail [extra_rules]: "triple (extra x) (sendMail E m) (\<lambda>_. extra x)"
  unfolding sendMail_def by (intro triple_bind_inv triple_update extra_rules) (simp add: extra_def)

lemma extra_runStmt: "triple (extra x) (runStmt E h st) (\<lambda>_. extra x)"
  by (rule tripleI)
    (auto simp: runStmt_def nextTick_def extra_def abortTx_def
      split: dbtx.splits option.splits sum.splits prod.splits if_splits)

lemma extra_query [extra_rules]:
  "triple (extra x) (queryRow E h st) (\<lambda>_. extra x)"
  "triple (extra x) (queryRows E h st) (\<lambda>_. extra x)"
  "triple (extra x) (execStmt E h st) (\<lambda>_. extra x)"
  unfolding queryRow_def queryRows_def execStmt_def
  by (intro triple_bind_inv extra_runStmt extra_rules)+

lemma extra_tx [extra_rules]:
  "triple (extra x) (beginTx E) (\<lambda>_. extra x)"
  "triple (extra x) (commitTx E) (\<lambda>_. extra x)"
  "triple (extra x) rollbackTx (\<lambda>_. extra x)"
  by (rule tripleI; auto simp: beginTx_def commitTx_def rollbackTx_def nextTick_def extra_def
      split: option.splits if_splits)+

lemma extra_deferRollback [extra_rules]:
  "triple (extra x) m (\<lambda>_. extra x) \<Longrightarrow> triple (extra x) (deferRollback m) (\<lambda>_. extra x)"
  unfolding deferRollback_def by (intro triple_bind_inv extra_rules)

section \<open>Symbolic execution\<close>

text \<open>How the primitives step, for proofs that follow the code.\<close>

definition tickw :: "'z world_scheme \<Rightarrow> 'z world_scheme" where
  "tickw w = w\<lparr>w_tick := Suc (w_tick w)\<rparr>"

lemma tickw_simps [simp]:
  "w_db (tickw w) = w_db w" "w_tx (tickw w) = w_tx w" "w_mail (tickw w) = w_mail w"
  "w_tick (tickw w) = Suc (w_tick w)" "world.more (tickw w) = world.more w"
  by (simp_all add: tickw_def)

lemma inv_tickw [simp]: "inv I (tickw w) = inv I w"
  by (simp add: inv_def)

lemma run_nextTick [simp]: "run_state nextTick w = (w_tick w, tickw w)"
  by (simp add: nextTick_def tickw_def)

lemma run_timeNow [simp]: "run_state (timeNow E) w = (app_now E (w_tick w), tickw w)"
  by (simp add: timeNow_def)

lemma run_randRead [simp]: "run_state (randRead E n) w = (rand_read E (w_tick w) n, tickw w)"
  by (simp add: randRead_def)

lemma run_rollbackTx [simp]: "run_state rollbackTx w = ((), w\<lparr>w_tx := None\<rparr>)"
  by (simp add: rollbackTx_def)

lemma run_sendMail [simp]:
  "run_state (sendMail E m) w =
     (mail_result E (w_tick w), (tickw w)\<lparr>w_mail := w_mail w @ [m]\<rparr>)"
  by (simp add: sendMail_def tickw_def)

lemma run_deferRollback [simp]:
  "run_state (deferRollback m) w = (case run_state m w of (r, w') \<Rightarrow> (r, w'\<lparr>w_tx := None\<rparr>))"
  by (simp add: deferRollback_def split: prod.splits)

lemma run_runStmt_pool [simp]:
  "run_state (runStmt E OnPool st) w =
     (case db_fault E (w_tick w) of
        Some f \<Rightarrow> (Inl (faultError f), tickw w)
      | None \<Rightarrow> (case st (db_now E (w_tick w)) (w_db w) of
                   Inl e \<Rightarrow> (Inl e, tickw w)
                 | Inr (rows, d) \<Rightarrow> (Inr rows, (tickw w)\<lparr>w_db := d\<rparr>)))"
  by (simp add: runStmt_def split: option.splits sum.splits prod.splits)

lemma run_runStmt_tx [simp]:
  "w_tx w = Some x \<Longrightarrow> \<not> tx_aborted x \<Longrightarrow>
   run_state (runStmt E OnTx st) w =
     (case db_fault E (w_tick w) of
        Some f \<Rightarrow> (Inl (faultError f), abortTx (tickw w))
      | None \<Rightarrow> (case st (tx_now x) (tx_db x) of
                   Inl e \<Rightarrow> (Inl e, abortTx (tickw w))
                 | Inr (rows, d) \<Rightarrow> (Inr rows, (tickw w)\<lparr>w_tx := Some (x\<lparr>tx_db := d\<rparr>)\<rparr>)))"
  by (simp add: runStmt_def split: option.splits sum.splits prod.splits)

lemma run_beginTx [simp]:
  "run_state (beginTx E) w =
     (case db_fault E (w_tick w) of
        Some f \<Rightarrow> (Inl (faultError f), tickw w)
      | None \<Rightarrow> (Inr (), (tickw w)\<lparr>w_tx := Some \<lparr>tx_db = w_db w, tx_now = db_now E (w_tick w),
                                                 tx_aborted = False\<rparr>\<rparr>))"
  by (simp add: beginTx_def split: option.splits)

lemma run_commitTx [simp]:
  "w_tx w = Some x \<Longrightarrow> \<not> tx_aborted x \<Longrightarrow>
   run_state (commitTx E) w =
     (case db_fault E (w_tick w) of
        Some f \<Rightarrow> (Inl (faultError f), (tickw w)\<lparr>w_tx := None\<rparr>)
      | None \<Rightarrow> (Inr (), (tickw w)\<lparr>w_tx := None, w_db := tx_db x\<rparr>))"
  by (simp add: commitTx_def split: option.splits)

lemma run_newUUID:
  "run_state (newUUID E) w =
     (case uuid_v7 E (w_tick w) of Inr u \<Rightarrow> (u, tickw w)
      | Inl _ \<Rightarrow> (uuid_new E (Suc (w_tick w)), tickw (tickw w)))"
  by (simp add: newUUID_def split: sum.splits)

lemma on_env:
  "triple (on h P) (newUUID E) (\<lambda>_. on h P)" "triple (on h P) (timeNow E) (\<lambda>_. on h P)"
  "triple (on h P) (randRead E n) (\<lambda>_. on h P)" "triple (on h P) (sendMail E m) (\<lambda>_. on h P)"
  by (rule on_frame, auto simp: run_newUUID split: sum.splits)+

lemma run_query_pool [simp]:
  "run_state (queryRow E OnPool st) w =
     (case run_state (runStmt E OnPool st) w of
        (r, w') \<Rightarrow> (case r of Inl e \<Rightarrow> Inl e | Inr [] \<Rightarrow> Inl ErrNoRows | Inr (x # _) \<Rightarrow> Inr x, w'))"
  "run_state (execStmt E OnPool st) w =
     (case run_state (runStmt E OnPool st) w of
        (r, w') \<Rightarrow> (case r of Inl e \<Rightarrow> Inl e | Inr _ \<Rightarrow> Inr (), w'))"
  "run_state (queryRows E OnPool st) w = run_state (runStmt E OnPool st) w"
  by (simp_all add: queryRow_def execStmt_def queryRows_def split: prod.splits)

text \<open>An environment whose database never fails.\<close>

definition healthy :: "env \<Rightarrow> bool" where
  "healthy E \<longleftrightarrow> (\<forall>t. db_fault E t = None)"

lemma healthy_fault [simp]: "healthy E \<Longrightarrow> db_fault E t = None"
  by (simp add: healthy_def)

end
