(* ===== verification/IdentityStore.thy ===== *)
theory IdentityStore
  imports Schema AuthTypes Sample
begin

text \<open>
  \<open>auth/postgres_store.go\<close>: the PostgreSQL identity store, and the contract
  \<open>identity_store\<close> that the OIDC handler relies on, with the PostgreSQL store as its provider.
\<close>

section \<open>The store\<close>

record pg_identity_store =
  is_HasPool :: bool
  is_Queries :: dbtx
  is_DefaultTenantName :: string

definition identityWithTx :: "pg_identity_store \<Rightarrow> pg_identity_store" where
  "identityWithTx s = s\<lparr>is_Queries := OnTx\<rparr>"

definition NewPostgresIdentityStore :: "bool \<Rightarrow> string \<Rightarrow> pg_identity_store" where
  "NewPostgresIdentityStore hasPool defaultTenantName =
     \<lparr>is_HasPool = hasPool, is_Queries = OnPool,
      is_DefaultTenantName = orDefault defaultTenantName ''Default''\<rparr>"

definition toMembership :: "list_memberships_row \<Rightarrow> membership" where
  "toMembership row =
     \<lparr>mb_TenantID = lm_TenantID row, mb_TenantName = lm_TenantName row, mb_Role = lm_Role row\<rparr>"

definition ListMemberships ::
    "env \<Rightarrow> pg_identity_store \<Rightarrow> uuid \<Rightarrow> ('z, go_error + membership list) io" where
  "ListMemberships E s userID = do {
     rows \<leftarrow> ListMembershipRows E (is_Queries s) userID;
     State_Monad.return
       (case rows of
          Inl err \<Rightarrow> Inl (Wrapped ''failed to list memberships'' err)
        | Inr rs \<Rightarrow> Inr (map toMembership rs)) }"

definition GetTenantDisplay ::
    "env \<Rightarrow> pg_identity_store \<Rightarrow> uuid \<Rightarrow> ('z, go_error + tenant_display) io" where
  "GetTenantDisplay E s tenantID = do {
     row \<leftarrow> GetTenantByID E (is_Queries s) tenantID;
     State_Monad.return
       (case row of
          Inl err \<Rightarrow> Inl (Wrapped ''failed to get tenant'' err)
        | Inr r \<Rightarrow> Inr \<lparr>td_TenantID = tr_TenantID r, td_Name = tr_Name r\<rparr>) }"

definition firstTenantOrCreate :: "env \<Rightarrow> pg_identity_store \<Rightarrow> ('z, go_error + uuid) io" where
  "firstTenantOrCreate E s = do {
     tenantID \<leftarrow> GetFirstTenant E (is_Queries s);
     case tenantID of
       Inr tid \<Rightarrow> State_Monad.return (Inr tid)
     | Inl err \<Rightarrow>
         if \<not> errorsIs err ErrNoRows
         then State_Monad.return (Inl (Wrapped ''failed to query tenant'' err))
         else do {
           newTenantID \<leftarrow> newUUID E;
           ins \<leftarrow> InsertTenant E (is_Queries s) newTenantID (is_DefaultTenantName s);
           State_Monad.return
             (case ins of
                Inl e \<Rightarrow> Inl (Wrapped ''failed to insert tenant'' e)
              | Inr _ \<Rightarrow> Inr newTenantID) } }"

definition createMembership ::
    "env \<Rightarrow> pg_identity_store \<Rightarrow> uuid \<Rightarrow> uuid \<Rightarrow> role \<Rightarrow> ('z, go_error + membership) io" where
  "createMembership E s userID tenantID role = do {
     row \<leftarrow> UpsertMembership E (is_Queries s) userID tenantID role;
     case row of
       Inl err \<Rightarrow> State_Monad.return (Inl (Wrapped ''failed to upsert membership'' err))
     | Inr r \<Rightarrow> do {
         display \<leftarrow> GetTenantDisplay E s (mr_TenantID r);
         State_Monad.return (Inr
           \<lparr>mb_TenantID = mr_TenantID r,
            mb_TenantName = (case display of Inl _ \<Rightarrow> '''' | Inr d \<Rightarrow> td_Name d),
            mb_Role = mr_Role r\<rparr>) } }"

text \<open>\<open>pgtype.Text{String: s, Valid: s != ""}\<close>.\<close>

definition nonEmpty :: "string \<Rightarrow> string option" where
  "nonEmpty s = (if s = '''' then None else Some s)"

definition toUserRef :: "user_row \<Rightarrow> user_ref" where
  "toUserRef u = \<lparr>ref_UserID = ur_ID u, ref_Issuer = ur_Issuer u, ref_Subject = ur_IdentifierSubject u\<rparr>"

text \<open>The second half of \<open>ResolveOrProvisionUser\<close>, after the lookup found no row.\<close>

definition provisionUser :: "env \<Rightarrow> pg_identity_store \<Rightarrow> identity \<Rightarrow> ('z, go_error + user_ref) io" where
  "provisionUser E s i = do {
     tenantID \<leftarrow> firstTenantOrCreate E s;
     case tenantID of
       Inl e \<Rightarrow> State_Monad.return (Inl (Wrapped ''failed to get or create tenant'' e))
     | Inr tid \<Rightarrow> do {
         userID \<leftarrow> newUUID E;
         now \<leftarrow> timeNow E;
         created \<leftarrow> InsertUser E (is_Queries s)
           \<lparr>iu_ID = userID, iu_Email = id_Email i, iu_EmailVerified = id_EmailVerified i,
            iu_Username = nonEmpty (orDefault (id_PreferredUsername i) (id_Username i)),
            iu_Name = nonEmpty (id_Name i), iu_Issuer = id_Issuer i,
            iu_IdentifierSubject = id_Subject i, iu_LastLoginAt = Some now\<rparr>;
         case created of
           Inl e \<Rightarrow> State_Monad.return (Inl (Wrapped ''failed to insert user'' e))
         | Inr c \<Rightarrow> do {
             mem \<leftarrow> createMembership E s (ur_ID c) tid RoleMember;
             case mem of
               Inl e \<Rightarrow> State_Monad.return (Inl (Wrapped ''failed to create membership'' e))
             | Inr _ \<Rightarrow> do {
                 ms \<leftarrow> ListMemberships E s (ur_ID c);
                 State_Monad.return
                   (case ms of
                      Inl e \<Rightarrow> Inl (Wrapped ''failed to list memberships for created user'' e)
                    | Inr l \<Rightarrow>
                        if l = [] then Inl (ErrorString ''failed to verify membership creation'')
                        else Inr (toUserRef c)) } } } }"

definition ResolveOrProvisionUser ::
    "env \<Rightarrow> pg_identity_store \<Rightarrow> identity \<Rightarrow> ('z, go_error + user_ref) io" where
  "ResolveOrProvisionUser E s i =
     (if \<not> is_HasPool s then State_Monad.return (Inl (ErrorString ''postgres pool is required''))
      else do {
        found \<leftarrow> GetUserByIdentifier E (is_Queries s) (id_Issuer i) (id_Subject i);
        case found of
          Inr u \<Rightarrow> do {
            ms \<leftarrow> ListMemberships E s (ur_ID u);
            State_Monad.return
              (case ms of
                 Inl listErr \<Rightarrow> Inl (Wrapped ''failed to list memberships'' listErr)
               | Inr l \<Rightarrow>
                   if l = []
                   then Inl (ErrorString (''user '' @ uuid_string E (ur_ID u) @
                               '' has no tenant memberships (data integrity issue)''))
                   else Inr (toUserRef u)) }
        | Inl err \<Rightarrow>
            if err \<noteq> ErrNoRows
            then State_Monad.return (Inl (Wrapped ''failed to query user'' err))
            else provisionUser E s i })"

lemmas identity_store_defs =
  ListMemberships_def GetTenantDisplay_def firstTenantOrCreate_def createMembership_def
  provisionUser_def ResolveOrProvisionUser_def

section \<open>The store keeps the schema and the caller's state\<close>

lemma inv_ListMemberships [inv_rules]: "triple (inv I) (ListMemberships E s u) (\<lambda>_. inv I)"
  unfolding ListMemberships_def query_defs
  by (intro triple_bind_inv triple_rules inv_rules preserves_rules)

lemma inv_GetTenantDisplay [inv_rules]: "triple (inv I) (GetTenantDisplay E s t) (\<lambda>_. inv I)"
  unfolding GetTenantDisplay_def query_defs
  by (intro triple_bind_inv triple_rules inv_rules preserves_rules)

lemma inv_firstTenantOrCreate [inv_rules]:
  "stmt_inv I \<Longrightarrow> triple (inv I) (firstTenantOrCreate E s) (\<lambda>_. inv I)"
  unfolding firstTenantOrCreate_def query_defs
  by (intro triple_bind_inv triple_rules inv_rules preserves_rules)

lemma inv_createMembership [inv_rules]:
  "stmt_inv I \<Longrightarrow> triple (inv I) (createMembership E s u t r) (\<lambda>_. inv I)"
  unfolding createMembership_def query_defs
  by (intro triple_bind_inv triple_rules inv_rules preserves_rules)

lemma inv_ResolveOrProvisionUser [inv_rules]:
  "stmt_inv I \<Longrightarrow> triple (inv I) (ResolveOrProvisionUser E s i) (\<lambda>_. inv I)"
  unfolding ResolveOrProvisionUser_def provisionUser_def query_defs
  by (intro triple_bind_inv triple_rules inv_rules preserves_rules)

lemma extra_identity_store [extra_rules]:
  "triple (extra x) (ListMemberships E s u) (\<lambda>_. extra x)"
  "triple (extra x) (GetTenantDisplay E s t) (\<lambda>_. extra x)"
  "triple (extra x) (firstTenantOrCreate E s) (\<lambda>_. extra x)"
  "triple (extra x) (createMembership E s u t r) (\<lambda>_. extra x)"
  "triple (extra x) (ResolveOrProvisionUser E s i) (\<lambda>_. extra x)"
  unfolding identity_store_defs query_defs
  by (intro triple_bind_inv triple_rules extra_rules)+

text \<open>On a transaction the committed tables stay as they are.\<close>

lemma committed_identity_store:
  assumes "is_Queries s = OnTx"
  shows "triple (committed d n) (ResolveOrProvisionUser E s i) (\<lambda>_. committed d n)"
  unfolding identity_store_defs query_defs assms
  by (intro triple_bind_inv triple_rules tx_rules)

lemma identityWithTx_handle [simp]: "is_Queries (identityWithTx s) = OnTx"
  by (simp add: identityWithTx_def)

section \<open>What the store does on the pool\<close>

definition membershipsOf :: "database \<Rightarrow> uuid \<Rightarrow> membership list" where
  "membershipsOf d uid =
     (case sqlListMemberships uid 0 d of Inl _ \<Rightarrow> [] | Inr (rows, _) \<Rightarrow> map toMembership rows)"

definition userOf :: "database \<Rightarrow> identity \<Rightarrow> user option" where
  "userOf d i = find (\<lambda>u. u_issuer u = id_Issuer i \<and> u_subject u = id_Subject i) (users d)"

lemma run_ListMemberships_pool:
  assumes "is_Queries s = OnPool"
  shows "run_state (ListMemberships E s u) w =
     (case db_fault E (w_tick w) of
        Some f \<Rightarrow> (Inl (Wrapped ''failed to list memberships'' (faultError f)), tickw w)
      | None \<Rightarrow> (Inr (membershipsOf (w_db w) u), tickw w))"
  using assms
  by (simp add: ListMemberships_def ListMembershipRows_def membershipsOf_def sqlListMemberships_def tickw_def
      split: option.splits)

lemma run_GetTenantDisplay_pool:
  assumes "is_Queries s = OnPool"
  shows "\<exists>r. run_state (GetTenantDisplay E s t) w = (r, tickw w)"
  using assms
  by (simp add: GetTenantDisplay_def GetTenantByID_def sqlGetTenantByID_def tickw_def
      split: option.splits)

lemma run_GetUserByIdentifier_pool:
  "run_state (GetUserByIdentifier E OnPool (id_Issuer i) (id_Subject i)) w =
     (case db_fault E (w_tick w) of
        Some f \<Rightarrow> (Inl (faultError f), tickw w)
      | None \<Rightarrow> (case userOf (w_db w) i of None \<Rightarrow> Inl ErrNoRows | Some u \<Rightarrow> Inr (userRow u), tickw w))"
  by (simp add: GetUserByIdentifier_def sqlGetUserByIdentifier_def userOf_def filter_map_find tickw_def
      split: option.splits)

text \<open>The abstract effect of provisioning: the oldest tenant, created when there is none.\<close>

definition oldestTenant :: "database \<Rightarrow> uuid option" where
  "oldestTenant d =
     (case sort_key t_created_at (tenants d) of [] \<Rightarrow> None | t # _ \<Rightarrow> Some (t_tenant_id t))"

definition ensureTenant :: "string \<Rightarrow> uuid \<Rightarrow> int \<Rightarrow> database \<Rightarrow> database" where
  "ensureTenant name tid now d =
     (if tenants d = []
      then d\<lparr>tenants := [\<lparr>t_tenant_id = tid, t_name = name, t_created_at = now, t_updated_at = now\<rparr>]\<rparr>
      else d)"

definition identityUser :: "identity \<Rightarrow> uuid \<Rightarrow> int \<Rightarrow> int \<Rightarrow> user" where
  "identityUser i uid login now =
     \<lparr>u_id = uid, u_email = id_Email i, u_email_verified = id_EmailVerified i,
      u_username = nonEmpty (orDefault (id_PreferredUsername i) (id_Username i)),
      u_name = nonEmpty (id_Name i), u_issuer = id_Issuer i, u_subject = id_Subject i,
      u_last_login_at = Some login, u_created_at = now, u_updated_at = now\<rparr>"

definition addUser :: "identity \<Rightarrow> uuid \<Rightarrow> int \<Rightarrow> int \<Rightarrow> database \<Rightarrow> database" where
  "addUser i uid login now d = d\<lparr>users := users d @ [identityUser i uid login now]\<rparr>"

definition addMember :: "uuid \<Rightarrow> uuid \<Rightarrow> role \<Rightarrow> int \<Rightarrow> database \<Rightarrow> database" where
  "addMember uid tid role now d = d\<lparr>memberships := memberships d @
     [\<lparr>tm_user_id = uid, tm_tenant_id = tid, tm_role = role, tm_created_at = now, tm_updated_at = now\<rparr>]\<rparr>"

lemma sort_key_Nil_iff [simp]: "sort_key f xs = [] \<longleftrightarrow> xs = []"
  by (metis length_0_conv length_sort)

lemma run_GetFirstTenant_pool:
  "run_state (GetFirstTenant E OnPool) w =
     (case db_fault E (w_tick w) of
        Some f \<Rightarrow> (Inl (faultError f), tickw w)
      | None \<Rightarrow> (case oldestTenant (w_db w) of None \<Rightarrow> Inl ErrNoRows | Some t \<Rightarrow> Inr t, tickw w))"
  by (simp add: GetFirstTenant_def sqlGetFirstTenant_def oldestTenant_def tickw_def
      split: option.splits list.splits)

lemma errorsIs_fault [simp]: "\<not> errorsIs (faultError f) ErrNoRows"
  by (cases f) auto

lemma oldestTenant_exists: "oldestTenant d = Some t \<Longrightarrow> tenantExists d t"
  by (auto simp: oldestTenant_def tenantExists_def split: list.splits)
    (metis image_eqI list.set_intros(1) set_sort)

lemma GetTenantDisplay_db:
  "is_Queries s = OnPool \<Longrightarrow> run_state (GetTenantDisplay E s t) w = (r, w') \<Longrightarrow> w_db w' = w_db w"
  using run_GetTenantDisplay_pool [of s E t w] by auto

lemma membershipsOf_member:
  assumes "db_ok d" and "tenantExists d tid"
  shows "membershipsOf (addMember uid tid role now d) uid \<noteq> []"
proof -
  obtain t where "t \<in> set (tenants d)" and "t_tenant_id t = tid"
    using assms(2) by (auto simp: tenantExists_def)
  then have "filter (\<lambda>t. t_tenant_id t = tid) (tenants d) \<noteq> []"
    by (auto simp: filter_empty_conv)
  then show ?thesis
    by (force simp: membershipsOf_def sqlListMemberships_def addMember_def)
qed

lemma users_frame [simp]:
  "users (ensureTenant n t now d) = users d" "memberships (ensureTenant n t now d) = memberships d"
  "users (addMember uid tid role now d) = users d"
  "tenants (addMember uid tid role now d) = tenants d"
  "tenants (addUser i uid login now d) = tenants d"
  "memberships (addUser i uid login now d) = memberships d"
  by (simp_all add: ensureTenant_def addMember_def addUser_def)

text \<open>What a successful call leaves: the user that was there, or the provisioned one.\<close>

definition provisioned :: "pg_identity_store \<Rightarrow> identity \<Rightarrow> database \<Rightarrow> user_ref \<Rightarrow> database \<Rightarrow> bool" where
  "provisioned s i d ref d' \<longleftrightarrow>
     (\<exists>newTenant tid t1 uid login t2 t3.
        let d1 = ensureTenant (is_DefaultTenantName s) newTenant t1 d in
        oldestTenant d1 = Some tid \<and>
        d' = addMember uid tid RoleMember t3 (addUser i uid login t2 d1) \<and>
        ref = \<lparr>ref_UserID = uid, ref_Issuer = id_Issuer i, ref_Subject = id_Subject i\<rparr>)"

lemma no_members_of_new_user:
  "db_ok d \<Longrightarrow> \<not> userExists d uid \<Longrightarrow> \<forall>m\<in>set (memberships d). tm_user_id m \<noteq> uid"
  by (auto simp: db_ok_def)

lemma db_ok_ensureTenant: "db_ok d \<Longrightarrow> db_ok (ensureTenant n t now d)"
  by (auto simp: ensureTenant_def db_ok_def userExists_def tenantExists_def)

lemma run_newUUID_db: "run_state (newUUID E) w = (u, w') \<Longrightarrow> w_db w' = w_db w"
  by (auto simp: run_newUUID split: sum.splits)

lemma on_ListMemberships:
  "triple (on (is_Queries s) P) (ListMemberships E s u)
     (\<lambda>r. on (is_Queries s) (\<lambda>d. P d \<and> (\<forall>ms. r = Inr ms \<longrightarrow> ms = membershipsOf d u)))"
  unfolding ListMemberships_def ListMembershipRows_def
proof (rule triple_bind)
  show "triple (on (is_Queries s) P) (queryRows E (is_Queries s) (sqlListMemberships u))
      (\<lambda>r. on (is_Queries s) (\<lambda>d. P d \<and> (\<forall>rs. r = Inr rs \<longrightarrow> map toMembership rs = membershipsOf d u)))"
    by (rule on_rows) (auto simp: sqlListMemberships_def membershipsOf_def)
qed (rule on_return, auto split: sum.splits)

lemma on_GetTenantDisplay:
  "triple (on (is_Queries s) P) (GetTenantDisplay E s u) (\<lambda>r. on (is_Queries s) P)"
  unfolding GetTenantDisplay_def GetTenantByID_def
  by (rule triple_bind, rule on_row [where Q = "\<lambda>_. P"], auto simp: sqlGetTenantByID_def intro: on_return)

lemma on_firstTenantOrCreate:
  "triple (on (is_Queries s) P) (firstTenantOrCreate E s)
     (\<lambda>r. on (is_Queries s) (\<lambda>d. case r of
        Inl _ \<Rightarrow> True
      | Inr tid \<Rightarrow> \<exists>d1 t now. P d1 \<and> d = ensureTenant (is_DefaultTenantName s) t now d1 \<and>
                     oldestTenant d = Some tid))"
  (is "triple _ _ ?Q")
proof -
  let ?h = "is_Queries s"
  let ?R = "\<lambda>r d. P d \<and> (case r of Inr tid \<Rightarrow> oldestTenant d = Some tid
                                    | Inl e \<Rightarrow> errorsIs e ErrNoRows \<longrightarrow> tenants d = [])"
  have q: "triple (on ?h P) (GetFirstTenant E ?h) (\<lambda>r. on ?h (?R r))"
    unfolding GetFirstTenant_def
    by (rule on_row) (auto simp: sqlGetFirstTenant_def oldestTenant_def take_Suc split: list.splits)
  have ins: "triple (on ?h (?R (Inl err))) (InsertTenant E ?h t name)
      (\<lambda>r. on ?h (\<lambda>d. \<forall>u. r = Inr u \<longrightarrow> 
         (\<exists>d1 now. P d1 \<and> d = ensureTenant name t now d1 \<and> oldestTenant d = Some t)))"
    if "errorsIs err ErrNoRows" for err t name
    unfolding InsertTenant_def using that
    by (intro on_exec) (auto simp: sqlInsertTenant_def ensureTenant_def oldestTenant_def split: if_splits)
  show ?thesis
    unfolding firstTenantOrCreate_def
  proof (rule triple_bind [OF q], intro triple_sum triple_if)
    fix r :: "go_error + uuid" and tid
    assume "r = Inr tid"
    then show "triple (on ?h (?R r)) (State_Monad.return (Inr tid)) ?Q"
      by (intro on_return) (auto simp: ensureTenant_def oldestTenant_def split: list.splits)
  next
    fix r :: "go_error + uuid" and err
    assume "\<not> errorsIs err ErrNoRows"
    then show "triple (on ?h (?R r)) (State_Monad.return (Inl (Wrapped ''failed to query tenant'' err))) ?Q"
      by (intro on_return) auto
  next
    fix r :: "go_error + uuid" and err
    assume r: "r = Inl err" and "\<not> \<not> errorsIs err ErrNoRows"
    then have e: "errorsIs err ErrNoRows" by simp
    show "triple (on ?h (?R r)) (do { newTenantID \<leftarrow> newUUID E;
        ins \<leftarrow> InsertTenant E ?h newTenantID (is_DefaultTenantName s);
        State_Monad.return (case ins of Inl e \<Rightarrow> Inl (Wrapped ''failed to insert tenant'' e)
                                      | Inr _ \<Rightarrow> Inr newTenantID) }) ?Q"
      unfolding r
      by (rule triple_bind [OF on_env(1)], rule triple_bind [OF ins [OF e]], rule on_return)
        (auto split: sum.splits)
  qed
qed

lemma on_createMembership:
  "triple (on (is_Queries s) (\<lambda>d. P d \<and> (\<forall>m\<in>set (memberships d). tm_user_id m \<noteq> uid)))
     (createMembership E s uid tid role)
     (\<lambda>r. on (is_Queries s) (\<lambda>d. isOk r \<longrightarrow> (\<exists>d1 now. P d1 \<and> d = addMember uid tid role now d1)))"
proof -
  let ?h = "is_Queries s"
  have up: "triple (on ?h (\<lambda>d. P d \<and> (\<forall>m\<in>set (memberships d). tm_user_id m \<noteq> uid)))
      (UpsertMembership E ?h uid tid role)
      (\<lambda>r. on ?h (\<lambda>d. isOk r \<longrightarrow> (\<exists>d1 now. P d1 \<and> d = addMember uid tid role now d1)))"
    unfolding UpsertMembership_def
    by (rule on_row) (auto simp: sqlUpsertMembership_def addMember_def split: if_splits)
  show ?thesis
    unfolding createMembership_def
    by (rule triple_bind [OF up], intro triple_sum, rule on_return, simp,
        rule triple_bind [OF on_GetTenantDisplay], rule on_return) auto
qed

text \<open>The steps after the lookup found no user, from the first one inwards.\<close>

lemma on_InsertUser:
  "triple (on h P) (InsertUser E h
       \<lparr>iu_ID = uid, iu_Email = id_Email i, iu_EmailVerified = id_EmailVerified i,
        iu_Username = nonEmpty (orDefault (id_PreferredUsername i) (id_Username i)),
        iu_Name = nonEmpty (id_Name i), iu_Issuer = id_Issuer i,
        iu_IdentifierSubject = id_Subject i, iu_LastLoginAt = Some login\<rparr>)
     (\<lambda>r. on h (\<lambda>d. \<forall>c. r = Inr c \<longrightarrow> (\<exists>d1 now. P d1 \<and> d = addUser i uid login now d1 \<and>
        c = userRow (identityUser i uid login now) \<and> \<not> userExists d1 uid)))"
  unfolding InsertUser_def
  by (rule on_row)
    (auto simp: sqlInsertUser_def addUser_def identityUser_def userConflict_def userExists_def Let_def
      split: if_splits)

definition provisionedUser :: "pg_identity_store \<Rightarrow> identity \<Rightarrow> database \<Rightarrow> user_ref \<Rightarrow> database \<Rightarrow> bool" where
  "provisionedUser s i d0 ref d \<longleftrightarrow> provisioned s i d0 ref d \<and> membershipsOf d (ref_UserID ref) \<noteq> []"

lemma on_provisionUser:
  assumes "db_ok d0"
  shows "triple (on (is_Queries s) (\<lambda>d. d = d0 \<and> C)) (provisionUser E s i)
     (\<lambda>r. on (is_Queries s) (\<lambda>d. \<forall>ref. r = Inr ref \<longrightarrow> C \<and> provisionedUser s i d0 ref d))"
  (is "triple _ _ (\<lambda>r. on ?h (?Q r))")
proof -
  let ?ten = "\<lambda>tid d. C \<and> oldestTenant d = Some tid \<and>
     (\<exists>t now. d = ensureTenant (is_DefaultTenantName s) t now d0)"
  define usr where "usr tid c d \<longleftrightarrow> (\<exists>d1 uid login now. ?ten tid d1 \<and> d = addUser i uid login now d1 \<and>
     c = userRow (identityUser i uid login now) \<and> \<not> userExists d1 uid)" for tid c d
  define mem where "mem tid c d \<longleftrightarrow>
      (\<exists>d2 now. usr tid c d2 \<and> d = addMember (ur_ID c) tid RoleMember now d2)" for tid c d
  have tenant: "triple (on ?h (\<lambda>d. d = d0 \<and> C)) (firstTenantOrCreate E s)
      (\<lambda>r. on ?h (\<lambda>d. \<forall>tid. r = Inr tid \<longrightarrow> ?ten tid d))"
    by (rule on_weaken [OF on_firstTenantOrCreate [where P = "\<lambda>d. d = d0 \<and> C"]]) auto
  have insert: "triple (on ?h (\<lambda>d. \<forall>t. Inr tid = Inr t \<longrightarrow> ?ten t d)) (InsertUser E ?h
       \<lparr>iu_ID = uid, iu_Email = id_Email i, iu_EmailVerified = id_EmailVerified i,
        iu_Username = nonEmpty (orDefault (id_PreferredUsername i) (id_Username i)),
        iu_Name = nonEmpty (id_Name i), iu_Issuer = id_Issuer i,
        iu_IdentifierSubject = id_Subject i, iu_LastLoginAt = Some login\<rparr>)
      (\<lambda>r. on ?h (\<lambda>d. \<forall>c. r = Inr c \<longrightarrow> usr tid c d))" for tid uid login
    by (rule on_weaken [OF on_InsertUser [where P = "?ten tid"]]) (simp, unfold usr_def, blast)
  have fresh: "\<forall>m\<in>set (memberships d). tm_user_id m \<noteq> ur_ID c" if usr: "usr tid c d" for tid c d
  proof -
    obtain t now uid login now' where
      "\<not> userExists (ensureTenant (is_DefaultTenantName s) t now d0) uid"
      "memberships d = memberships d0" "ur_ID c = uid"
      using usr [unfolded usr_def] by (auto simp: userRow_def identityUser_def)
    with assms show ?thesis
      using no_members_of_new_user [OF db_ok_ensureTenant] by fastforce
  qed
  have member: "triple (on ?h (\<lambda>d. \<forall>x. Inr c = Inr x \<longrightarrow> usr tid x d))
      (createMembership E s (ur_ID c) tid RoleMember)
      (\<lambda>r. on ?h (\<lambda>d. isOk r \<longrightarrow> mem tid c d))" for tid c
    by (rule on_weaken [OF on_createMembership [where P = "usr tid c"]]) (use fresh in \<open>auto simp: mem_def\<close>)
  have fin: "C \<and> provisionedUser s i d0 (toUserRef c) d"
    if m: "mem tid c d" and ne: "membershipsOf d (ur_ID c) \<noteq> []" for tid c d
  proof -
    from m [unfolded mem_def usr_def] obtain t t1 uid login t2 t3 where C: C and
      "oldestTenant (ensureTenant (is_DefaultTenantName s) t t1 d0) = Some tid"
      "c = userRow (identityUser i uid login t2)"
      "d = addMember (ur_ID c) tid RoleMember t3
             (addUser i uid login t2 (ensureTenant (is_DefaultTenantName s) t t1 d0))"
      by auto
    then have "provisioned s i d0 (toUserRef c) d"
      unfolding provisioned_def Let_def
      by (intro exI [of _ t] exI [of _ tid] exI [of _ t1] exI [of _ uid] exI [of _ login]
          exI [of _ t2] exI [of _ t3]) (simp add: toUserRef_def userRow_def identityUser_def)
    with ne C show ?thesis by (simp add: provisionedUser_def toUserRef_def)
  qed
  show ?thesis
    unfolding provisionUser_def
    by (rule triple_bind [OF tenant], intro triple_sum, rule on_return, simp,
        simp only: , rule triple_bind [OF on_env(1)], rule triple_bind [OF on_env(2)],
        rule triple_bind [OF insert], intro triple_sum, rule on_return, simp,
        simp only: , rule triple_bind [OF member], intro triple_sum, rule on_return, simp,
        rule triple_bind [OF on_ListMemberships], rule on_return)
      (clarsimp split: sum.splits, use fin in blast)
qed

text \<open>What a successful call leaves: the user that was there, or the provisioned one.\<close>

definition resolved :: "pg_identity_store \<Rightarrow> identity \<Rightarrow> database \<Rightarrow> user_ref \<Rightarrow> database \<Rightarrow> bool" where
  "resolved s i d0 ref d \<longleftrightarrow> membershipsOf d (ref_UserID ref) \<noteq> [] \<and>
     (case userOf d0 i of
        Some u \<Rightarrow> d = d0 \<and> ref = toUserRef (userRow u)
      | None \<Rightarrow> provisioned s i d0 ref d)"

lemma on_ResolveOrProvisionUser:
  assumes "db_ok d0"
  shows "triple (on (is_Queries s) (\<lambda>d. d = d0 \<and> C)) (ResolveOrProvisionUser E s i)
     (\<lambda>r. on (is_Queries s) (\<lambda>d. \<forall>ref. r = Inr ref \<longrightarrow> C \<and> resolved s i d0 ref d))"
  (is "triple _ _ (\<lambda>r. on ?h (?Q r))")
proof -
  define found where "found r d \<longleftrightarrow> d = d0 \<and> C \<and>
     (case r of Inr c \<Rightarrow> \<exists>u. userOf d0 i = Some u \<and> c = userRow u
              | Inl e \<Rightarrow> e = ErrNoRows \<longrightarrow> userOf d0 i = None)" for r d
  have find: "triple (on ?h (\<lambda>d. d = d0 \<and> C)) (GetUserByIdentifier E ?h (id_Issuer i) (id_Subject i))
      (\<lambda>r. on ?h (found r))"
    unfolding GetUserByIdentifier_def
    by (rule on_row)
      (auto simp: sqlGetUserByIdentifier_def found_def userOf_def map_filter_Nil [where g = userRow, symmetric]
        dest: map_filter_Cons filter_Cons_find split: option.splits)
  have provision: "triple (on ?h (found (Inl ErrNoRows))) (provisionUser E s i) (\<lambda>r. on ?h (?Q r))"
    by (rule on_weaken [OF on_provisionUser [OF assms, where C = "C \<and> userOf d0 i = None"]])
      (auto simp: found_def resolved_def provisionedUser_def)
  have existing: "C \<and> resolved s i d0 (toUserRef c) d" if "found (Inr c) d" "membershipsOf d (ur_ID c) \<noteq> []" for c d
    using that by (auto simp: found_def resolved_def toUserRef_def userRow_def)
  show ?thesis
    unfolding ResolveOrProvisionUser_def
  proof (intro triple_if)
    show "triple (on ?h (\<lambda>d. d = d0 \<and> C)) (State_Monad.return (Inl (ErrorString ''postgres pool is required'')))
        (\<lambda>r. on ?h (?Q r))"
      by (rule on_return) simp
  qed (rule triple_bind [OF find], intro triple_sum triple_if, rule on_return, simp,
      simp only: not_not, rule provision, simp only: ,
      rule triple_bind [OF on_ListMemberships], rule on_return,
      clarsimp split: sum.splits if_splits, use existing in blast)
qed

lemma pool_run:
  "triple (on OnPool (\<lambda>d. d = d0)) m (\<lambda>r. on OnPool (Q r)) \<Longrightarrow> w_db w = d0 \<Longrightarrow>
     run_state m w = (r, w') \<Longrightarrow> Q r (w_db w')"
  by (drule tripleD, auto)

lemma ResolveOrProvisionUser_result:
  assumes "run_state (ResolveOrProvisionUser E s i) w = (Inr ref, w')"
    and "is_Queries s = OnPool" and "db_ok (w_db w)"
  shows "resolved s i (w_db w) ref (w_db w')"
  using pool_run [OF on_ResolveOrProvisionUser [of "w_db w" s True E i, simplified, unfolded assms(2)] refl assms(1)]
    assms(3) by simp

lemma userOf_append: "userOf d i = None \<Longrightarrow>
   userOf (d\<lparr>users := users d @ [identityUser i uid login now]\<rparr>) i = Some (identityUser i uid login now)"
  by (simp add: userOf_def find_cong_append identityUser_def)

lemma userOf_frame [simp]:
  "userOf (ensureTenant n t now d) i = userOf d i"
  "userOf (addMember uid tid role now d) i = userOf d i"
  by (simp_all add: userOf_def)

lemma provisioned_user:
  assumes "provisioned s i d ref d'" and "userOf d i = None"
  shows "\<exists>u. userOf d' i = Some u \<and> ref = toUserRef (userRow u)"
proof -
  obtain n tid t1 uid login t2 t3 where
    "d' = addMember uid tid RoleMember t3 (addUser i uid login t2 (ensureTenant (is_DefaultTenantName s) n t1 d))"
    "ref = \<lparr>ref_UserID = uid, ref_Issuer = id_Issuer i, ref_Subject = id_Subject i\<rparr>"
    using assms(1) by (auto simp: provisioned_def Let_def)
  moreover have "userOf (addUser i uid login t2 e) i = Some (identityUser i uid login t2)"
    if "userOf e i = None" for e
    using userOf_append [OF that] by (simp add: addUser_def)
  ultimately show ?thesis
    using assms(2) by (simp add: toUserRef_def userRow_def identityUser_def)
qed

lemma userOf_Some: "userOf d i = Some u \<Longrightarrow> u_issuer u = id_Issuer i \<and> u_subject u = id_Subject i \<and> u \<in> set (users d)"
  by (auto simp: userOf_def dest: find_Some_set)

section \<open>The contract of an identity store\<close>

text \<open>
  What the OIDC handler assumes of its store, for worlds \<open>w\<close> the store keeps well-formed:
  \<open>members\<close> is what \<open>ListMemberships\<close> reads, a resolved user carries the identity's issuer
  and subject and has a membership, and the caller's own state \<open>rest\<close> is left alone.
\<close>

locale identity_store =
  fixes wf :: "'w \<Rightarrow> bool"
    and members :: "'w \<Rightarrow> uuid \<Rightarrow> membership list"
    and rest :: "'w \<Rightarrow> 'x"
    and api :: "'w identity_store_api"
  assumes resolve_keeps: "wf w \<Longrightarrow> run_state (api_ResolveOrProvisionUser api i) w = (r, w') \<Longrightarrow>
            wf w' \<and> rest w' = rest w"
    and resolve_ok: "wf w \<Longrightarrow> run_state (api_ResolveOrProvisionUser api i) w = (Inr ref, w') \<Longrightarrow>
            ref_Issuer ref = id_Issuer i \<and> ref_Subject ref = id_Subject i \<and>
            members w' (ref_UserID ref) \<noteq> []"
    and list_keeps: "wf w \<Longrightarrow> run_state (api_ListMemberships api u) w = (r', w') \<Longrightarrow>
            wf w' \<and> rest w' = rest w \<and> members w' = members w"
    and list_ok: "wf w \<Longrightarrow> run_state (api_ListMemberships api u) w = (Inr ms, w') \<Longrightarrow> ms = members w u"
    and display_keeps: "wf w \<Longrightarrow> run_state (api_GetTenantDisplay api t) w = (r'', w') \<Longrightarrow>
            wf w' \<and> rest w' = rest w \<and> members w' = members w"
begin

text \<open>A resolved user is never without memberships.\<close>

lemma resolve_then_list:
  assumes "wf w" "run_state (api_ResolveOrProvisionUser api i) w = (Inr ref, w1)"
    and "run_state (api_ListMemberships api (ref_UserID ref)) w1 = (Inr ms, w2)"
  shows "ms \<noteq> [] \<and> ms = members w2 (ref_UserID ref) \<and> wf w2 \<and> rest w2 = rest w"
  using assms resolve_keeps resolve_ok list_keeps list_ok by metis

end

definition identityApi :: "env \<Rightarrow> pg_identity_store \<Rightarrow> ('z world_scheme) identity_store_api" where
  "identityApi E s =
     \<lparr>api_ResolveOrProvisionUser = ResolveOrProvisionUser E s,
      api_ListMemberships = ListMemberships E s,
      api_GetTenantDisplay = GetTenantDisplay E s\<rparr>"

lemma NewPostgres_pool [simp]: "is_Queries (NewPostgresIdentityStore hasPool name) = OnPool"
  by (simp add: NewPostgresIdentityStore_def)

lemma inv_run: "triple (inv I) m (\<lambda>_. inv I) \<Longrightarrow> inv I w \<Longrightarrow> run_state m w = (r, w') \<Longrightarrow> inv I w'"
  by (rule tripleD)

lemma extra_run:
  assumes "triple (extra (world.more w)) m (\<lambda>_. extra (world.more w))" "run_state m w = (r, w')"
  shows "world.more w' = world.more w"
  using tripleD [OF assms(1) _ assms(2)] by (simp add: extra_def)

lemma inv_db: "inv I w \<Longrightarrow> I (w_db w)"
  by (simp add: inv_def)

lemma resolved_ref:
  assumes "run_state (ResolveOrProvisionUser E s i) w = (Inr ref, w')"
    and "is_Queries s = OnPool" and "db_ok (w_db w)"
  shows "ref_Issuer ref = id_Issuer i \<and> ref_Subject ref = id_Subject i \<and>
         membershipsOf (w_db w') (ref_UserID ref) \<noteq> []"
  using ResolveOrProvisionUser_result [OF assms]
  by (auto simp: toUserRef_def userRow_def resolved_def provisioned_def Let_def
      split: option.splits dest: userOf_Some)

interpretation pg: identity_store "inv db_ok" "\<lambda>w. membershipsOf (w_db w)" world.more
    "identityApi E (NewPostgresIdentityStore hasPool name)" for E hasPool name
proof (unfold_locales, goal_cases)
  case (1 w i r w')
  then show ?case
    by (auto simp: identityApi_def intro: inv_run inv_ResolveOrProvisionUser
        stmt_inv_db_ok extra_run extra_identity_store)
next
  case (2 w i ref w')
  then show ?case
    using resolved_ref [OF _ NewPostgres_pool inv_db [of db_ok]] by (simp add: identityApi_def)
next
  case (3 w u r' w')
  then show ?case
    by (auto simp: identityApi_def run_ListMemberships_pool split: option.splits)
next
  case (4 w u ms w')
  then show ?case
    by (simp add: identityApi_def run_ListMemberships_pool split: option.splits)
next
  case (5 w t r'' w')
  then show ?case
    using run_GetTenantDisplay_pool [OF NewPostgres_pool, of E hasPool name t w]
    by (auto simp: identityApi_def)
qed

section \<open>Properties\<close>

text \<open>
  C4 A successful \<open>ResolveOrProvisionUser\<close> returns the existing user of that issuer and
  subject and changes nothing, or it adds exactly one user with the identity's attributes and
  makes it a \<open>member\<close> of the oldest tenant, creating that tenant under the default name when
  the database has none. The user returned always has a membership.
\<close>

theorem resolve_or_provision:
  assumes "run_state (ResolveOrProvisionUser E s i) w = (Inr ref, w')"
    and "is_Queries s = OnPool" and "db_ok (w_db w)"
  shows "membershipsOf (w_db w') (ref_UserID ref) \<noteq> [] \<and>
         (case userOf (w_db w) i of
            Some u \<Rightarrow> w_db w' = w_db w \<and> ref = toUserRef (userRow u)
          | None \<Rightarrow> provisioned s i (w_db w) ref (w_db w'))"
  using ResolveOrProvisionUser_result [OF assms] by (simp add: resolved_def)

definition sampleStore :: pg_identity_store where
  "sampleStore = NewPostgresIdentityStore True ''''"

lemma sampleStore_pool: "is_Queries sampleStore = OnPool"
  by (simp add: sampleStore_def)

lemma userOf_empty [simp]: "userOf empty_db i = None"
  by (simp add: userOf_def empty_db_def)

definition sampleIdentity :: identity where
  "sampleIdentity = \<lparr>id_Issuer = ''iss'', id_Subject = ''sub'', id_Email = ''a@x'',
     id_EmailVerified = True, id_Username = ''nick'', id_Name = '''', id_PreferredUsername = '''',
     id_RawClaims = []\<rparr>"

text \<open>The first user of an empty database, and the tables after it.\<close>

definition sampleUser :: user where
  "sampleUser = \<lparr>u_id = 104, u_email = ''a@x'', u_email_verified = True, u_username = Some ''nick'',
     u_name = None, u_issuer = ''iss'', u_subject = ''sub'', u_last_login_at = Some 5000000000,
     u_created_at = 6000000000, u_updated_at = 6000000000\<rparr>"

definition sampleDb :: database where
  "sampleDb = \<lparr>users = [sampleUser],
     tenants = [\<lparr>t_tenant_id = 102, t_name = ''Default'', t_created_at = 3000000000,
                 t_updated_at = 3000000000\<rparr>],
     memberships = [\<lparr>tm_user_id = 104, tm_tenant_id = 102, tm_role = ''member'',
                     tm_created_at = 7000000000, tm_updated_at = 7000000000\<rparr>],
     credentials = [], attempts = [], tokens = []\<rparr>"

lemma sample_provision:
  "run_state (ResolveOrProvisionUser sampleEnv sampleStore sampleIdentity) (sampleWorld empty_db) =
     (Inr \<lparr>ref_UserID = 104, ref_Issuer = ''iss'', ref_Subject = ''sub''\<rparr>,
      (sampleWorld sampleDb)\<lparr>w_tick := 10\<rparr>)"
  by (simp add: sampleStore_def sampleIdentity_def sampleWorld_def NewPostgresIdentityStore_def
      ResolveOrProvisionUser_def identity_store_defs query_defs sql_defs empty_db_def Let_def
      orDefault_def nonEmpty_def userConflict_def tenantExists_def userExists_def RoleMember_def
      roleNames_def userRow_def toUserRef_def tickw_def run_newUUID sampleDb_def sampleUser_def)

theorem resolve_or_provision_witness:
  "provisioned sampleStore sampleIdentity empty_db
     \<lparr>ref_UserID = 104, ref_Issuer = ''iss'', ref_Subject = ''sub''\<rparr> sampleDb"
  using resolve_or_provision [OF sample_provision sampleStore_pool]
  by (simp add: db_ok_empty)

text \<open>
  Resolving is idempotent: a later successful call for the same identity, from a world
  whose committed tables are those the first call left, returns the same user and changes
  nothing, whatever faults, clocks and generators the two calls meet.
\<close>

theorem resolve_idempotent:
  assumes "run_state (ResolveOrProvisionUser E s i) w = (Inr ref, w1)"
    and "run_state (ResolveOrProvisionUser E' s i) w2 = (Inr ref', w3)"
    and "w_db w2 = w_db w1" and "is_Queries s = OnPool" and "Schema.inv db_ok w"
  shows "ref' = ref \<and> w_db w3 = w_db w1"
proof -
  have "db_ok (w_db w1)"
    using inv_run [OF inv_ResolveOrProvisionUser [OF stmt_inv_db_ok] assms(5,1)] by (rule inv_db)
  then have ok: "db_ok (w_db w2)" by (simp add: assms(3))
  have "\<exists>u. userOf (w_db w1) i = Some u \<and> ref = toUserRef (userRow u)"
    using ResolveOrProvisionUser_result [OF assms(1,4) inv_db [of db_ok, OF assms(5)]]
      provisioned_user
    by (auto simp: resolved_def split: option.splits)
  with ResolveOrProvisionUser_result [OF assms(2,4) ok] assms(3) show ?thesis
    by (auto simp: resolved_def)
qed

lemma sample_resolve_again:
  "run_state (ResolveOrProvisionUser sampleEnv sampleStore sampleIdentity) (sampleWorld sampleDb) =
     (Inr \<lparr>ref_UserID = 104, ref_Issuer = ''iss'', ref_Subject = ''sub''\<rparr>,
      (sampleWorld sampleDb)\<lparr>w_tick := 2\<rparr>)"
  by (simp add: sampleStore_def sampleIdentity_def sampleWorld_def NewPostgresIdentityStore_def
      ResolveOrProvisionUser_def identity_store_defs query_defs sql_defs sampleDb_def sampleUser_def
      userRow_def toUserRef_def tickw_def)

theorem resolve_idempotent_witness:
  "fst (run_state (ResolveOrProvisionUser sampleEnv sampleStore sampleIdentity) (sampleWorld sampleDb)) =
   fst (run_state (ResolveOrProvisionUser sampleEnv sampleStore sampleIdentity) (sampleWorld empty_db))"
  using resolve_idempotent [OF sample_provision sample_resolve_again _ sampleStore_pool]
  by (simp add: inv_def db_ok_empty sample_provision sample_resolve_again)

text \<open>
  A user without memberships can never log in again: \<open>ResolveOrProvisionUser\<close> fails for
  every behaviour of the environment and repairs nothing. The witness reaches such a user by
  one lost connection between the insertion of the user and that of its membership, since the
  provisioning steps are not in one transaction.
\<close>

theorem stranded_user:
  assumes "userOf (w_db w) i = Some u" and "membershipsOf (w_db w) (u_id u) = []"
    and "is_Queries s = OnPool"
  shows "\<exists>e w'. run_state (ResolveOrProvisionUser E s i) w = (Inl e, w') \<and> w_db w' = w_db w"
  using assms
  by (auto simp: ResolveOrProvisionUser_def run_GetUserByIdentifier_pool run_ListMemberships_pool
      userRow_def split: option.splits)

lemma sample_stranded:
  "run_state (ResolveOrProvisionUser (faultAt 7 sampleEnv) sampleStore sampleIdentity) (sampleWorld empty_db) =
     (Inl (Wrapped ''failed to create membership'' (Wrapped ''failed to upsert membership''
        (ErrorString ''connection lost''))),
      (sampleWorld (sampleDb\<lparr>memberships := []\<rparr>))\<lparr>w_tick := 8\<rparr>)"
  by (simp add: sampleStore_def sampleIdentity_def sampleWorld_def NewPostgresIdentityStore_def
      ResolveOrProvisionUser_def identity_store_defs query_defs sql_defs empty_db_def Let_def
      orDefault_def nonEmpty_def userConflict_def tenantExists_def userExists_def RoleMember_def
      roleNames_def userRow_def toUserRef_def tickw_def run_newUUID sampleDb_def sampleUser_def)

theorem stranded_user_witness:
  "\<exists>w1. run_state (ResolveOrProvisionUser (faultAt 7 sampleEnv) sampleStore sampleIdentity)
            (sampleWorld empty_db) =
          (Inl (Wrapped ''failed to create membership'' (Wrapped ''failed to upsert membership''
             (ErrorString ''connection lost''))), w1) \<and>
        (\<exists>e w2. run_state (ResolveOrProvisionUser sampleEnv sampleStore sampleIdentity) w1 = (Inl e, w2) \<and>
           w_db w2 = w_db w1)"
proof -
  let ?w1 = "(sampleWorld (sampleDb\<lparr>memberships := []\<rparr>))\<lparr>w_tick := 8\<rparr>"
  have "userOf (w_db ?w1) sampleIdentity = Some sampleUser"
    by (simp add: userOf_def sampleDb_def sampleUser_def sampleIdentity_def)
  moreover have "membershipsOf (w_db ?w1) (u_id sampleUser) = []"
    by (simp add: membershipsOf_def sqlListMemberships_def)
  ultimately show ?thesis
    using stranded_user [OF _ _ sampleStore_pool] sample_stranded by blast
qed

text \<open>
  The identity store keeps the schema invariant, in the committed tables and in an open
  transaction, and the caller's own state, for every pattern of faults; so a failed call
  leaves no row that breaks a constraint.
\<close>

theorem identity_store_keeps_schema:
  assumes "Schema.inv db_ok w" and "run_state (ResolveOrProvisionUser E s i) w = (r, w')"
  shows "Schema.inv db_ok w' \<and> world.more w' = world.more w"
  using inv_run [OF inv_ResolveOrProvisionUser [OF stmt_inv_db_ok] assms] extra_run [OF extra_identity_store(5) assms(2)]
  by simp

theorem identity_store_keeps_schema_witness:
  "Schema.inv db_ok ((sampleWorld (sampleDb\<lparr>memberships := []\<rparr>))\<lparr>w_tick := 8\<rparr>)"
  using identity_store_keeps_schema [OF _ sample_stranded]
  by (simp add: inv_def db_ok_empty)

end
