(* ===== verification/PasswordConfig.thy ===== *)
theory PasswordConfig
  imports Session IdentityStore
begin

text \<open>
  \<open>auth/password/config.go\<close> with the small pure parts of the package: the configuration
  records and their defaults, \<open>policy.go\<close>, \<open>lockout.go\<close> and \<open>token.go\<close>.
\<close>

section \<open>Configuration\<close>

definition DefaultPathPrefix :: string where "DefaultPathPrefix = ''/auth/password''"
definition DefaultIssuer :: string where "DefaultIssuer = ''local''"
definition DefaultMinPasswordLength :: int where "DefaultMinPasswordLength = 8"
definition DefaultMaxPasswordLength :: int where "DefaultMaxPasswordLength = 128"

record hashing_config =
  hc_Memory :: "32 word"
  hc_Iterations :: "32 word"
  hc_Parallelism :: "8 word"
  hc_SaltLength :: "32 word"
  hc_KeyLength :: "32 word"

record lockout_config =
  lc_MaxAttempts :: int
  lc_Window :: int

record token_config =
  tc_ResetTokenExpiry :: int
  tc_VerificationTokenExpiry :: int
  tc_TokenLength :: int

record password_policy =
  pp_MinLength :: int
  pp_MaxLength :: int
  pp_RejectContextual :: bool

text \<open>\<open>pcfg_EmailSender\<close>: whether an \<open>EmailSender\<close> is configured.\<close>

record password_config =
  pcfg_PathPrefix :: string
  pcfg_Issuer :: string
  pcfg_SessionKey :: string
  pcfg_RequireEmailVerification :: bool
  pcfg_DefaultTenantName :: string
  pcfg_Hashing :: hashing_config
  pcfg_Policy :: password_policy
  pcfg_Lockout :: lockout_config
  pcfg_Tokens :: token_config
  pcfg_EmailSender :: bool

definition orZero :: "'a::zero \<Rightarrow> 'a \<Rightarrow> 'a" where
  "orZero v d = (if v = 0 then d else v)"

definition hashingDefaults :: "hashing_config \<Rightarrow> hashing_config" where
  "hashingDefaults c = c\<lparr>
     hc_Memory := orZero (hc_Memory c) 19456, hc_Iterations := orZero (hc_Iterations c) 2,
     hc_Parallelism := orZero (hc_Parallelism c) 1, hc_SaltLength := orZero (hc_SaltLength c) 16,
     hc_KeyLength := orZero (hc_KeyLength c) 32\<rparr>"

definition lockoutDefaults :: "lockout_config \<Rightarrow> lockout_config" where
  "lockoutDefaults c = c\<lparr>
     lc_MaxAttempts := orZero (lc_MaxAttempts c) 5, lc_Window := orZero (lc_Window c) (15 * minute)\<rparr>"

definition tokenDefaults :: "token_config \<Rightarrow> token_config" where
  "tokenDefaults c = c\<lparr>
     tc_ResetTokenExpiry := orZero (tc_ResetTokenExpiry c) hour,
     tc_VerificationTokenExpiry := orZero (tc_VerificationTokenExpiry c) (24 * hour),
     tc_TokenLength := orZero (tc_TokenLength c) 32\<rparr>"

definition policyDefaults :: "password_policy \<Rightarrow> password_policy" where
  "policyDefaults c = c\<lparr>
     pp_MinLength := orZero (pp_MinLength c) DefaultMinPasswordLength,
     pp_MaxLength := orZero (pp_MaxLength c) DefaultMaxPasswordLength\<rparr>"

definition passwordDefaults :: "password_config \<Rightarrow> password_config" where
  "passwordDefaults c = c\<lparr>
     pcfg_PathPrefix := orDefault (pcfg_PathPrefix c) DefaultPathPrefix,
     pcfg_Issuer := orDefault (pcfg_Issuer c) DefaultIssuer,
     pcfg_SessionKey := orDefault (pcfg_SessionKey c) ''auth'',
     pcfg_DefaultTenantName := orDefault (pcfg_DefaultTenantName c) ''Default'',
     pcfg_Hashing := hashingDefaults (pcfg_Hashing c),
     pcfg_Lockout := lockoutDefaults (pcfg_Lockout c),
     pcfg_Tokens := tokenDefaults (pcfg_Tokens c),
     pcfg_Policy := policyDefaults (pcfg_Policy c)\<rparr>"

lemma orZero_nonzero: "d \<noteq> 0 \<Longrightarrow> orZero v d \<noteq> 0"
  by (simp add: orZero_def)

lemma passwordDefaults_idem: "passwordDefaults (passwordDefaults c) = passwordDefaults c"
  by (simp add: passwordDefaults_def hashingDefaults_def lockoutDefaults_def tokenDefaults_def
      policyDefaults_def orZero_def)

text \<open>The default session key is the one the OIDC handler and the middleware use.\<close>

lemma password_session_key_shared:
  "pcfg_SessionKey c = '''' \<Longrightarrow> pcfg_SessionKey (passwordDefaults c) = DefaultSessionKey"
  by (simp add: passwordDefaults_def orDefault_def DefaultSessionKey_def)

section \<open>Policy\<close>

definition policyViolation :: "string \<Rightarrow> go_error" where
  "policyViolation detail = PasswordError ErrPasswordPolicyViolation 400 detail"

text \<open>The loop over the context words.\<close>

fun containsWord :: "env \<Rightarrow> string \<Rightarrow> string list \<Rightarrow> bool" where
  "containsWord E lowerPassword [] = False"
| "containsWord E lowerPassword (word # rest) =
     (if word = '''' then containsWord E lowerPassword rest
      else if contains lowerPassword (toLower (unicode_lower E) word) then True
      else containsWord E lowerPassword rest)"

text \<open>\<open>len(password)\<close> counts bytes; an error is Some, no error None.\<close>

definition policyValidate :: "env \<Rightarrow> password_policy \<Rightarrow> string \<Rightarrow> string list \<Rightarrow> go_error option" where
  "policyValidate E p password contextWords =
     (if int (length password) < pp_MinLength p
      then Some (policyViolation (''password must be at least '' @ showInt (pp_MinLength p) @ '' characters''))
      else if pp_MaxLength p < int (length password)
      then Some (policyViolation (''password must be at most '' @ showInt (pp_MaxLength p) @ '' characters''))
      else if pp_RejectContextual p
              \<and> containsWord E (toLower (unicode_lower E) password) contextWords
      then Some (policyViolation ''password must not contain your email or username'')
      else if (\<exists>r\<in>set (runes password). isControl r)
      then Some (policyViolation ''password must not contain control characters'')
      else None)"

lemma containsWord_iff:
  "containsWord E lp ws \<longleftrightarrow>
     (\<exists>w\<in>set ws. w \<noteq> '''' \<and> (\<exists>a b. lp = a @ toLower (unicode_lower E) w @ b))"
  by (induction ws) (auto simp: contains_iff)

lemma policyValidate_cases:
  "policyValidate E p pw ws = Some e \<Longrightarrow> \<exists>d. e = PasswordError ErrPasswordPolicyViolation 400 d \<and> d \<noteq> ''''"
  by (auto simp: policyValidate_def policyViolation_def split: if_splits)

section \<open>Lockout\<close>

definition IsLockedOut :: "nat \<Rightarrow> lockout_config \<Rightarrow> bool" where
  "IsLockedOut failedAttempts cfg \<longleftrightarrow> lc_MaxAttempts cfg \<le> int failedAttempts"

section \<open>Tokens\<close>

definition sha256Sum :: "env \<Rightarrow> string \<Rightarrow> string" where
  "sha256Sum E s = sha256 E s"

text \<open>
  The plaintext for the user and the hash that is stored. The length is the configured
  \<open>TokenLength\<close>; a negative one makes \<open>make([]byte, length)\<close> panic and is outside the model.
\<close>

definition GenerateToken :: "env \<Rightarrow> int \<Rightarrow> ('z, go_error + (string \<times> string)) io" where
  "GenerateToken E len = do {
     raw \<leftarrow> randRead E (nat len);
     State_Monad.return
       (case raw of
          Inl err \<Rightarrow> Inl (Wrapped ''failed to generate token'' err)
        | Inr bs \<Rightarrow> (let plaintext = encode64 urlAlphabet bs
                     in Inr (plaintext, sha256Sum E plaintext))) }"

lemma run_GenerateToken:
  "run_state (GenerateToken E len) w =
     (case rand_read E (w_tick w) (nat len) of
        Inl err \<Rightarrow> Inl (Wrapped ''failed to generate token'' err)
      | Inr bs \<Rightarrow> Inr (encode64 urlAlphabet bs, sha256 E (encode64 urlAlphabet bs)), tickw w)"
  by (simp add: GenerateToken_def sha256Sum_def Let_def split: sum.split)

lemma inv_GenerateToken [inv_rules]: "triple (Schema.inv I) (GenerateToken E n) (\<lambda>_. Schema.inv I)"
  unfolding GenerateToken_def by (intro triple_bind_inv inv_rules)

lemma committed_GenerateToken [tx_rules]: "triple (committed d n) (GenerateToken E k) (\<lambda>_. committed d n)"
  unfolding GenerateToken_def by (intro triple_bind_inv tx_rules)

lemma extra_GenerateToken [extra_rules]: "triple (extra x) (GenerateToken E n) (\<lambda>_. extra x)"
  unfolding GenerateToken_def by (intro triple_bind_inv extra_rules)

section \<open>The policy as a predicate\<close>

text \<open>
  \<open>Validate\<close> accepts exactly the passwords whose length in bytes lies within the bounds,
  that contain no control character, and, with \<open>RejectContextual\<close>, none of the non-empty
  context words in any case; whatever it rejects is answered with a 400 policy violation
  that carries a message.
\<close>

theorem policy_accepts:
  "(policyValidate E p pw ws = None \<longleftrightarrow>
      pp_MinLength p \<le> int (length pw) \<and> int (length pw) \<le> pp_MaxLength p \<and>
      (\<forall>r\<in>set (runes pw). \<not> isControl r) \<and>
      (pp_RejectContextual p \<longrightarrow>
         \<not> (\<exists>w\<in>set ws. w \<noteq> '''' \<and>
              (\<exists>a b. toLower (unicode_lower E) pw = a @ toLower (unicode_lower E) w @ b)))) \<and>
   (\<forall>e. policyValidate E p pw ws = Some e \<longrightarrow>
      (\<exists>d. e = PasswordError ErrPasswordPolicyViolation 400 d \<and> d \<noteq> ''''))"
  using policyValidate_cases [of E p pw ws]
  by (auto simp: policyValidate_def containsWord_iff)

theorem policy_accepts_witness:
  "policyValidate sampleEnv \<lparr>pp_MinLength = 2, pp_MaxLength = 8, pp_RejectContextual = True\<rparr> ''xaB'' [''Ab''] \<noteq> None"
proof -
  have "\<exists>a b. toLower (unicode_lower sampleEnv) ''xaB'' = a @ toLower (unicode_lower sampleEnv) ''Ab'' @ b"
    by (intro exI [of _ "''x''"] exI [of _ "''''"], code_simp)
  then show ?thesis
    unfolding policy_accepts [THEN conjunct1] by (intro notI) (elim conjE, simp del: append_Cons)
qed

end
