(* ===== verification/Hasher.thy ===== *)
theory Hasher
  imports PasswordConfig
begin

text \<open>
  \<open>auth/password/hasher.go\<close>: the Argon2id hasher and its PHC strings, and the contract
  \<open>password_hasher\<close> that the password store relies on. The key derivation is a parameter
  (\<open>argon2_IDKey\<close>); it panics for zero iterations or parallelism, which no configuration with
  defaults has.
\<close>

section \<open>The interface\<close>

record 'w hasher =
  hash_Hash :: "string \<Rightarrow> ('w, go_error + string) state"
  hash_Verify :: "string \<Rightarrow> string \<Rightarrow> go_error + (bool \<times> bool)"

section \<open>PHC strings\<close>

record hashing_params =
  hp_Memory :: "32 word"
  hp_Iterations :: "32 word"
  hp_Parallelism :: "8 word"
  hp_SaltLength :: "32 word"
  hp_KeyLength :: "32 word"

definition zeroParams :: hashing_params where
  "zeroParams = \<lparr>hp_Memory = 0, hp_Iterations = 0, hp_Parallelism = 0, hp_SaltLength = 0, hp_KeyLength = 0\<rparr>"

definition argon2Version :: nat where
  "argon2Version = 19"

text \<open>One key=value pair, and the loop over the pairs.\<close>

definition parseParam :: "hashing_params \<Rightarrow> string \<Rightarrow> go_error + hashing_params" where
  "parseParam params pair =
     (case splitN2 CHR ''='' pair of
        [k, v] \<Rightarrow>
          if k = ''m'' then
            (case parseUint 32 v of
               None \<Rightarrow> Inl (ErrorString (''invalid memory: '' @ v))
             | Some n \<Rightarrow> Inr (params\<lparr>hp_Memory := of_nat n\<rparr>))
          else if k = ''t'' then
            (case parseUint 32 v of
               None \<Rightarrow> Inl (ErrorString (''invalid iterations: '' @ v))
             | Some n \<Rightarrow> Inr (params\<lparr>hp_Iterations := of_nat n\<rparr>))
          else if k = ''p'' then
            (case parseUint 8 v of
               None \<Rightarrow> Inl (ErrorString (''invalid parallelism: '' @ v))
             | Some n \<Rightarrow> Inr (params\<lparr>hp_Parallelism := of_nat n\<rparr>))
          else Inl (ErrorString (''unknown parameter: '' @ k))
      | _ \<Rightarrow> Inl (ErrorString (''invalid parameter: '' @ pair)))"

fun parsePairs :: "hashing_params \<Rightarrow> string list \<Rightarrow> go_error + hashing_params" where
  "parsePairs params [] = Inr params"
| "parsePairs params (pair # rest) =
     (case parseParam params pair of Inl e \<Rightarrow> Inl e | Inr p \<Rightarrow> parsePairs p rest)"

definition parseParams :: "string \<Rightarrow> go_error + hashing_params" where
  "parseParams s = parsePairs zeroParams (splitOn CHR '','' s)"

definition decodePHC :: "string \<Rightarrow> go_error + (hashing_params \<times> string \<times> string)" where
  "decodePHC encoded =
     (let parts = splitOn CHR ''$'' encoded in
      if length parts \<noteq> 6
      then Inl (ErrorString (''invalid hash format: expected 6 parts, got '' @ showNat (length parts)))
      else if parts ! 1 \<noteq> ''argon2id''
      then Inl (ErrorString (''unsupported algorithm: '' @ parts ! 1))
      else (case atoi (trimPrefix (parts ! 2) ''v='') of
              None \<Rightarrow> Inl (ErrorString (''invalid version: '' @ parts ! 2))
            | Some version \<Rightarrow>
                if version \<noteq> int argon2Version
                then Inl (ErrorString (''unsupported argon2 version: '' @ showInt version))
                else (case parseParams (parts ! 3) of
                        Inl err \<Rightarrow> Inl err
                      | Inr params \<Rightarrow>
                          (case decode64 stdAlphabet (parts ! 4) of
                             None \<Rightarrow> Inl (Wrapped ''failed to decode salt''
                                          (ErrorString ''illegal base64 data''))
                           | Some salt \<Rightarrow>
                               (case decode64 stdAlphabet (parts ! 5) of
                                  None \<Rightarrow> Inl (Wrapped ''failed to decode hash''
                                               (ErrorString ''illegal base64 data''))
                                | Some hash \<Rightarrow>
                                    Inr (params\<lparr>hp_SaltLength := of_nat (length salt),
                                                hp_KeyLength := of_nat (length hash)\<rparr>,
                                         salt, hash))))))"

text \<open>The \<open>Sprintf\<close> of \<open>Hash\<close>.\<close>

definition encodePHC :: "hashing_config \<Rightarrow> string \<Rightarrow> string \<Rightarrow> string" where
  "encodePHC cfg salt hash =
     ''$argon2id$v='' @ showNat argon2Version @ ''$m='' @ showNat (unat (hc_Memory cfg)) @
     '',t='' @ showNat (unat (hc_Iterations cfg)) @ '',p='' @ showNat (unat (hc_Parallelism cfg)) @
     ''$'' @ encode64 stdAlphabet salt @ ''$'' @ encode64 stdAlphabet hash"

section \<open>Hash and Verify\<close>

definition hasherHash :: "env \<Rightarrow> hashing_config \<Rightarrow> string \<Rightarrow> ('z, go_error + string) io" where
  "hasherHash E cfg password = do {
     r \<leftarrow> randRead E (unat (hc_SaltLength cfg));
     State_Monad.return
       (case r of
          Inl err \<Rightarrow> Inl (Wrapped ''failed to generate salt'' err)
        | Inr salt \<Rightarrow>
            (let hash = argon2_IDKey E password salt (hc_Iterations cfg) (hc_Memory cfg)
                          (hc_Parallelism cfg) (hc_KeyLength cfg)
             in Inr (encodePHC cfg salt hash))) }"

definition paramsDiffer :: "hashing_config \<Rightarrow> hashing_params \<Rightarrow> bool" where
  "paramsDiffer cfg stored \<longleftrightarrow>
     hp_Memory stored \<noteq> hc_Memory cfg \<or> hp_Iterations stored \<noteq> hc_Iterations cfg \<or>
     hp_Parallelism stored \<noteq> hc_Parallelism cfg \<or> hp_SaltLength stored \<noteq> hc_SaltLength cfg \<or>
     hp_KeyLength stored \<noteq> hc_KeyLength cfg"

definition hasherVerify :: "env \<Rightarrow> hashing_config \<Rightarrow> string \<Rightarrow> string \<Rightarrow> go_error + (bool \<times> bool)" where
  "hasherVerify E cfg password encodedHash =
     (case decodePHC encodedHash of
        Inl err \<Rightarrow> Inl (Wrapped ''failed to decode hash'' err)
      | Inr (params, salt, hash) \<Rightarrow>
          (let computedHash = argon2_IDKey E password salt (hp_Iterations params) (hp_Memory params)
                                (hp_Parallelism params) (hp_KeyLength params);
               match = (hash = computedHash);
               needsRehash = (match \<and> paramsDiffer cfg params)
           in Inr (match, needsRehash)))"

definition NewArgon2idHasher :: "env \<Rightarrow> hashing_config \<Rightarrow> ('z world_scheme) hasher" where
  "NewArgon2idHasher E cfg = \<lparr>hash_Hash = hasherHash E cfg, hash_Verify = hasherVerify E cfg\<rparr>"

section \<open>Decoding what was encoded\<close>

lemma showNat_no: "c \<notin> set ''0123456789'' \<Longrightarrow> c \<notin> set (showNat n)"
  using showNat_digits by blast

lemma encode64_no: "c \<notin> set stdAlphabet \<Longrightarrow> c \<notin> set (encode64 stdAlphabet bs)"
  using encode64_alphabet [OF stdAlphabet_ok] by blast

definition paramString :: "nat \<Rightarrow> nat \<Rightarrow> nat \<Rightarrow> string" where
  "paramString m t p = ''m='' @ showNat m @ '',t='' @ showNat t @ '',p='' @ showNat p"

lemma splitN2_key: "k \<noteq> sep \<Longrightarrow> splitN2 sep (k # sep # v) = [[k], v]"
  by simp

lemma parseParams_paramString:
  assumes "m < 2 ^ 32" "t < 2 ^ 32" "p < 2 ^ 8"
  shows "parseParams (paramString m t p) =
     Inr (zeroParams\<lparr>hp_Memory := of_nat m, hp_Iterations := of_nat t, hp_Parallelism := of_nat p\<rparr>)"
proof -
  have no: "CHR '','' \<notin> set (k # CHR ''='' # showNat n)" if "k \<noteq> CHR '',''" for k n
    using that showNat_no [of "CHR '',''"] by auto
  have "splitOn CHR '','' (paramString m t p) =
      [''m='' @ showNat m, ''t='' @ showNat t, ''p='' @ showNat p]"
    using splitOn_append_sep [OF no [of "CHR ''m''" m], of "''t='' @ showNat t @ '',p='' @ showNat p"]
      splitOn_append_sep [OF no [of "CHR ''t''" t], of "''p='' @ showNat p"]
      splitOn_no_sep [OF no [of "CHR ''p''" p]]
    by (simp add: paramString_def del: splitOn.simps)
  with assms show ?thesis
    by (simp add: parseParams_def parseParam_def parseUint_showNat)
qed

lemma atoi_showNat_version: "atoi (showNat argon2Version) = Some (int argon2Version)"
  by code_simp

lemma split_encodePHC:
  "splitOn CHR ''$'' (encodePHC cfg salt hash) =
     ['''', ''argon2id'', ''v='' @ showNat argon2Version,
      paramString (unat (hc_Memory cfg)) (unat (hc_Iterations cfg)) (unat (hc_Parallelism cfg)),
      encode64 stdAlphabet salt, encode64 stdAlphabet hash]"
proof -
  let ?p = "paramString (unat (hc_Memory cfg)) (unat (hc_Iterations cfg)) (unat (hc_Parallelism cfg))"
  have p: "CHR ''$'' \<notin> set ?p"
    using showNat_no [of "CHR ''$''"] by (auto simp: paramString_def)
  have v: "CHR ''$'' \<notin> set (''v='' @ showNat argon2Version)"
    using showNat_no [of "CHR ''$''"] by auto
  have b: "CHR ''$'' \<notin> set (encode64 stdAlphabet bs)" for bs
    by (rule encode64_no) (simp add: stdAlphabet_def)
  have "encodePHC cfg salt hash = '''' @ CHR ''$'' # ''argon2id'' @ CHR ''$'' #
      (''v='' @ showNat argon2Version) @ CHR ''$'' # ?p @ CHR ''$'' #
      encode64 stdAlphabet salt @ CHR ''$'' # encode64 stdAlphabet hash"
    by (simp add: encodePHC_def paramString_def)
  then show ?thesis
    using p v b
    by (simp only: splitOn_append_sep splitOn_no_sep) (simp add: splitOn_append_sep splitOn_no_sep)
qed

lemma trimPrefix_version: "trimPrefix (CHR ''v'' # CHR ''='' # s) ''v='' = s"
  using trimPrefix_append [of "''v=''" s] by simp

lemma decodePHC_encodePHC:
  "decodePHC (encodePHC cfg salt hash) =
     Inr (\<lparr>hp_Memory = hc_Memory cfg, hp_Iterations = hc_Iterations cfg,
           hp_Parallelism = hc_Parallelism cfg, hp_SaltLength = of_nat (length salt),
           hp_KeyLength = of_nat (length hash)\<rparr>, salt, hash)"
proof -
  have "unat (hc_Memory cfg) < 2 ^ 32" "unat (hc_Iterations cfg) < 2 ^ 32" "unat (hc_Parallelism cfg) < 2 ^ 8"
    using unsigned_less [of "hc_Memory cfg"] unsigned_less [of "hc_Iterations cfg"]
      unsigned_less [of "hc_Parallelism cfg"] by simp_all
  then show ?thesis
    by (simp add: decodePHC_def Let_def split_encodePHC atoi_showNat_version parseParams_paramString
        decode64_encode64 stdAlphabet_ok zeroParams_def trimPrefix_version)
qed

section \<open>The contract of a hasher\<close>

text \<open>
  What the libraries promise: a derived key has the requested length, \<open>rand.Read\<close> fills the
  whole slice when it succeeds.
\<close>

definition argon2_contract :: "env \<Rightarrow> bool" where
  "argon2_contract E \<longleftrightarrow>
     (\<forall>pw salt t m p len. length (argon2_IDKey E pw salt t m p len) = unat len) \<and>
     (\<forall>t n bs. rand_read E t n = Inr bs \<longrightarrow> length bs = n)"

lemma sample_argon2_contract: "argon2_contract sampleEnv"
  by (simp add: argon2_contract_def) (simp add: sampleEnv_def min_def)

text \<open>
  What the password store assumes of its \<open>Hasher\<close>: hashing touches nothing but the call
  counter, and a fresh hash verifies its password without a request to rehash.
\<close>

locale password_hasher =
  fixes contract :: bool
    and hasher :: "('z world_scheme) hasher"
  assumes hash_ticks: "run_state (hash_Hash hasher pw) w = (r, w') \<Longrightarrow> \<exists>n. w' = w\<lparr>w_tick := n\<rparr>"
    and verify_hash: "contract \<Longrightarrow> run_state (hash_Hash hasher pw) w = (Inr h, w') \<Longrightarrow>
           hash_Verify hasher pw h = Inr (True, False)"
begin

lemma hash_db: "run_state (hash_Hash hasher pw) w = (r, w') \<Longrightarrow>
    w_db w' = w_db w \<and> w_tx w' = w_tx w \<and> w_mail w' = w_mail w \<and> world.more w' = world.more w"
  by (drule hash_ticks) auto

lemma inv_hash: "triple (Schema.inv I) (hash_Hash hasher pw) (\<lambda>_. Schema.inv I)"
  by (rule tripleI) (drule hash_ticks, auto)

lemma committed_hash: "triple (committed d n) (hash_Hash hasher pw) (\<lambda>_. committed d n)"
  by (rule tripleI) (drule hash_ticks, auto simp: committed_def)

lemma extra_hash: "triple (extra x) (hash_Hash hasher pw) (\<lambda>_. extra x)"
  by (rule tripleI) (drule hash_ticks, auto simp: extra_def)

end

lemma run_hasherHash:
  "run_state (hasherHash E cfg pw) w =
     (case rand_read E (w_tick w) (unat (hc_SaltLength cfg)) of
        Inl err \<Rightarrow> Inl (Wrapped ''failed to generate salt'' err)
      | Inr salt \<Rightarrow> Inr (encodePHC cfg salt (argon2_IDKey E pw salt (hc_Iterations cfg) (hc_Memory cfg)
                          (hc_Parallelism cfg) (hc_KeyLength cfg))), tickw w)"
  by (simp add: hasherHash_def Let_def split: sum.split)

lemma verify_encodePHC:
  "hasherVerify E cfg' pw' (encodePHC cfg salt key) =
     (let m = (key = argon2_IDKey E pw' salt (hc_Iterations cfg) (hc_Memory cfg)
                       (hc_Parallelism cfg) (of_nat (length key)))
      in Inr (m, m \<and> paramsDiffer cfg'
                   \<lparr>hp_Memory = hc_Memory cfg, hp_Iterations = hc_Iterations cfg,
                    hp_Parallelism = hc_Parallelism cfg, hp_SaltLength = of_nat (length salt),
                    hp_KeyLength = of_nat (length key)\<rparr>))"
  by (simp add: hasherVerify_def decodePHC_encodePHC Let_def)

text \<open>Verifying a fresh hash, with the hasher's own or another configuration.\<close>

lemma verify_fresh:
  assumes "argon2_contract E" and "run_state (hasherHash E cfg pw) w = (Inr h, w')"
  shows "hasherVerify E cfg' pw h = Inr (True, cfg' \<noteq> cfg)"
proof -
  obtain salt where salt: "rand_read E (w_tick w) (unat (hc_SaltLength cfg)) = Inr salt"
    and h: "h = encodePHC cfg salt (argon2_IDKey E pw salt (hc_Iterations cfg) (hc_Memory cfg)
                          (hc_Parallelism cfg) (hc_KeyLength cfg))"
    using assms(2) by (auto simp: run_hasherHash split: sum.splits)
  have len: "length salt = unat (hc_SaltLength cfg)"
    using assms(1) salt by (auto simp: argon2_contract_def)
  have "cfg' = cfg \<longleftrightarrow> hc_Memory cfg' = hc_Memory cfg \<and> hc_Iterations cfg' = hc_Iterations cfg \<and>
      hc_Parallelism cfg' = hc_Parallelism cfg \<and> hc_SaltLength cfg' = hc_SaltLength cfg \<and>
      hc_KeyLength cfg' = hc_KeyLength cfg"
    by auto
  with assms(1) len show ?thesis
    unfolding h verify_encodePHC
    by (auto simp: argon2_contract_def Let_def paramsDiffer_def)
qed

interpretation argon: password_hasher "argon2_contract E" "NewArgon2idHasher E cfg" for E cfg
proof (unfold_locales, goal_cases)
  case (1 pw w r w')
  then show ?case by (auto simp: NewArgon2idHasher_def run_hasherHash tickw_def)
next
  case (2 pw w h w')
  then show ?case by (simp add: NewArgon2idHasher_def verify_fresh)
qed

lemmas hasher_inv [inv_rules] = argon.inv_hash
lemmas hasher_committed [tx_rules] = argon.committed_hash
lemmas hasher_extra [extra_rules] = argon.extra_hash

section \<open>Properties\<close>

text \<open>
  C17 A hash verifies its password under every configuration, and the request to rehash is
  raised exactly when the configuration differs from the one that made the hash. The stored
  string determines the salt and the key, of the configured lengths, and the passwords that
  verify are exactly those from which Argon2id derives that key with that salt.
\<close>

theorem hash_verify:
  assumes "argon2_contract E" and "run_state (hasherHash E cfg pw) w = (Inr h, w')"
  shows "hasherVerify E cfg' pw h = Inr (True, cfg' \<noteq> cfg) \<and>
         (\<exists>params salt key. decodePHC h = Inr (params, salt, key) \<and>
            length salt = unat (hc_SaltLength cfg) \<and> length key = unat (hc_KeyLength cfg) \<and>
            (\<forall>pw'. (\<exists>b. hasherVerify E cfg' pw' h = Inr (True, b)) \<longleftrightarrow>
               argon2_IDKey E pw' salt (hc_Iterations cfg) (hc_Memory cfg)
                 (hc_Parallelism cfg) (hc_KeyLength cfg) = key))"
proof -
  obtain salt where salt: "rand_read E (w_tick w) (unat (hc_SaltLength cfg)) = Inr salt"
    and h: "h = encodePHC cfg salt (argon2_IDKey E pw salt (hc_Iterations cfg) (hc_Memory cfg)
                          (hc_Parallelism cfg) (hc_KeyLength cfg))"
    using assms(2) by (auto simp: run_hasherHash split: sum.splits)
  with assms(1) have "length salt = unat (hc_SaltLength cfg)"
    by (auto simp: argon2_contract_def)
  with assms(1) h verify_fresh [OF assms, of cfg'] show ?thesis
    by (auto simp: verify_encodePHC decodePHC_encodePHC Let_def argon2_contract_def)
qed

definition sampleHashing :: hashing_config where
  "sampleHashing = \<lparr>hc_Memory = 64, hc_Iterations = 1, hc_Parallelism = 1, hc_SaltLength = 2, hc_KeyLength = 6\<rparr>"

theorem hash_verify_witness:
  "\<exists>h w'. run_state (hasherHash sampleEnv sampleHashing ''pw'') (sampleWorld empty_db) = (Inr h, w') \<and>
     hasherVerify sampleEnv (sampleHashing\<lparr>hc_Memory := 128\<rparr>) ''pw'' h = Inr (True, True)"
proof -
  obtain h w' where run: "run_state (hasherHash sampleEnv sampleHashing ''pw'') (sampleWorld empty_db) = (Inr h, w')"
    by (simp add: run_hasherHash)
  show ?thesis
    using run hash_verify [OF sample_argon2_contract run, of "sampleHashing\<lparr>hc_Memory := 128\<rparr>"]
    by (auto simp: sampleHashing_def)
qed

text \<open>The value a parameter string gives to a key: that of its last occurrence, else zero.\<close>

definition pairValue :: "nat \<Rightarrow> string \<Rightarrow> string \<Rightarrow> nat option" where
  "pairValue bits k pair =
     (case splitN2 CHR ''='' pair of [k', v] \<Rightarrow> if k' = k then parseUint bits v else None | _ \<Rightarrow> None)"

definition lastValue :: "nat \<Rightarrow> string \<Rightarrow> string list \<Rightarrow> nat" where
  "lastValue bits k pairs = foldl (\<lambda>a p. case pairValue bits k p of None \<Rightarrow> a | Some n \<Rightarrow> n) 0 pairs"

definition validPair :: "string \<Rightarrow> bool" where
  "validPair p \<longleftrightarrow> pairValue 32 ''m'' p \<noteq> None \<or> pairValue 32 ''t'' p \<noteq> None \<or> pairValue 8 ''p'' p \<noteq> None"

lemma parseParam_value:
  "parseParam params p = Inr q \<longleftrightarrow> validPair p \<and>
     q = params\<lparr>hp_Memory := (case pairValue 32 ''m'' p of None \<Rightarrow> hp_Memory params | Some n \<Rightarrow> of_nat n),
                hp_Iterations := (case pairValue 32 ''t'' p of None \<Rightarrow> hp_Iterations params | Some n \<Rightarrow> of_nat n),
                hp_Parallelism := (case pairValue 8 ''p'' p of None \<Rightarrow> hp_Parallelism params | Some n \<Rightarrow> of_nat n)\<rparr>"
  by (auto simp: parseParam_def pairValue_def validPair_def split: list.splits option.splits if_splits)

lemma parsePairs_value:
  "parsePairs params ps = Inr q \<longleftrightarrow> (\<forall>p\<in>set ps. validPair p) \<and>
     q = params\<lparr>hp_Memory := foldl (\<lambda>a p. case pairValue 32 ''m'' p of None \<Rightarrow> a | Some n \<Rightarrow> of_nat n) (hp_Memory params) ps,
                hp_Iterations := foldl (\<lambda>a p. case pairValue 32 ''t'' p of None \<Rightarrow> a | Some n \<Rightarrow> of_nat n) (hp_Iterations params) ps,
                hp_Parallelism := foldl (\<lambda>a p. case pairValue 8 ''p'' p of None \<Rightarrow> a | Some n \<Rightarrow> of_nat n) (hp_Parallelism params) ps\<rparr>"
proof (induction ps arbitrary: params)
  case (Cons p ps)
  show ?case
  proof (cases "parseParam params p")
    case (Inl e)
    then have "\<not> validPair p" using parseParam_value by (metis Inl_Inr_False)
    with Inl show ?thesis by simp
  next
    case (Inr r)
    then show ?thesis using parseParam_value [of params p r] by (auto simp: Cons.IH)
  qed
qed auto

lemma foldl_of_nat:
  "foldl (\<lambda>a p. case f p of None \<Rightarrow> a | Some n \<Rightarrow> of_nat n) (of_nat k) ps =
     (of_nat (foldl (\<lambda>a p. case f p of None \<Rightarrow> a | Some n \<Rightarrow> n) k ps) :: 'a::len word)"
  by (induction ps arbitrary: k) (simp_all split: option.split)

text \<open>
  \<open>parseParams\<close> accepts exactly the comma-separated lists of \<open>m=\<close>, \<open>t=\<close> and \<open>p=\<close> pairs
  whose decimal values fit 32, 32 and 8 bits, in any order; the last occurrence of a key
  counts, and a key that does not occur is zero.
\<close>

theorem parseParams_spec:
  "parseParams s = Inr q \<longleftrightarrow>
     (\<forall>p\<in>set (splitOn CHR '','' s). validPair p) \<and>
     q = \<lparr>hp_Memory = of_nat (lastValue 32 ''m'' (splitOn CHR '','' s)),
          hp_Iterations = of_nat (lastValue 32 ''t'' (splitOn CHR '','' s)),
          hp_Parallelism = of_nat (lastValue 8 ''p'' (splitOn CHR '','' s)),
          hp_SaltLength = 0, hp_KeyLength = 0\<rparr>"
proof -
  have z: "(0 :: 'a::len word) = of_nat 0" by simp
  show ?thesis
    unfolding parseParams_def parsePairs_value zeroParams_def lastValue_def
    by (simp add: foldl_of_nat [of _ 0, simplified])
qed

theorem parseParams_spec_witness:
  "parseParams ''p=1,m=64,m=65'' =
     Inr \<lparr>hp_Memory = 65, hp_Iterations = 0, hp_Parallelism = 1, hp_SaltLength = 0, hp_KeyLength = 0\<rparr>"
  using parseParams_spec [of "''p=1,m=64,m=65''"]
  by (simp add: validPair_def lastValue_def pairValue_def parseUint_def digitVal_def)

end
