(* ===== verification/PasswordStore.thy ===== *)
theory PasswordStore
  imports Hasher
begin

text \<open>
  \<open>auth/password/store.go\<close>: the password identity store. A store is the record of its inner
  identity store, its query handle, its hasher and its configuration. Log lines are not
  modelled; a \<open>defer tx.Rollback\<close> is \<open>deferRollback\<close>.
\<close>

record register_request =
  rr_Email :: string
  rr_Password :: string
  rr_Username :: string
  rr_Name :: string

record 'w password_store =
  ps_Inner :: pg_identity_store
  ps_Queries :: dbtx
  ps_Hasher :: "'w hasher"
  ps_Config :: password_config

definition NewPasswordIdentityStore ::
    "env \<Rightarrow> bool \<Rightarrow> pg_identity_store option \<Rightarrow> password_config \<Rightarrow>
     go_error + ('z world_scheme) password_store" where
  "NewPasswordIdentityStore E hasPool inner cfg =
     (if \<not> hasPool then Inl (ErrorString ''postgres pool is required'')
      else (case inner of
              None \<Rightarrow> Inl (ErrorString ''identity store is required'')
            | Some i \<Rightarrow>
                (let conf = passwordDefaults cfg
                 in Inr \<lparr>ps_Inner = i, ps_Queries = OnPool,
                         ps_Hasher = NewArgon2idHasher E (pcfg_Hashing conf), ps_Config = conf\<rparr>)))"

text \<open>\<open>PasswordIdentityStore\<close> as an \<open>auth.IdentityStore\<close>: it delegates to the inner store.\<close>

definition passwordIdentityApi :: "env \<Rightarrow> ('z world_scheme) password_store \<Rightarrow> ('z world_scheme) identity_store_api" where
  "passwordIdentityApi E s =
     \<lparr>api_ResolveOrProvisionUser = ResolveOrProvisionUser E (ps_Inner s),
      api_ListMemberships = ListMemberships E (ps_Inner s),
      api_GetTenantDisplay = GetTenantDisplay E (ps_Inner s)\<rparr>"

abbreviation cfgIssuer :: "'w password_store \<Rightarrow> string" where
  "cfgIssuer s \<equiv> pcfg_Issuer (ps_Config s)"

definition passwordError :: "sentinel \<Rightarrow> nat \<Rightarrow> go_error" where
  "passwordError e st = PasswordError e st ''''"

section \<open>Registration\<close>

definition alreadyRegistered :: go_error where
  "alreadyRegistered = PasswordError ErrEmailAlreadyRegistered 409 ''an account with this email already exists''"

definition registrationIdentity :: "'w password_store \<Rightarrow> register_request \<Rightarrow> identity" where
  "registrationIdentity s req =
     \<lparr>id_Issuer = cfgIssuer s, id_Subject = rr_Email req, id_Email = rr_Email req,
      id_EmailVerified = False, id_Username = rr_Username req, id_Name = rr_Name req,
      id_PreferredUsername = '''', id_RawClaims = []\<rparr>"

text \<open>
  The part of \<open>register\<close> inside the transaction. \<open>beforeCommit\<close> returns what the closure of
  the caller keeps (the verification token).
\<close>

definition registerTx ::
    "env \<Rightarrow> ('z world_scheme) password_store \<Rightarrow> register_request \<Rightarrow> string \<Rightarrow>
     (user_ref \<Rightarrow> ('z, go_error + 'b) io) \<Rightarrow> ('z, go_error + (user_ref \<times> 'b)) io" where
  "registerTx E s req hash beforeCommit = do {
     existing \<leftarrow> GetUserByEmailAndIssuer E OnTx (rr_Email req) (cfgIssuer s);
     cred \<leftarrow> (case existing of
                Inl e \<Rightarrow> State_Monad.return (Inl e)
              | Inr u \<Rightarrow> GetPasswordCredential E OnTx (u_id u));
     if isOk cred then State_Monad.return (Inl alreadyRegistered)
     else do {
       userRef \<leftarrow> ResolveOrProvisionUser E (identityWithTx (ps_Inner s)) (registrationIdentity s req);
       case userRef of
         Inl err \<Rightarrow>
           State_Monad.return
             (if asPgError err = Some ''23505'' then Inl alreadyRegistered
              else Inl (Wrapped ''failed to create user'' err))
       | Inr ref \<Rightarrow> do {
           stored \<leftarrow> UpsertPasswordCredential E OnTx (ref_UserID ref) hash ''argon2id'';
           case stored of
             Inl err \<Rightarrow> State_Monad.return (Inl (Wrapped ''failed to store credential'' err))
           | Inr _ \<Rightarrow> do {
               before \<leftarrow> beforeCommit ref;
               case before of
                 Inl err \<Rightarrow> State_Monad.return (Inl err)
               | Inr b \<Rightarrow> do {
                   c \<leftarrow> commitTx E;
                   State_Monad.return
                     (case c of
                        Inl err \<Rightarrow> Inl (Wrapped ''failed to commit registration'' err)
                      | Inr _ \<Rightarrow> Inr (ref, b)) } } } } }"

definition register ::
    "env \<Rightarrow> ('z world_scheme) password_store \<Rightarrow> register_request \<Rightarrow>
     (user_ref \<Rightarrow> ('z, go_error + 'b) io) \<Rightarrow> ('z, go_error + (user_ref \<times> 'b)) io" where
  "register E s req beforeCommit =
     (if rr_Email req = '''' \<or> rr_Password req = ''''
      then State_Monad.return (Inl (policyViolation ''email and password are required''))
      else
        (let contextWords = [rr_Email req] @ (if rr_Username req \<noteq> '''' then [rr_Username req] else [])
         in case policyValidate E (pcfg_Policy (ps_Config s)) (rr_Password req) contextWords of
              Some err \<Rightarrow> State_Monad.return (Inl err)
            | None \<Rightarrow> do {
                hash \<leftarrow> hash_Hash (ps_Hasher s) (rr_Password req);
                case hash of
                  Inl err \<Rightarrow> State_Monad.return (Inl (Wrapped ''failed to hash password'' err))
                | Inr h \<Rightarrow> do {
                    b \<leftarrow> beginTx E;
                    case b of
                      Inl err \<Rightarrow> State_Monad.return (Inl (Wrapped ''failed to begin transaction'' err))
                    | Inr _ \<Rightarrow> deferRollback (registerTx E s req h beforeCommit) } }))"

definition Register ::
    "env \<Rightarrow> ('z world_scheme) password_store \<Rightarrow> register_request \<Rightarrow> ('z, go_error + user_ref) io" where
  "Register E s req = do {
     r \<leftarrow> register E s req (\<lambda>_. State_Monad.return (Inr ()));
     State_Monad.return (case r of Inl e \<Rightarrow> Inl e | Inr (ref, _) \<Rightarrow> Inr ref) }"

text \<open>\<open>queries\<close> is the pool, or the transaction of a registration.\<close>

definition initiateEmailVerification ::
    "env \<Rightarrow> 'w password_store \<Rightarrow> dbtx \<Rightarrow> uuid \<Rightarrow> ('z, go_error + string) io" where
  "initiateEmailVerification E s queries userID = do {
     _ \<leftarrow> InvalidateUserTokens E queries userID ''email_verification'';
     tok \<leftarrow> GenerateToken E (tc_TokenLength (pcfg_Tokens (ps_Config s)));
     case tok of
       Inl err \<Rightarrow> State_Monad.return (Inl (Wrapped ''failed to generate token'' err))
     | Inr (plaintext, hash) \<Rightarrow> do {
         now \<leftarrow> timeNow E;
         ins \<leftarrow> InsertAuthToken E queries userID hash ''email_verification''
                 (now + tc_VerificationTokenExpiry (pcfg_Tokens (ps_Config s)));
         State_Monad.return
           (case ins of
              Inl err \<Rightarrow> Inl (Wrapped ''failed to store token'' err)
            | Inr _ \<Rightarrow> Inr plaintext) } }"

definition InitiateEmailVerification ::
    "env \<Rightarrow> 'w password_store \<Rightarrow> uuid \<Rightarrow> ('z, go_error + string) io" where
  "InitiateEmailVerification E s userID = initiateEmailVerification E s (ps_Queries s) userID"

text \<open>The closure of \<open>RegisterWithEmailVerification\<close>.\<close>

definition verificationClosure ::
    "env \<Rightarrow> 'w password_store \<Rightarrow> register_request \<Rightarrow>
     (string \<Rightarrow> string \<Rightarrow> ('z, go_error option) io) option \<Rightarrow> user_ref \<Rightarrow> ('z, go_error + string) io" where
  "verificationClosure E s req send ref = do {
     token \<leftarrow> initiateEmailVerification E s OnTx (ref_UserID ref);
     case token of
       Inl err \<Rightarrow> State_Monad.return (Inl (Wrapped ''failed to generate verification token'' err))
     | Inr t \<Rightarrow>
         (case send of
            None \<Rightarrow> State_Monad.return (Inr t)
          | Some f \<Rightarrow> do {
              r \<leftarrow> f (rr_Email req) t;
              State_Monad.return
                (case r of
                   Some err \<Rightarrow> Inl (Wrapped ''failed to send verification email'' err)
                 | None \<Rightarrow> Inr t) }) }"

definition RegisterWithEmailVerification ::
    "env \<Rightarrow> ('z world_scheme) password_store \<Rightarrow> register_request \<Rightarrow>
     (string \<Rightarrow> string \<Rightarrow> ('z, go_error option) io) option \<Rightarrow>
     ('z, go_error + (user_ref \<times> string)) io" where
  "RegisterWithEmailVerification E s req send = register E s req (verificationClosure E s req send)"

section \<open>Authentication\<close>

definition dummyPassword :: string where
  "dummyPassword = ''dummy-password-for-timing''"

text \<open>The end of \<open>Authenticate\<close>, after the password matched.\<close>

definition finishLogin ::
    "env \<Rightarrow> ('z world_scheme) password_store \<Rightarrow> user \<Rightarrow> string \<Rightarrow> string option \<Rightarrow> bool \<Rightarrow>
     ('z, go_error + user_ref) io" where
  "finishLogin E s u password ipAddr needsRehash = do {
     _ \<leftarrow> RecordLoginAttempt E OnTx (u_id u) ipAddr True;
     if pcfg_RequireEmailVerification (ps_Config s) \<and> \<not> u_email_verified u
     then do {
       _ \<leftarrow> commitTx E;
       State_Monad.return (Inl (passwordError ErrEmailNotVerified 403)) }
     else do {
       _ \<leftarrow> UpdateLastLoginAt E OnTx (u_id u);
       c \<leftarrow> commitTx E;
       case c of
         Inl err \<Rightarrow> State_Monad.return (Inl (Wrapped ''failed to commit transaction'' err))
       | Inr _ \<Rightarrow> do {
           _ \<leftarrow> (if needsRehash
                 then do {
                   newHash \<leftarrow> hash_Hash (ps_Hasher s) password;
                   case newHash of
                     Inl _ \<Rightarrow> State_Monad.return (Inr ())
                   | Inr h \<Rightarrow> UpdatePasswordHash E (ps_Queries s) (u_id u) h }
                 else State_Monad.return (Inr ()));
           State_Monad.return (Inr \<lparr>ref_UserID = u_id u, ref_Issuer = u_issuer u,
                                    ref_Subject = u_subject u\<rparr>) } } }"

text \<open>The part of \<open>Authenticate\<close> inside the transaction; \<open>since\<close> starts the lockout window.\<close>

definition checkedLogin ::
    "env \<Rightarrow> ('z world_scheme) password_store \<Rightarrow> user \<Rightarrow> string \<Rightarrow> string \<Rightarrow> int \<Rightarrow>
     ('z, go_error + user_ref) io" where
  "checkedLogin E s u password ipAddress since = do {
     failedCount \<leftarrow> CountRecentFailedAttempts E OnTx (u_id u) since;
     case failedCount of
       Inl err \<Rightarrow> State_Monad.return (Inl (Wrapped ''failed to check lockout'' err))
     | Inr n \<Rightarrow>
         if IsLockedOut n (pcfg_Lockout (ps_Config s))
         then do {
           _ \<leftarrow> hash_Hash (ps_Hasher s) dummyPassword;
           State_Monad.return (Inl (passwordError ErrAccountLocked 423)) }
         else do {
           cred \<leftarrow> GetPasswordCredential E OnTx (u_id u);
           case cred of
             Inl err \<Rightarrow>
               State_Monad.return
                 (if err = ErrNoRows then Inl (passwordError ErrInvalidCredentials 401)
                  else Inl (Wrapped ''failed to fetch credential'' err))
           | Inr c \<Rightarrow>
               (case hash_Verify (ps_Hasher s) password (pc_password_hash c) of
                  Inl err \<Rightarrow> State_Monad.return (Inl (Wrapped ''failed to verify password'' err))
                | Inr (match, needsRehash) \<Rightarrow>
                    (let ipAddr = (if ipAddress \<noteq> '''' then parse_addr E ipAddress else None)
                     in if \<not> match
                        then do {
                          _ \<leftarrow> RecordLoginAttempt E OnTx (u_id u) ipAddr False;
                          _ \<leftarrow> commitTx E;
                          State_Monad.return (Inl (passwordError ErrInvalidCredentials 401)) }
                        else finishLogin E s u password ipAddr needsRehash)) } }"

definition authenticateTx ::
    "env \<Rightarrow> ('z world_scheme) password_store \<Rightarrow> user \<Rightarrow> string \<Rightarrow> string \<Rightarrow>
     ('z, go_error + user_ref) io" where
  "authenticateTx E s u password ipAddress = do {
     now \<leftarrow> timeNow E;
     checkedLogin E s u password ipAddress (now - lc_Window (pcfg_Lockout (ps_Config s))) }"

definition Authenticate ::
    "env \<Rightarrow> ('z world_scheme) password_store \<Rightarrow> string \<Rightarrow> string \<Rightarrow> string \<Rightarrow>
     ('z, go_error + user_ref) io" where
  "Authenticate E s email password ipAddress = do {
     found \<leftarrow> GetUserByEmailAndIssuer E (ps_Queries s) email (cfgIssuer s);
     case found of
       Inl err \<Rightarrow>
         if err = ErrNoRows
         then do {
           _ \<leftarrow> hash_Hash (ps_Hasher s) dummyPassword;
           State_Monad.return (Inl (passwordError ErrInvalidCredentials 401)) }
         else State_Monad.return (Inl (Wrapped ''failed to query user'' err))
     | Inr u \<Rightarrow> do {
         b \<leftarrow> beginTx E;
         case b of
           Inl err \<Rightarrow> State_Monad.return (Inl (Wrapped ''failed to begin transaction'' err))
         | Inr _ \<Rightarrow> deferRollback (authenticateTx E s u password ipAddress) } }"

section \<open>Changing and resetting passwords\<close>

definition userContextWords :: "user \<Rightarrow> string list" where
  "userContextWords u =
     [u_email u] @ (case u_username u of Some n \<Rightarrow> if n \<noteq> '''' then [n] else [] | None \<Rightarrow> [])"

text \<open>The common tail of \<open>ChangePassword\<close> and \<open>CompletePasswordReset\<close>; \<open>m\<close> is the hash error's text.\<close>

definition storeNewPassword ::
    "env \<Rightarrow> ('z world_scheme) password_store \<Rightarrow> uuid \<Rightarrow> string \<Rightarrow> string \<Rightarrow> ('z, go_error + unit) io" where
  "storeNewPassword E s userID newPassword m = do {
     user \<leftarrow> GetUserByID E (ps_Queries s) userID;
     case user of
       Inl err \<Rightarrow> State_Monad.return (Inl (Wrapped ''failed to fetch user'' err))
     | Inr u \<Rightarrow>
         (case policyValidate E (pcfg_Policy (ps_Config s)) newPassword (userContextWords u) of
            Some policyErr \<Rightarrow> State_Monad.return (Inl policyErr)
          | None \<Rightarrow> do {
              newHash \<leftarrow> hash_Hash (ps_Hasher s) newPassword;
              case newHash of
                Inl err \<Rightarrow> State_Monad.return (Inl (Wrapped m err))
              | Inr h \<Rightarrow> do {
                  upd \<leftarrow> UpdatePasswordHash E (ps_Queries s) userID h;
                  State_Monad.return
                    (case upd of
                       Inl err \<Rightarrow> Inl (Wrapped ''failed to update password'' err)
                     | Inr _ \<Rightarrow> Inr ()) } }) }"

definition ChangePassword ::
    "env \<Rightarrow> ('z world_scheme) password_store \<Rightarrow> uuid \<Rightarrow> string \<Rightarrow> string \<Rightarrow> ('z, go_error + unit) io" where
  "ChangePassword E s userID oldPassword newPassword = do {
     cred \<leftarrow> GetPasswordCredential E (ps_Queries s) userID;
     case cred of
       Inl err \<Rightarrow>
         State_Monad.return
           (if err = ErrNoRows then Inl (passwordError ErrUserNotFound 404)
            else Inl (Wrapped ''failed to fetch credential'' err))
     | Inr c \<Rightarrow>
         (case hash_Verify (ps_Hasher s) oldPassword (pc_password_hash c) of
            Inl err \<Rightarrow> State_Monad.return (Inl (Wrapped ''failed to verify password'' err))
          | Inr (match, _) \<Rightarrow>
              if \<not> match then State_Monad.return (Inl (passwordError ErrInvalidCredentials 401))
              else do {
                stored \<leftarrow> storeNewPassword E s userID newPassword ''failed to hash new password'';
                case stored of
                  Inl err \<Rightarrow> State_Monad.return (Inl err)
                | Inr _ \<Rightarrow> do {
                    _ \<leftarrow> InvalidateUserTokens E (ps_Queries s) userID ''password_reset'';
                    State_Monad.return (Inr ()) } }) }"

definition InitiatePasswordReset ::
    "env \<Rightarrow> 'w password_store \<Rightarrow> string \<Rightarrow> ('z, go_error + string) io" where
  "InitiatePasswordReset E s email = do {
     found \<leftarrow> GetUserByEmailAndIssuer E (ps_Queries s) email (cfgIssuer s);
     case found of
       Inl _ \<Rightarrow> State_Monad.return (Inr '''')
     | Inr u \<Rightarrow> do {
         _ \<leftarrow> InvalidateUserTokens E (ps_Queries s) (u_id u) ''password_reset'';
         tok \<leftarrow> GenerateToken E (tc_TokenLength (pcfg_Tokens (ps_Config s)));
         case tok of
           Inl err \<Rightarrow> State_Monad.return (Inl (Wrapped ''failed to generate token'' err))
         | Inr (plaintext, hash) \<Rightarrow> do {
             now \<leftarrow> timeNow E;
             ins \<leftarrow> InsertAuthToken E (ps_Queries s) (u_id u) hash ''password_reset''
                     (now + tc_ResetTokenExpiry (pcfg_Tokens (ps_Config s)));
             State_Monad.return
               (case ins of
                  Inl err \<Rightarrow> Inl (Wrapped ''failed to store token'' err)
                | Inr _ \<Rightarrow> Inr plaintext) } } }"

definition consumeToken :: "env \<Rightarrow> 'w password_store \<Rightarrow> string \<Rightarrow> string \<Rightarrow> ('z, go_error + uuid) io" where
  "consumeToken E s token ty = do {
     r \<leftarrow> ConsumeAuthToken E (ps_Queries s) (sha256Sum E token) ty;
     State_Monad.return
       (case r of
          Inl err \<Rightarrow>
            if err = ErrNoRows then Inl (passwordError ErrTokenInvalid 400)
            else Inl (Wrapped ''failed to consume token'' err)
        | Inr uid \<Rightarrow> Inr uid) }"

definition CompletePasswordReset ::
    "env \<Rightarrow> ('z world_scheme) password_store \<Rightarrow> string \<Rightarrow> string \<Rightarrow> ('z, go_error + unit) io" where
  "CompletePasswordReset E s token newPassword = do {
     consumed \<leftarrow> consumeToken E s token ''password_reset'';
     case consumed of
       Inl err \<Rightarrow> State_Monad.return (Inl err)
     | Inr userID \<Rightarrow> storeNewPassword E s userID newPassword ''failed to hash password'' }"

definition VerifyEmail :: "env \<Rightarrow> 'w password_store \<Rightarrow> string \<Rightarrow> ('z, go_error + unit) io" where
  "VerifyEmail E s token = do {
     consumed \<leftarrow> consumeToken E s token ''email_verification'';
     case consumed of
       Inl err \<Rightarrow> State_Monad.return (Inl err)
     | Inr userID \<Rightarrow> do {
         upd \<leftarrow> UpdateEmailVerified E (ps_Queries s) userID;
         State_Monad.return
           (case upd of
              Inl err \<Rightarrow> Inl (Wrapped ''failed to update email verified'' err)
            | Inr _ \<Rightarrow> Inr ()) } }"

section \<open>The store keeps the schema\<close>

lemma new_store:
  "NewPasswordIdentityStore E hasPool inner cfg = Inr s \<Longrightarrow>
     ps_Queries s = OnPool \<and> ps_Hasher s = NewArgon2idHasher E (pcfg_Hashing (ps_Config s)) \<and>
     ps_Config s = passwordDefaults cfg \<and> inner = Some (ps_Inner s)"
  by (auto simp: NewPasswordIdentityStore_def Let_def split: if_splits option.splits)

lemma inv_initiateEmailVerification [inv_rules]:
  "stmt_inv I \<Longrightarrow> triple (Schema.inv I) (initiateEmailVerification E s h u) (\<lambda>_. Schema.inv I)"
  unfolding initiateEmailVerification_def query_defs
  by (intro triple_bind_inv triple_rules inv_rules preserves_rules)

lemma inv_InitiatePasswordReset [inv_rules]:
  "stmt_inv I \<Longrightarrow> triple (Schema.inv I) (InitiatePasswordReset E s email) (\<lambda>_. Schema.inv I)"
  unfolding InitiatePasswordReset_def query_defs
  by (intro triple_bind_inv triple_rules inv_rules preserves_rules)

lemma inv_consumeToken [inv_rules]:
  "stmt_inv I \<Longrightarrow> triple (Schema.inv I) (consumeToken E s token ty) (\<lambda>_. Schema.inv I)"
  unfolding consumeToken_def query_defs
  by (intro triple_bind_inv triple_rules inv_rules preserves_rules)

lemma inv_VerifyEmail [inv_rules]:
  "stmt_inv I \<Longrightarrow> triple (Schema.inv I) (VerifyEmail E s token) (\<lambda>_. Schema.inv I)"
  unfolding VerifyEmail_def query_defs
  by (intro triple_bind_inv triple_rules inv_rules preserves_rules)

lemma committed_initiateEmailVerification [tx_rules]:
  "triple (committed d n) (initiateEmailVerification E s OnTx u) (\<lambda>_. committed d n)"
  unfolding initiateEmailVerification_def query_defs
  by (intro triple_bind_inv triple_rules tx_rules)

lemma extra_password_store [extra_rules]:
  "triple (extra x) (initiateEmailVerification E s h u) (\<lambda>_. extra x)"
  "triple (extra x) (InitiatePasswordReset E s email) (\<lambda>_. extra x)"
  "triple (extra x) (consumeToken E s token ty) (\<lambda>_. extra x)"
  "triple (extra x) (VerifyEmail E s token) (\<lambda>_. extra x)"
  unfolding initiateEmailVerification_def InitiatePasswordReset_def consumeToken_def VerifyEmail_def query_defs
  by (intro triple_bind_inv triple_rules extra_rules)+

text \<open>The operations that hash, for every hasher that keeps its contract.\<close>

context password_hasher
begin

lemma inv_registerTx:
  assumes "\<And>ref. triple (Schema.inv I) (before ref) (\<lambda>_. Schema.inv I)"
  shows "stmt_inv I \<Longrightarrow> triple (Schema.inv I) (registerTx E s req h before) (\<lambda>_. Schema.inv I)"
  unfolding registerTx_def query_defs
  by (intro triple_bind_inv triple_rules inv_rules preserves_rules assms)

lemma inv_register:
  assumes "ps_Hasher s = hasher"
    and "\<And>ref. triple (Schema.inv I) (before ref) (\<lambda>_. Schema.inv I)"
  shows "stmt_inv I \<Longrightarrow> triple (Schema.inv I) (register E s req before) (\<lambda>_. Schema.inv I)"
  unfolding register_def Let_def assms(1)
  by (intro triple_bind_inv triple_rules inv_rules inv_hash inv_registerTx assms(2))

lemma inv_finishLogin:
  assumes "ps_Hasher s = hasher"
  shows "stmt_inv I \<Longrightarrow> triple (Schema.inv I) (finishLogin E s u pw ip re) (\<lambda>_. Schema.inv I)"
  unfolding finishLogin_def assms query_defs
  by (intro triple_bind_inv triple_rules inv_rules preserves_rules inv_hash)

lemma inv_authenticateTx:
  assumes "ps_Hasher s = hasher"
  shows "stmt_inv I \<Longrightarrow> triple (Schema.inv I) (authenticateTx E s u pw ip) (\<lambda>_. Schema.inv I)"
  unfolding authenticateTx_def checkedLogin_def Let_def query_defs
  by (intro triple_bind_inv triple_rules inv_rules preserves_rules inv_finishLogin assms)
    (simp_all add: assms inv_hash)

lemma inv_Authenticate:
  assumes "ps_Hasher s = hasher"
  shows "stmt_inv I \<Longrightarrow> triple (Schema.inv I) (Authenticate E s email pw ip) (\<lambda>_. Schema.inv I)"
  unfolding Authenticate_def query_defs
  by (intro triple_bind_inv triple_rules inv_rules preserves_rules inv_authenticateTx assms)
    (simp_all add: assms inv_hash)

lemma inv_storeNewPassword:
  assumes "ps_Hasher s = hasher"
  shows "stmt_inv I \<Longrightarrow> triple (Schema.inv I) (storeNewPassword E s u pw m) (\<lambda>_. Schema.inv I)"
  unfolding storeNewPassword_def assms query_defs
  by (intro triple_bind_inv triple_rules inv_rules preserves_rules inv_hash)

lemma inv_ChangePassword:
  assumes "ps_Hasher s = hasher"
  shows "stmt_inv I \<Longrightarrow> triple (Schema.inv I) (ChangePassword E s u old new) (\<lambda>_. Schema.inv I)"
  unfolding ChangePassword_def query_defs
  by (intro triple_bind_inv triple_rules inv_rules preserves_rules inv_storeNewPassword assms)

lemma inv_CompletePasswordReset:
  assumes "ps_Hasher s = hasher"
  shows "stmt_inv I \<Longrightarrow> triple (Schema.inv I) (CompletePasswordReset E s tok new) (\<lambda>_. Schema.inv I)"
  unfolding CompletePasswordReset_def query_defs
  by (intro triple_bind_inv triple_rules inv_rules preserves_rules inv_storeNewPassword assms)

lemma extra_hashing_operations:
  assumes "ps_Hasher s = hasher"
  shows "triple (extra x) (Authenticate E s email pw ip) (\<lambda>_. extra x)"
    and "triple (extra x) (ChangePassword E s u old new) (\<lambda>_. extra x)"
    and "triple (extra x) (CompletePasswordReset E s tok new) (\<lambda>_. extra x)"
  unfolding Authenticate_def authenticateTx_def checkedLogin_def finishLogin_def ChangePassword_def
    CompletePasswordReset_def storeNewPassword_def Let_def assms query_defs
  by (intro triple_bind_inv triple_rules extra_rules extra_hash)+

lemma extra_register:
  assumes "ps_Hasher s = hasher"
    and "\<And>ref. triple (extra x) (before ref) (\<lambda>_. extra x)"
  shows "triple (extra x) (register E s req before) (\<lambda>_. extra x)"
  unfolding register_def registerTx_def Let_def assms(1) query_defs
  by (intro triple_bind_inv triple_rules extra_rules extra_hash assms(2))

text \<open>Nothing is committed before the last step of a registration.\<close>

lemma registerTx_atomic:
  assumes "ps_Hasher s = hasher"
    and "\<And>ref. triple (committed d n) (before ref) (\<lambda>_. committed d n)"
  shows "triple (committed d n) (registerTx E s req h before) (\<lambda>r w. isOk r \<or> w_db w = d)"
proof -
  have commit: "triple (committed d n) (do { c \<leftarrow> commitTx E;
        State_Monad.return (case c of Inl e \<Rightarrow> Inl (f e) | Inr _ \<Rightarrow> Inr v) })
      (\<lambda>r w. isOk r \<or> w_db w = d)" for f :: "go_error \<Rightarrow> go_error" and v
    by (rule tripleI)
      (auto simp: commitTx_def nextTick_def committed_def split: option.splits if_splits)
  note tx = triple_bind [where R = "\<lambda>_. committed d n"] tx_rules committed_hash
    committed_identity_store identityWithTx_handle assms(2)
  show ?thesis
    unfolding registerTx_def query_defs
    by (intro commit triple_rules tx) (simp_all add: committed_def)
qed

lemma hash_committed: "triple (\<lambda>w. w_db w = d) (hash_Hash hasher pw) (\<lambda>_ w. w_db w = d)"
  by (rule tripleI) (drule hash_db, simp)

lemma register_atomic:
  assumes "ps_Hasher s = hasher"
    and "\<And>ref n. triple (committed d n) (before ref) (\<lambda>_. committed d n)"
  shows "triple (\<lambda>w. w_db w = d) (register E s req before) (\<lambda>r w. isOk r \<or> w_db w = d)"
proof -
  have tx: "triple (\<lambda>w. \<exists>n. intx d n (\<lambda>x. x = d) w) (registerTx E s req h before)
      (\<lambda>r w. isOk r \<or> w_db w = d)" for h
    by (rule triple_ex, rule triple_pre [OF registerTx_atomic [OF assms]]) (rule intx_committed)
  show ?thesis
    unfolding register_def Let_def assms(1)
    by (intro triple_rules triple_bind [OF hash_committed] triple_bind [OF intx_begin]
        committed_deferRollback) (auto intro!: triple_pre [OF tx] triple_return)
qed

end

end
