(* ===== verification/Logins.thy ===== *)
theory Logins
  imports PasswordStore
begin

text \<open>
  What \<open>Authenticate\<close> does: the login as a function \<open>loginStep\<close> on the tables, the refinement of
  the transaction code to it in a healthy environment and under faults, and the properties of
  logins and of the lockout.
\<close>

section \<open>The login step\<close>

text \<open>What a login does to the tables, as a function.\<close>

definition localUser :: "database \<Rightarrow> string \<Rightarrow> string \<Rightarrow> user option" where
  "localUser d email issuer = find (\<lambda>u. u_email u = email \<and> u_issuer u = issuer) (users d)"

definition credentialOf :: "database \<Rightarrow> uuid \<Rightarrow> password_credential option" where
  "credentialOf d uid = find (\<lambda>c. pc_user_id c = uid) (credentials d)"

definition recentFailures :: "database \<Rightarrow> uuid \<Rightarrow> int \<Rightarrow> nat" where
  "recentFailures d uid since = length (filter (recentFailure uid since) (attempts d))"

definition addAttempt :: "uuid \<Rightarrow> string option \<Rightarrow> bool \<Rightarrow> int \<Rightarrow> database \<Rightarrow> database" where
  "addAttempt uid ip ok now d = d\<lparr>attempts := attempts d @
     [\<lparr>la_user_id = uid, la_attempted_at = now, la_ip_address = ip, la_success = ok\<rparr>]\<rparr>"

definition touchLogin :: "uuid \<Rightarrow> int \<Rightarrow> database \<Rightarrow> database" where
  "touchLogin uid now d = d\<lparr>users := map (\<lambda>u. if u_id u = uid
     then u\<lparr>u_last_login_at := Some now, u_updated_at := now\<rparr> else u) (users d)\<rparr>"

definition setHash :: "uuid \<Rightarrow> string \<Rightarrow> int \<Rightarrow> database \<Rightarrow> database" where
  "setHash uid h now d = d\<lparr>credentials := map (\<lambda>c. if pc_user_id c = uid
     then c\<lparr>pc_password_hash := h, pc_updated_at := now\<rparr> else c) (credentials d)\<rparr>"

definition refOf :: "user \<Rightarrow> user_ref" where
  "refOf u = \<lparr>ref_UserID = u_id u, ref_Issuer = u_issuer u, ref_Subject = u_subject u\<rparr>"

definition applyRehash :: "uuid \<Rightarrow> (string \<times> int) option \<Rightarrow> database \<Rightarrow> database" where
  "applyRehash uid r d = (case r of None \<Rightarrow> d | Some (h, now) \<Rightarrow> setHash uid h now d)"

text \<open>
  \<open>cutoff\<close> is the start of the lockout window, \<open>now\<close> the time of the transaction, \<open>rehash\<close>
  the new hash and its time when one is stored.
\<close>

definition loginStep ::
    "'w password_store \<Rightarrow> string option \<Rightarrow> int \<Rightarrow> int \<Rightarrow> (string \<times> int) option \<Rightarrow>
     string \<Rightarrow> string \<Rightarrow> database \<Rightarrow> (go_error + user_ref) \<times> database" where
  "loginStep s ip cutoff now rehash email pw d =
     (case localUser d email (cfgIssuer s) of
        None \<Rightarrow> (Inl (passwordError ErrInvalidCredentials 401), d)
      | Some u \<Rightarrow>
          if IsLockedOut (recentFailures d (u_id u) cutoff) (pcfg_Lockout (ps_Config s))
          then (Inl (passwordError ErrAccountLocked 423), d)
          else (case credentialOf d (u_id u) of
                  None \<Rightarrow> (Inl (passwordError ErrInvalidCredentials 401), d)
                | Some c \<Rightarrow>
                    (case hash_Verify (ps_Hasher s) pw (pc_password_hash c) of
                       Inl e \<Rightarrow> (Inl (Wrapped ''failed to verify password'' e), d)
                     | Inr (match, needsRehash) \<Rightarrow>
                         if \<not> match
                         then (Inl (passwordError ErrInvalidCredentials 401),
                               addAttempt (u_id u) ip False now d)
                         else if pcfg_RequireEmailVerification (ps_Config s) \<and> \<not> u_email_verified u
                         then (Inl (passwordError ErrEmailNotVerified 403),
                               addAttempt (u_id u) ip True now d)
                         else (Inr (refOf u),
                               applyRehash (u_id u) (if needsRehash then rehash else None)
                                 (touchLogin (u_id u) now (addAttempt (u_id u) ip True now d))))))"

text \<open>The hash that a login computes in world \<open>w\<close> and the time at which it is stored.\<close>

definition rehashFrom ::
    "env \<Rightarrow> ('z world_scheme) hasher \<Rightarrow> string \<Rightarrow> 'z world_scheme \<Rightarrow> (string \<times> int) option" where
  "rehashFrom E hasher pw w =
     (case run_state (hash_Hash hasher pw) w of
        (Inl _, _) \<Rightarrow> None
      | (Inr h, w') \<Rightarrow> Some (h, db_now E (w_tick w')))"

text \<open>Every hash that is stored is one of the password.\<close>

definition rehashOf :: "('z world_scheme) hasher \<Rightarrow> string \<Rightarrow> (string \<times> int) option \<Rightarrow> bool" where
  "rehashOf hasher pw rehash \<longleftrightarrow>
     (\<forall>h t. rehash = Some (h, t) \<longrightarrow> (\<exists>w w'. run_state (hash_Hash hasher pw) w = (Inr h, w')))"

lemma rehashOf_None [simp]: "rehashOf hasher pw None"
  by (simp add: rehashOf_def)

lemma rehashOf_ex [simp]: "\<exists>rehash. rehashOf hasher pw rehash"
  by (rule exI [of _ None]) simp

lemma rehashOf_from: "rehashOf hasher pw (rehashFrom E hasher pw w)"
  by (auto simp: rehashOf_def rehashFrom_def split: prod.splits sum.splits)

definition ipOf :: "env \<Rightarrow> string \<Rightarrow> string option" where
  "ipOf E ipAddress = (if ipAddress \<noteq> '''' then parse_addr E ipAddress else None)"

lemma localUser_Some: "localUser d email issuer = Some u \<Longrightarrow>
    u \<in> set (users d) \<and> u_email u = email \<and> u_issuer u = issuer"
  by (auto simp: localUser_def dest: find_Some_set)

lemma localUser_exists: "localUser d email issuer = Some u \<Longrightarrow> userExists d (u_id u)"
  by (auto simp: userExists_def dest: localUser_Some)

lemma run_GetUserByEmailAndIssuer_pool:
  "run_state (GetUserByEmailAndIssuer E OnPool email issuer) w =
     (case db_fault E (w_tick w) of
        Some f \<Rightarrow> (Inl (faultError f), tickw w)
      | None \<Rightarrow> (case localUser (w_db w) email issuer of None \<Rightarrow> Inl ErrNoRows | Some u \<Rightarrow> Inr u, tickw w))"
  by (simp add: GetUserByEmailAndIssuer_def sqlGetUserByEmailAndIssuer_def localUser_def filter_find tickw_def
      split: option.splits)

text \<open>How a statement runs in a healthy transaction.\<close>

lemma run_tx [simp]:
  assumes "w_tx w = Some x" "\<not> tx_aborted x" "healthy E" "st (tx_now x) (tx_db x) = Inr (rows, d)"
  shows "run_state (queryRow E OnTx st) w =
      (case rows of [] \<Rightarrow> Inl ErrNoRows | y # _ \<Rightarrow> Inr y, (tickw w)\<lparr>w_tx := Some (x\<lparr>tx_db := d\<rparr>)\<rparr>)"
    and "run_state (execStmt E OnTx st) w = (Inr (), (tickw w)\<lparr>w_tx := Some (x\<lparr>tx_db := d\<rparr>)\<rparr>)"
  using assms by (simp_all add: queryRow_def execStmt_def split: list.split)

lemma query_attempts [simp]:
  "sqlCountRecentFailedAttempts uid since now d = Inr ([recentFailures d uid since], d)"
  by (simp add: sqlCountRecentFailedAttempts_def recentFailures_def)

text \<open>A healthy transaction whose tables are still \<open>d\<close>.\<close>

definition freshTx :: "database \<Rightarrow> int \<Rightarrow> 'z world_scheme \<Rightarrow> bool" where
  "freshTx d now w \<longleftrightarrow> w_db w = d \<and> w_tx w = Some \<lparr>tx_db = d, tx_now = now, tx_aborted = False\<rparr>"

lemma freshTx_tick [simp]: "freshTx d now (tickw w) = freshTx d now w"
  by (simp add: freshTx_def)

lemma freshTx_read:
  assumes "freshTx d now w" and "healthy E" and "st now d = Inr (rows, d)"
  shows "\<exists>w'. run_state (queryRow E OnTx st) w = (case rows of [] \<Rightarrow> Inl ErrNoRows | y # _ \<Rightarrow> Inr y, w') \<and>
           freshTx d now w' \<and> w_tick w' = Suc (w_tick w)"
  using assms by (simp add: freshTx_def)

context password_hasher
begin

lemma run_finishLogin_healthy:
  assumes "healthy E" and "ps_Hasher s = hasher" and "ps_Queries s = OnPool"
    and "w_tx w = Some x" "\<not> tx_aborted x" "userExists (tx_db x) (u_id u)"
    and "run_state (finishLogin E s u pw ip re) w = (r, w')"
  shows "if pcfg_RequireEmailVerification (ps_Config s) \<and> \<not> u_email_verified u
         then r = Inl (passwordError ErrEmailNotVerified 403) \<and>
              w_db w' = addAttempt (u_id u) ip True (tx_now x) (tx_db x)
         else r = Inr (refOf u) \<and>
              (\<exists>w1. w_tick w1 = w_tick w + 3 \<and>
                 w_db w' = applyRehash (u_id u) (if re then rehashFrom E hasher pw w1 else None)
                   (touchLogin (u_id u) (tx_now x) (addAttempt (u_id u) ip True (tx_now x) (tx_db x))))"
proof -
  let ?d = "touchLogin (u_id u) (tx_now x) (addAttempt (u_id u) ip True (tx_now x) (tx_db x))"
  let ?w1 = "(tickw (tickw (tickw w\<lparr>w_tx := Some (x\<lparr>tx_db := addAttempt (u_id u) ip True (tx_now x) (tx_db x)\<rparr>)\<rparr>)
     \<lparr>w_tx := Some (x\<lparr>tx_db := ?d\<rparr>)\<rparr>))\<lparr>w_tx := None, w_db := ?d\<rparr>"
  have w1: "w_tick ?w1 = w_tick w + 3" by simp
  have ok: "r = Inr (refOf u) \<and> w_db w' = applyRehash (u_id u) (if re then rehashFrom E hasher pw ?w1 else None) ?d"
    if "\<not> (pcfg_RequireEmailVerification (ps_Config s) \<and> \<not> u_email_verified u)"
  proof -
    obtain res w2 where h: "run_state (hash_Hash hasher pw) ?w1 = (res, w2)" by fastforce
    show ?thesis
      using assms(1,3-7) that h hash_db [OF h]
      by (cases res)
        (auto simp: finishLogin_def RecordLoginAttempt_def sqlRecordLoginAttempt_def assms(2)
          UpdateLastLoginAt_def sqlUpdateLastLoginAt_def refOf_def UpdatePasswordHash_def
          sqlUpdatePasswordHash_def applyRehash_def rehashFrom_def
          simp flip: addAttempt_def touchLogin_def setHash_def split: if_splits)
  qed
  show ?thesis
  proof (cases "pcfg_RequireEmailVerification (ps_Config s) \<and> \<not> u_email_verified u")
    case True
    with assms(1,3-7) show ?thesis
      by (auto simp: finishLogin_def RecordLoginAttempt_def sqlRecordLoginAttempt_def addAttempt_def)
  next
    case False
    with ok [OF False] w1 show ?thesis by (metis (no_types, lifting))
  qed
qed

lemma run_authenticateTx_healthy:
  assumes "healthy E" and "ps_Hasher s = hasher" and "ps_Queries s = OnPool"
    and tx: "freshTx d now w"
    and u: "localUser d email (cfgIssuer s) = Some u"
    and run: "run_state (authenticateTx E s u pw ip) w = (r, w')"
  shows "\<exists>w1. w_tick w1 = w_tick w + 6 \<and> (r, w_db w') = loginStep s (ipOf E ip)
           (app_now E (w_tick w) - lc_Window (pcfg_Lockout (ps_Config s))) now (rehashFrom E hasher pw w1) email pw d"
proof -
  let ?since = "app_now E (w_tick w) - lc_Window (pcfg_Lockout (ps_Config s))"
  obtain w1 where w1: "run_state (CountRecentFailedAttempts E OnTx (u_id u) ?since) (tickw w) =
      (Inr (recentFailures d (u_id u) ?since), w1)" "freshTx d now w1"
      "w_tick w1 = w_tick w + 2"
    using freshTx_read [OF _ assms(1), of d now "tickw w"
        "sqlCountRecentFailedAttempts (u_id u) ?since"] tx
    by (auto simp: CountRecentFailedAttempts_def)
  obtain w2 where w2: "run_state (GetPasswordCredential E OnTx (u_id u)) w1 =
      (case credentialOf d (u_id u) of None \<Rightarrow> Inl ErrNoRows | Some c \<Rightarrow> Inr c, w2)" "freshTx d now w2"
      "w_tick w2 = w_tick w + 3"
    using freshTx_read [OF w1(2) assms(1), of "sqlGetPasswordCredential (u_id u)"] w1(3)
    by (auto simp: GetPasswordCredential_def sqlGetPasswordCredential_def filter_find credentialOf_def)
  note ex = localUser_exists [OF u]
  have any: "\<exists>w1 :: 'z world_scheme. w_tick w1 = w_tick w + 6" by (rule exI [of _ "w\<lparr>w_tick := w_tick w + 6\<rparr>"]) simp
  show ?thesis
  proof (cases "IsLockedOut (recentFailures d (u_id u) ?since) (pcfg_Lockout (ps_Config s))")
    case True
    with run u w1 any show ?thesis
      by (auto simp: authenticateTx_def checkedLogin_def loginStep_def assms(2) freshTx_def dest!: hash_db
          split: prod.splits)
  next
    case False
    show ?thesis
    proof (cases "credentialOf d (u_id u)")
      case None
      with False run u w1 w2 any show ?thesis
        by (simp add: authenticateTx_def checkedLogin_def loginStep_def freshTx_def)
    next
      case (Some c)
      show ?thesis
      proof (cases "hash_Verify (ps_Hasher s) pw (pc_password_hash c)")
        case (Inl e)
        with Some False run u w1 w2 any show ?thesis
          by (simp add: authenticateTx_def checkedLogin_def loginStep_def freshTx_def)
      next
        case (Inr m)
        obtain match re where m: "m = (match, re)" by fastforce
        show ?thesis
        proof (cases match)
          case True
          with Some False run u w1 w2 Inr m
          have "run_state (finishLogin E s u pw (ipOf E ip) re) w2 = (r, w')"
            by (simp add: authenticateTx_def checkedLogin_def ipOf_def)
          from run_finishLogin_healthy [OF assms(1-3) _ _ _ this] w2(2) ex
          have "if pcfg_RequireEmailVerification (ps_Config s) \<and> \<not> u_email_verified u
            then r = Inl (passwordError ErrEmailNotVerified 403) \<and>
                 w_db w' = addAttempt (u_id u) (ipOf E ip) True now d
            else r = Inr (refOf u) \<and>
                 (\<exists>w1. w_tick w1 = w_tick w + 6 \<and>
                    w_db w' = applyRehash (u_id u) (if re then rehashFrom E hasher pw w1 else None)
                    (touchLogin (u_id u) now (addAttempt (u_id u) (ipOf E ip) True now d)))"
            by (auto simp: freshTx_def w2(3) add.commute split: if_splits)
          with Some False u Inr m True any show ?thesis
            by (auto simp: loginStep_def split: if_splits)
        next
          case no: False
          with Some False run u w1 w2 Inr m ex any assms(1) show ?thesis
            by (auto simp: authenticateTx_def checkedLogin_def loginStep_def freshTx_def ipOf_def
                RecordLoginAttempt_def sqlRecordLoginAttempt_def addAttempt_def)
        qed
      qed
    qed
  qed
qed

lemma run_Authenticate_rehash:
  assumes "healthy E" and "ps_Hasher s = hasher" and "ps_Queries s = OnPool"
    and "run_state (Authenticate E s email pw ip) w = (r, w')"
  shows "\<exists>w1. w_tick w1 = w_tick w + 8 \<and> (r, w_db w') = loginStep s (ipOf E ip)
           (app_now E (w_tick w + 2) - lc_Window (pcfg_Lockout (ps_Config s)))
           (db_now E (w_tick w + 1)) (rehashFrom E hasher pw w1) email pw (w_db w)"
proof (cases "localUser (w_db w) email (cfgIssuer s)")
  case None
  have "\<exists>w1 :: 'z world_scheme. w_tick w1 = w_tick w + 8" by (rule exI [of _ "w\<lparr>w_tick := w_tick w + 8\<rparr>"]) simp
  with None assms(1,3,4) show ?thesis
    by (auto simp: Authenticate_def run_GetUserByEmailAndIssuer_pool loginStep_def assms(2)
        dest!: hash_db split: prod.splits)
next
  case (Some u)
  let ?w = "tickw (tickw w)\<lparr>w_tx := Some \<lparr>tx_db = w_db w, tx_now = db_now E (w_tick w + 1),
              tx_aborted = False\<rparr>\<rparr>"
  obtain r1 w1 where run: "run_state (authenticateTx E s u pw ip) ?w = (r1, w1)" by fastforce
  with assms(1,3,4) Some have "r = r1" "w_db w' = w_db w1"
    by (auto simp: Authenticate_def run_GetUserByEmailAndIssuer_pool)
  with run_authenticateTx_healthy [OF assms(1-3) _ Some run] show ?thesis
    by (simp add: freshTx_def) (simp add: numeral_eq_Suc)
qed

lemma run_Authenticate_healthy:
  assumes "healthy E" and "ps_Hasher s = hasher" and "ps_Queries s = OnPool"
    and "run_state (Authenticate E s email pw ip) w = (r, w')"
  shows "\<exists>rehash. (r, w_db w') = loginStep s (ipOf E ip)
           (app_now E (w_tick w + 2) - lc_Window (pcfg_Lockout (ps_Config s)))
           (db_now E (w_tick w + 1)) rehash email pw (w_db w)"
  using run_Authenticate_rehash [OF assms] by blast

end

section \<open>Logins under faults\<close>

text \<open>
  A fault can only turn a login into an error: a success is the abstract step's success, and
  an error leaves the tables as they were or as an erring abstract step leaves them.
\<close>

definition loginAllowed ::
    "(go_error + user_ref) \<times> database \<Rightarrow> database \<Rightarrow> go_error + user_ref \<Rightarrow> database \<Rightarrow> bool" where
  "loginAllowed step d r d' \<longleftrightarrow>
     (if isOk r then (r, d') = step else d' = d \<or> (d' = snd step \<and> \<not> isOk (fst step)))"

lemma intx_db: "intx d n P w \<Longrightarrow> w_db w = d"
  by (simp add: intx_def committed_def)

lemma commit_error:
  "triple (intx d n P) (do { _ \<leftarrow> commitTx E; State_Monad.return x }) (\<lambda>r w. r = x \<and> (w_db w = d \<or> P (w_db w)))"
  by (rule triple_bind [OF intx_commit], rule triple_return) (auto split: sum.splits)

lemma intx_Record:
  "triple (intx d n (\<lambda>x. x = d0 \<and> C)) (RecordLoginAttempt E OnTx uid ip ok)
     (\<lambda>_. intx d n (\<lambda>x. x = addAttempt uid ip ok n d0 \<and> C))"
  unfolding RecordLoginAttempt_def
  by (rule intx_exec) (auto simp: sqlRecordLoginAttempt_def addAttempt_def split: if_splits)

lemma intx_touch:
  "triple (intx d n (\<lambda>x. x = d0 \<and> C)) (UpdateLastLoginAt E OnTx uid)
     (\<lambda>_. intx d n (\<lambda>x. x = touchLogin uid n d0 \<and> C))"
  unfolding UpdateLastLoginAt_def
  by (rule intx_exec) (auto simp: sqlUpdateLastLoginAt_def touchLogin_def)

lemma on_pool_fun: "on OnPool P = (\<lambda>w. P (w_db w))"
  by (rule ext) simp

lemma pool_setHash:
  "triple (\<lambda>w. w_db w = d) (UpdatePasswordHash E OnPool uid h)
     (\<lambda>_ w. w_db w = d \<or> (\<exists>now. w_db w = setHash uid h now d))"
proof -
  have "triple (on OnPool (\<lambda>x. x = d)) (UpdatePasswordHash E OnPool uid h)
      (\<lambda>_. on OnPool (\<lambda>x. x = d \<or> (\<exists>now. x = setHash uid h now d)))"
    unfolding UpdatePasswordHash_def
    by (rule on_exec) (auto simp: sqlUpdatePasswordHash_def simp flip: setHash_def)
  then show ?thesis by (simp add: on_pool_fun)
qed

lemma applyRehash_cases:
  assumes "d' = d \<or> (\<exists>now. d' = setHash uid h now d)" and "run_state (hash_Hash hasher pw) w = (Inr h, w')"
  shows "\<exists>rehash. rehashOf hasher pw rehash \<and> d' = applyRehash uid rehash d"
proof (cases "d' = d")
  case True
  then show ?thesis by (auto simp: applyRehash_def intro: exI [of _ None])
next
  case False
  with assms(1) obtain now where "d' = setHash uid h now d" by auto
  with assms(2) show ?thesis
    by (auto simp: applyRehash_def rehashOf_def intro!: exI [of _ "Some (h, now)"])
qed

lemma triple_const: "triple P m Q \<Longrightarrow> triple (\<lambda>w. P w \<and> C) m (\<lambda>r w. Q r w \<and> C)"
  by (auto simp: triple_def split: prod.splits)

context password_hasher
begin

lemma finishLogin_faults:
  assumes "ps_Hasher s = hasher" and "ps_Queries s = OnPool"
  shows "triple (intx d n (\<lambda>x. x = d \<and> C)) (finishLogin E s u pw ip re)
     (\<lambda>r w. \<exists>rehash. rehashOf hasher pw rehash \<and> (if isOk r
        then C \<and> r = Inr (refOf u) \<and> \<not> (pcfg_RequireEmailVerification (ps_Config s) \<and> \<not> u_email_verified u) \<and>
             w_db w = applyRehash (u_id u) (if re then rehash else None)
                 (touchLogin (u_id u) n (addAttempt (u_id u) ip True n d))
        else w_db w = d \<or> (C \<and> pcfg_RequireEmailVerification (ps_Config s) \<and> \<not> u_email_verified u \<and>
               w_db w = addAttempt (u_id u) ip True n d)))"
  (is "triple _ _ ?Q")
proof -
  let ?d2 = "touchLogin (u_id u) n (addAttempt (u_id u) ip True n d)"
  have rehash: "triple (\<lambda>w. w_db w = ?d2)
      (do { newHash \<leftarrow> hash_Hash hasher pw;
            case newHash of Inl _ \<Rightarrow> State_Monad.return (Inr ())
            | Inr h \<Rightarrow> UpdatePasswordHash E OnPool (u_id u) h })
      (\<lambda>_ w. \<exists>rehash. rehashOf hasher pw rehash \<and> w_db w = applyRehash (u_id u) rehash ?d2)"
  proof (rule triple_bind [where R = "\<lambda>r w. w_db w = ?d2 \<and>
      (\<forall>h. r = Inr h \<longrightarrow> (\<exists>w w'. run_state (hash_Hash hasher pw) w = (Inr h, w')))"])
    show "triple (\<lambda>w. w_db w = ?d2) (hash_Hash hasher pw) (\<lambda>r w. w_db w = ?d2 \<and>
        (\<forall>h. r = Inr h \<longrightarrow> (\<exists>w w'. run_state (hash_Hash hasher pw) w = (Inr h, w'))))"
      by (rule tripleI) (auto dest: hash_db)
  next
    fix r :: "go_error + string"
    show "triple (\<lambda>w. w_db w = ?d2 \<and> (\<forall>h. r = Inr h \<longrightarrow> (\<exists>w w'. run_state (hash_Hash hasher pw) w = (Inr h, w'))))
        (case r of Inl _ \<Rightarrow> State_Monad.return (Inr ()) | Inr h \<Rightarrow> UpdatePasswordHash E OnPool (u_id u) h)
        (\<lambda>_ w. \<exists>rehash. rehashOf hasher pw rehash \<and> w_db w = applyRehash (u_id u) rehash ?d2)"
    proof (cases r)
      case (Inl e)
      then show ?thesis
        by (auto intro!: triple_return exI [of _ None] simp: applyRehash_def)
    next
      case (Inr h)
      have "triple (\<lambda>w. w_db w = ?d2 \<and> (\<exists>w w'. run_state (hash_Hash hasher pw) w = (Inr h, w')))
          (UpdatePasswordHash E OnPool (u_id u) h)
          (\<lambda>_ w. \<exists>rehash. rehashOf hasher pw rehash \<and> w_db w = applyRehash (u_id u) rehash ?d2)"
        by (rule triple_weaken [OF triple_const [OF pool_setHash]], assumption) (use applyRehash_cases in blast)
      with Inr show ?thesis by simp
    qed
  qed
  show ?thesis
    unfolding finishLogin_def assms
  proof (rule triple_bind [OF intx_Record], intro triple_if)
    assume "pcfg_RequireEmailVerification (ps_Config s) \<and> \<not> u_email_verified u"
    then show "triple (intx d n (\<lambda>x. x = addAttempt (u_id u) ip True n d \<and> C))
        (do { _ \<leftarrow> commitTx E; State_Monad.return (Inl (passwordError ErrEmailNotVerified 403)) }) ?Q"
      by (intro triple_weaken [OF commit_error [of d n "\<lambda>x. x = addAttempt (u_id u) ip True n d \<and> C"]])
        (auto)
  next
    assume ok: "\<not> (pcfg_RequireEmailVerification (ps_Config s) \<and> \<not> u_email_verified u)"
    show "triple (intx d n (\<lambda>x. x = addAttempt (u_id u) ip True n d \<and> C))
        (do { _ \<leftarrow> UpdateLastLoginAt E OnTx (u_id u);
              c \<leftarrow> commitTx E;
              case c of
                Inl err \<Rightarrow> State_Monad.return (Inl (Wrapped ''failed to commit transaction'' err))
              | Inr _ \<Rightarrow> do {
                  _ \<leftarrow> (if re
                        then do {
                          newHash \<leftarrow> hash_Hash hasher pw;
                          case newHash of
                            Inl _ \<Rightarrow> State_Monad.return (Inr ())
                          | Inr h \<Rightarrow> UpdatePasswordHash E OnPool (u_id u) h }
                        else State_Monad.return (Inr ()));
                  State_Monad.return (Inr \<lparr>ref_UserID = u_id u, ref_Issuer = u_issuer u,
                                           ref_Subject = u_subject u\<rparr>) } }) ?Q"
      by (rule triple_bind [OF intx_touch], rule triple_bind [OF intx_commit], intro triple_sum,
          rule triple_return, simp add: exI [of _ None],
          rule triple_bind [where R = "\<lambda>_ w. (\<exists>rehash. rehashOf hasher pw rehash \<and> w_db w = applyRehash (u_id u) (if re then rehash else None) ?d2) \<and> C"])
        (use ok in \<open>auto simp: refOf_def applyRehash_def intro!: triple_return triple_const rehash [unfolded applyRehash_def]\<close>)
  qed
qed

lemma checkedLogin_faults:
  assumes "ps_Hasher s = hasher" and "ps_Queries s = OnPool"
    and u: "localUser d email (cfgIssuer s) = Some u"
  shows "triple (intx d n (\<lambda>x. x = d)) (checkedLogin E s u pw ip since)
     (\<lambda>r w. \<exists>rehash. rehashOf hasher pw rehash \<and>
        loginAllowed (loginStep s (ipOf E ip) since n rehash email pw d) d r (w_db w))"
  (is "triple _ _ ?Q")
proof -
  let ?lc = "pcfg_Lockout (ps_Config s)"
  have count: "triple (intx d n (\<lambda>x. x = d)) (CountRecentFailedAttempts E OnTx (u_id u) since)
      (\<lambda>r. intx d n (\<lambda>x. x = d \<and> (\<forall>k. r = Inr k \<longrightarrow> k = recentFailures d (u_id u) since)))"
    unfolding CountRecentFailedAttempts_def by (rule intx_row) auto
  have cred: "triple (intx d n (\<lambda>x. x = d \<and> C)) (GetPasswordCredential E OnTx (u_id u))
      (\<lambda>r. intx d n (\<lambda>x. x = d \<and> C \<and> (\<forall>c. r = Inr c \<longrightarrow> credentialOf d (u_id u) = Some c)))" for C
    unfolding GetPasswordCredential_def
    by (rule intx_row) (auto simp: sqlGetPasswordCredential_def credentialOf_def dest: filter_Cons_find)
  have err: "triple (intx d n P) (State_Monad.return (Inl e)) ?Q" for P e
    by (rule intx_return) (auto simp: loginAllowed_def)
  have locked: "triple (intx d n P) (do { _ \<leftarrow> hash_Hash hasher dummyPassword; State_Monad.return (Inl e) }) ?Q"
    for P e
    by (rule triple_pre [of "\<lambda>w. w_db w = d"], rule triple_bind [OF hash_committed], rule triple_return)
      (auto simp: loginAllowed_def intx_db)
  define C where "C \<longleftrightarrow> \<not> IsLockedOut (recentFailures d (u_id u) since) ?lc"
  define D where "D c \<longleftrightarrow> C \<and> credentialOf d (u_id u) = Some c" for c
  have wrong: "triple (intx d n (\<lambda>x. x = d \<and> D c))
      (do { _ \<leftarrow> RecordLoginAttempt E OnTx (u_id u) (ipOf E ip) False; _ \<leftarrow> commitTx E;
            State_Monad.return (Inl (passwordError ErrInvalidCredentials 401)) }) ?Q"
    if "hash_Verify hasher pw (pc_password_hash c) = Inr (False, re)" for c re
    by (rule triple_bind [OF intx_Record], rule triple_weaken [OF commit_error [of d n
          "\<lambda>x. x = addAttempt (u_id u) (ipOf E ip) False n d \<and> D c"]])
      (use that u in \<open>auto simp: loginAllowed_def loginStep_def D_def C_def assms(1)\<close>)
  have right: "triple (intx d n (\<lambda>x. x = d \<and> D c)) (finishLogin E s u pw (ipOf E ip) re) ?Q"
    if "hash_Verify hasher pw (pc_password_hash c) = Inr (True, re)" for c re
    by (rule triple_weaken [OF finishLogin_faults [OF assms(1,2)]])
      (use that u in \<open>auto simp: loginAllowed_def loginStep_def D_def C_def assms(1) split: if_splits\<close>)
  show ?thesis
    unfolding checkedLogin_def assms(1) Let_def
    apply (rule triple_bind [OF count], intro triple_sum triple_if)
      apply (rule err)
     apply (rule locked)
    apply (rule triple_bind)
     apply (rule triple_pre [OF cred [of C]])
     apply (auto simp: C_def elim: intx_mono)[1]
    apply (intro triple_sum triple_prod triple_if)
    apply (auto simp flip: ipOf_def D_def intro!: err right wrong)
    done
qed

lemma Authenticate_faults_rehash:
  assumes "ps_Hasher s = hasher" and "ps_Queries s = OnPool"
    and run: "run_state (Authenticate E s email pw ip) w = (r, w')"
  shows "\<exists>rehash. rehashOf hasher pw rehash \<and> loginAllowed (loginStep s (ipOf E ip)
           (app_now E (w_tick w + 2) - lc_Window (pcfg_Lockout (ps_Config s)))
           (db_now E (w_tick w + 1)) rehash email pw (w_db w)) (w_db w) r (w_db w')"
proof (cases "db_fault E (w_tick w) = None \<and> localUser (w_db w) email (cfgIssuer s) \<noteq> None \<and>
    db_fault E (w_tick w + 1) = None")
  case False
  with run assms(2) show ?thesis
    by (auto simp: Authenticate_def run_GetUserByEmailAndIssuer_pool loginAllowed_def assms(1)
        dest!: hash_db split: prod.splits option.splits if_splits)
next
  case True
  then obtain u where u: "localUser (w_db w) email (cfgIssuer s) = Some u" by auto
  let ?n = "db_now E (w_tick w + 1)"
  let ?w = "(tickw (tickw w))\<lparr>w_tx := Some \<lparr>tx_db = w_db w, tx_now = ?n, tx_aborted = False\<rparr>\<rparr>"
  let ?since = "app_now E (w_tick w + 2) - lc_Window (pcfg_Lockout (ps_Config s))"
  obtain r1 w1 where run1: "run_state (checkedLogin E s u pw ip ?since) (tickw ?w) = (r1, w1)" by fastforce
  with run True u assms(2) have eq: "r = r1" "w_db w' = w_db w1"
    by (auto simp: Authenticate_def run_GetUserByEmailAndIssuer_pool authenticateTx_def)
  have "intx (w_db w) ?n (\<lambda>x. x = w_db w) (tickw ?w)"
    by (simp add: intx_def committed_def on_def)
  from tripleD [OF checkedLogin_faults [OF assms(1,2) u] this run1] show ?thesis
    unfolding eq .
qed

lemma Authenticate_faults:
  assumes "ps_Hasher s = hasher" and "ps_Queries s = OnPool"
    and run: "run_state (Authenticate E s email pw ip) w = (r, w')"
  shows "\<exists>rehash. loginAllowed (loginStep s (ipOf E ip)
           (app_now E (w_tick w + 2) - lc_Window (pcfg_Lockout (ps_Config s)))
           (db_now E (w_tick w + 1)) rehash email pw (w_db w)) (w_db w) r (w_db w')"
  using Authenticate_faults_rehash [OF assms] by blast

end

text \<open>The hash that Argon2id computes depends on the world only through the number of calls so far.\<close>

lemma rehashFrom_tick:
  "w_tick w = w_tick v \<Longrightarrow>
     rehashFrom E (NewArgon2idHasher E cfg) pw w = rehashFrom E (NewArgon2idHasher E cfg) pw v"
  by (simp add: rehashFrom_def NewArgon2idHasher_def run_hasherHash split: sum.split)

lemma rehashOf_verify:
  "argon2_contract E \<Longrightarrow> rehashOf (NewArgon2idHasher E cfg) pw (Some (h, t)) \<Longrightarrow>
     hasherVerify E cfg pw h = Inr (True, False)"
  using argon.verify_hash [of E cfg pw _ h] by (auto simp: rehashOf_def NewArgon2idHasher_def)

section \<open>Properties\<close>

text \<open>
  C7 Refinement of \<open>Authenticate\<close>: in a healthy environment the transaction code returns
  exactly the result of the abstract login step and leaves exactly its tables. The lockout
  window ends at the application's clock, the attempt is stamped with the transaction's, and
  the hash that replaces an outdated one is the one the store's hasher computes for the
  password after the commit: it verifies the password and needs no further rehash.
\<close>

theorem authenticate_refines_step:
  assumes "NewPasswordIdentityStore E hasPool inner cfg = Inr s" and "healthy E"
    and "run_state (Authenticate E s email pw ip) w = (r, w')"
  shows "(r, w_db w') = loginStep s (ipOf E ip)
           (app_now E (w_tick w + 2) - lc_Window (pcfg_Lockout (passwordDefaults cfg)))
           (db_now E (w_tick w + 1)) (rehashFrom E (ps_Hasher s) pw (w\<lparr>w_tick := w_tick w + 8\<rparr>))
           email pw (w_db w) \<and>
         (argon2_contract E \<longrightarrow>
            (\<forall>h t. rehashFrom E (ps_Hasher s) pw (w\<lparr>w_tick := w_tick w + 8\<rparr>) = Some (h, t) \<longrightarrow>
               hasherVerify E (pcfg_Hashing (passwordDefaults cfg)) pw h = Inr (True, False)))"
proof -
  note s = new_store [OF assms(1)]
  obtain w1 where w1: "w_tick w1 = w_tick w + 8"
    and step: "(r, w_db w') = loginStep s (ipOf E ip)
           (app_now E (w_tick w + 2) - lc_Window (pcfg_Lockout (passwordDefaults cfg)))
           (db_now E (w_tick w + 1)) (rehashFrom E (ps_Hasher s) pw w1) email pw (w_db w)"
    using argon.run_Authenticate_rehash [OF assms(2) _ _ assms(3)] s by metis
  have "rehashFrom E (ps_Hasher s) pw w1 = rehashFrom E (ps_Hasher s) pw (w\<lparr>w_tick := w_tick w + 8\<rparr>)"
    using s w1 by (simp add: rehashFrom_tick [of w1 "w\<lparr>w_tick := w_tick w + 8\<rparr>"])
  with step s show ?thesis
    using rehashOf_verify rehashOf_from by metis
qed

text \<open>
  C8 Faults never let a login through and never leave half of one: whatever statement, begin
  or commit fails, a success is the success of the abstract step with its effects, and an error
  leaves the tables unchanged or as the erring step leaves them.
\<close>

theorem authenticate_fault_tolerant:
  assumes "NewPasswordIdentityStore E hasPool inner cfg = Inr s"
    and "run_state (Authenticate E s email pw ip) w = (r, w')"
  shows "\<exists>rehash. loginAllowed (loginStep s (ipOf E ip)
           (app_now E (w_tick w + 2) - lc_Window (pcfg_Lockout (passwordDefaults cfg)))
           (db_now E (w_tick w + 1)) rehash email pw (w_db w)) (w_db w) r (w_db w')"
  using argon.Authenticate_faults [OF _ _ assms(2)] new_store [OF assms(1)] by simp

lemma loginStep_success:
  assumes "loginStep s ip cutoff now rehash email pw d = (Inr ref, d')"
  shows "\<exists>u c re. localUser d email (cfgIssuer s) = Some u \<and> ref = refOf u \<and>
           \<not> IsLockedOut (recentFailures d (u_id u) cutoff) (pcfg_Lockout (ps_Config s)) \<and>
           credentialOf d (u_id u) = Some c \<and>
           hash_Verify (ps_Hasher s) pw (pc_password_hash c) = Inr (True, re) \<and>
           (pcfg_RequireEmailVerification (ps_Config s) \<longrightarrow> u_email_verified u) \<and>
           d' = applyRehash (u_id u) (if re then rehash else None)
                  (touchLogin (u_id u) now (addAttempt (u_id u) ip True now d))"
  using assms by (auto simp: loginStep_def split: option.splits sum.splits if_splits prod.splits)

text \<open>
  C9 A login succeeds only for a user of the local issuer with that email, below the lockout
  limit, whose stored credential verifies the password, and, where verification is required,
  whose email is verified. It adds one successful attempt, sets that user's last login and
  update time to the time of the transaction and, when the stored hash is outdated, may replace
  that user's hash by one that verifies the password; nothing else in any table changes.
\<close>

theorem authenticate_success:
  assumes "NewPasswordIdentityStore E hasPool inner cfg = Inr s"
    and "run_state (Authenticate E s email pw ip) w = (Inr ref, w')"
  shows "\<exists>u c re now. u \<in> set (users (w_db w)) \<and> u_email u = email \<and>
           u_issuer u = pcfg_Issuer (passwordDefaults cfg) \<and> ref = refOf u \<and>
           int (recentFailures (w_db w) (u_id u)
              (app_now E (w_tick w + 2) - lc_Window (pcfg_Lockout (passwordDefaults cfg))))
             < lc_MaxAttempts (pcfg_Lockout (passwordDefaults cfg)) \<and>
           credentialOf (w_db w) (u_id u) = Some c \<and>
           hasherVerify E (pcfg_Hashing (passwordDefaults cfg)) pw (pc_password_hash c) = Inr (True, re) \<and>
           (u_email_verified u \<or> \<not> pcfg_RequireEmailVerification (passwordDefaults cfg)) \<and>
           attempts (w_db w') = attempts (w_db w) @
             [\<lparr>la_user_id = u_id u, la_attempted_at = now, la_ip_address = ipOf E ip, la_success = True\<rparr>] \<and>
           tenants (w_db w') = tenants (w_db w) \<and> memberships (w_db w') = memberships (w_db w) \<and>
           tokens (w_db w') = tokens (w_db w) \<and>
           now = db_now E (w_tick w + 1) \<and>
           users (w_db w') = map (\<lambda>v. if u_id v = u_id u
             then v\<lparr>u_last_login_at := Some now, u_updated_at := now\<rparr> else v) (users (w_db w)) \<and>
           (credentials (w_db w') = credentials (w_db w) \<or>
            (\<exists>h t. re \<and> credentials (w_db w') = map (\<lambda>c. if pc_user_id c = u_id u
                then c\<lparr>pc_password_hash := h, pc_updated_at := t\<rparr> else c) (credentials (w_db w)) \<and>
              (argon2_contract E \<longrightarrow>
                 hasherVerify E (pcfg_Hashing (passwordDefaults cfg)) pw h = Inr (True, False))))"
proof -
  note s = new_store [OF assms(1)]
  let ?cutoff = "app_now E (w_tick w + 2) - lc_Window (pcfg_Lockout (passwordDefaults cfg))"
  let ?now = "db_now E (w_tick w + 1)"
  obtain rehash where re: "rehashOf (ps_Hasher s) pw rehash"
    and "loginAllowed (loginStep s (ipOf E ip) ?cutoff ?now rehash email pw (w_db w))
      (w_db w) (Inr ref) (w_db w')"
    using argon.Authenticate_faults_rehash [OF _ _ assms(2)] s by auto
  then have "loginStep s (ipOf E ip) ?cutoff ?now rehash email pw (w_db w) = (Inr ref, w_db w')"
    by (simp add: loginAllowed_def)
  from loginStep_success [OF this] obtain u c re where
    u: "localUser (w_db w) email (cfgIssuer s) = Some u" and "ref = refOf u"
      "\<not> IsLockedOut (recentFailures (w_db w) (u_id u) ?cutoff) (pcfg_Lockout (ps_Config s))"
      "credentialOf (w_db w) (u_id u) = Some c"
      "hash_Verify (ps_Hasher s) pw (pc_password_hash c) = Inr (True, re)"
      "pcfg_RequireEmailVerification (ps_Config s) \<longrightarrow> u_email_verified u"
    and d': "w_db w' = applyRehash (u_id u) (if re then rehash else None)
       (touchLogin (u_id u) ?now (addAttempt (u_id u) (ipOf E ip) True ?now (w_db w)))"
    by blast
  have "attempts (w_db w') = attempts (w_db w) @ [\<lparr>la_user_id = u_id u, la_attempted_at = ?now,
        la_ip_address = ipOf E ip, la_success = True\<rparr>]"
    "tenants (w_db w') = tenants (w_db w)" "memberships (w_db w') = memberships (w_db w)"
    "tokens (w_db w') = tokens (w_db w)" "users (w_db w') = map (\<lambda>v. if u_id v = u_id u
      then v\<lparr>u_last_login_at := Some ?now, u_updated_at := ?now\<rparr> else v) (users (w_db w))"
    unfolding d'
    by (auto simp: applyRehash_def touchLogin_def addAttempt_def setHash_def split: option.splits)
  moreover have "credentials (w_db w') = credentials (w_db w) \<or>
      (\<exists>h t. re \<and> credentials (w_db w') = map (\<lambda>c. if pc_user_id c = u_id u
          then c\<lparr>pc_password_hash := h, pc_updated_at := t\<rparr> else c) (credentials (w_db w)) \<and>
        (argon2_contract E \<longrightarrow>
           hasherVerify E (pcfg_Hashing (passwordDefaults cfg)) pw h = Inr (True, False)))"
  proof (cases "if re then rehash else None")
    case None
    with d' show ?thesis by (simp add: applyRehash_def touchLogin_def addAttempt_def)
  next
    case (Some p)
    then obtain h t where p: "rehash = Some (h, t)" re by (cases p) (auto split: if_splits)
    with re s have
      "argon2_contract E \<longrightarrow> hasherVerify E (pcfg_Hashing (passwordDefaults cfg)) pw h = Inr (True, False)"
      by (auto intro: rehashOf_verify)
    with d' p show ?thesis
      by (simp add: applyRehash_def touchLogin_def addAttempt_def setHash_def) blast
  qed
  ultimately show ?thesis
    using u s \<open>ref = refOf u\<close> \<open>\<not> IsLockedOut _ _\<close> \<open>credentialOf _ _ = _\<close> \<open>hash_Verify _ _ _ = _\<close>
      \<open>pcfg_RequireEmailVerification _ \<longrightarrow> _\<close> localUser_Some [OF u]
    by (intro exI [of _ u] exI [of _ c] exI [of _ re] exI [of _ ?now])
      (auto simp: IsLockedOut_def NewArgon2idHasher_def)
qed

text \<open>
  C11 A locked account stays closed: when the failures in the window have reached the limit, no
  password logs in and nothing changes, under any faults; without faults the answer is the 423
  error.
\<close>

theorem lockout_holds:
  assumes "NewPasswordIdentityStore E hasPool inner cfg = Inr s"
    and "localUser (w_db w) email (pcfg_Issuer (passwordDefaults cfg)) = Some u"
    and "lc_MaxAttempts (pcfg_Lockout (passwordDefaults cfg)) \<le>
           int (recentFailures (w_db w) (u_id u)
              (app_now E (w_tick w + 2) - lc_Window (pcfg_Lockout (passwordDefaults cfg))))"
    and "run_state (Authenticate E s email pw ip) w = (r, w')"
  shows "\<not> isOk r \<and> w_db w' = w_db w \<and>
         (r = Inl (PasswordError ErrAccountLocked 423 '''') \<or> \<not> healthy E)"
proof -
  note s = new_store [OF assms(1)]
  let ?cutoff = "app_now E (w_tick w + 2) - lc_Window (pcfg_Lockout (passwordDefaults cfg))"
  have step: "loginStep s ip' (app_now E (w_tick w + 2) - lc_Window (pcfg_Lockout (ps_Config s))) now rehash email pw (w_db w) = (Inl (passwordError ErrAccountLocked 423), w_db w)"
    for ip' now rehash
    using assms(2,3) s by (simp add: loginStep_def IsLockedOut_def)
  have "loginAllowed (Inl (passwordError ErrAccountLocked 423), w_db w) (w_db w) r (w_db w')"
    using argon.Authenticate_faults [OF _ _ assms(4)] s unfolding step by metis
  then have "\<not> isOk r \<and> w_db w' = w_db w"
    by (auto simp: loginAllowed_def split: if_splits)
  moreover have "r = Inl (passwordError ErrAccountLocked 423)" if "healthy E"
    using argon.run_Authenticate_healthy [OF that _ _ assms(4)] s unfolding step by simp
  ultimately show ?thesis by (auto simp: passwordError_def)
qed

lemma loginStep_attempts:
  assumes "loginStep s ip cutoff now rehash email pw d = (r, d')" and "isOk r \<or> r = Inl (passwordError ErrEmailNotVerified 403)"
  shows "recentFailures d' uid since = recentFailures d uid since"
  using assms
  by (auto simp: loginStep_def recentFailures_def recentFailure_def addAttempt_def touchLogin_def
      applyRehash_def setHash_def passwordError_def
      split: option.splits sum.splits if_splits prod.splits)

text \<open>
  A correct password does not reset the lockout: neither a success nor the refusal of an
  unverified user changes the number of failures counted for any user and any window. Only
  the passing of time does.
\<close>

theorem success_keeps_failures:
  assumes "NewPasswordIdentityStore E hasPool inner cfg = Inr s" and "healthy E"
    and "run_state (Authenticate E s email pw ip) w = (r, w')"
    and "isOk r \<or> r = Inl (PasswordError ErrEmailNotVerified 403 '''')"
  shows "recentFailures (w_db w') uid since = recentFailures (w_db w) uid since"
proof -
  note s = new_store [OF assms(1)]
  obtain ip' cutoff now rehash where "(r, w_db w') = loginStep s ip' cutoff now rehash email pw (w_db w)"
    using argon.run_Authenticate_healthy [OF assms(2) s [THEN conjunct2, THEN conjunct1] s [THEN conjunct1] assms(3)]
    by blast
  from loginStep_attempts [OF this [symmetric]] assms(4) show ?thesis
    by (simp add: passwordError_def)
qed

section \<open>Guessing\<close>

text \<open>A series of attempts with the passwords of a list.\<close>

fun tryPasswords ::
    "env \<Rightarrow> ('z world_scheme) password_store \<Rightarrow> string \<Rightarrow> string \<Rightarrow> string list \<Rightarrow>
     ('z, (go_error + user_ref) list) io" where
  "tryPasswords E s email ip [] = State_Monad.return []"
| "tryPasswords E s email ip (pw # pws) = do {
     r \<leftarrow> Authenticate E s email pw ip;
     rs \<leftarrow> tryPasswords E s email ip pws;
     State_Monad.return (r # rs) }"

text \<open>All failures of a user, whatever their age.\<close>

definition allFailures :: "database \<Rightarrow> uuid \<Rightarrow> login_attempt list" where
  "allFailures d uid = filter (\<lambda>a. la_user_id a = uid \<and> \<not> la_success a) (attempts d)"

definition withinWindow :: "env \<Rightarrow> int \<Rightarrow> bool" where
  "withinWindow E window \<longleftrightarrow> (\<forall>t t'. app_now E t - window < db_now E t')"

definition stamped :: "env \<Rightarrow> database \<Rightarrow> uuid \<Rightarrow> bool" where
  "stamped E d uid \<longleftrightarrow> (\<forall>a\<in>set (allFailures d uid). la_attempted_at a \<in> range (db_now E))"

lemma recentFailures_all:
  assumes "withinWindow E window" and "stamped E d uid"
  shows "recentFailures d uid (app_now E t - window) = length (allFailures d uid)"
proof -
  have "filter (recentFailure uid (app_now E t - window)) (attempts d) = allFailures d uid"
    unfolding allFailures_def
    by (rule filter_cong) (use assms in \<open>auto simp: recentFailure_def withinWindow_def stamped_def allFailures_def\<close>)
  then show ?thesis by (simp add: recentFailures_def)
qed

definition wrongPassword :: "'w password_store \<Rightarrow> password_credential \<Rightarrow> string \<Rightarrow> bool" where
  "wrongPassword s c pw \<longleftrightarrow> (\<exists>b. hash_Verify (ps_Hasher s) pw (pc_password_hash c) = Inr (False, b))"

definition guessState :: "env \<Rightarrow> 'w password_store \<Rightarrow> string \<Rightarrow> user \<Rightarrow> password_credential \<Rightarrow> database \<Rightarrow> bool" where
  "guessState E s email u c d \<longleftrightarrow>
     localUser d email (cfgIssuer s) = Some u \<and> credentialOf d (u_id u) = Some c \<and>
     stamped E d (u_id u) \<and> int (length (allFailures d (u_id u))) \<le> lc_MaxAttempts (pcfg_Lockout (ps_Config s))"

lemma addAttempt_simps [simp]:
  "localUser (addAttempt uid ip ok now d) email iss = localUser d email iss"
  "credentialOf (addAttempt uid ip ok now d) v = credentialOf d v"
  "allFailures (addAttempt uid ip ok now d) v = allFailures d v @
     (if v = uid \<and> \<not> ok then [\<lparr>la_user_id = uid, la_attempted_at = now, la_ip_address = ip, la_success = ok\<rparr>] else [])"
  by (simp_all add: addAttempt_def localUser_def credentialOf_def allFailures_def)

context password_hasher
begin

lemma wrong_attempt:
  assumes "healthy E" "ps_Hasher s = hasher" "ps_Queries s = OnPool"
    and "withinWindow E (lc_Window (pcfg_Lockout (ps_Config s)))"
    and "guessState E s email u c (w_db w)"
    and "run_state (Authenticate E s email pw ip) w = (r, w')"
  shows "if lc_MaxAttempts (pcfg_Lockout (ps_Config s)) = int (length (allFailures (w_db w) (u_id u)))
         then r = Inl (passwordError ErrAccountLocked 423) \<and> w_db w' = w_db w
         else wrongPassword s c pw \<longrightarrow>
              r = Inl (passwordError ErrInvalidCredentials 401) \<and> guessState E s email u c (w_db w') \<and>
              length (allFailures (w_db w') (u_id u)) = Suc (length (allFailures (w_db w) (u_id u)))"
proof -
  let ?lc = "pcfg_Lockout (ps_Config s)"
  obtain rehash where run: "(r, w_db w') = loginStep s (ipOf E ip) (app_now E (w_tick w + 2) - lc_Window ?lc)
      (db_now E (w_tick w + 1)) rehash email pw (w_db w)"
    using run_Authenticate_healthy [OF assms(1-3,6)] by blast
  have st: "stamped E (w_db w) (u_id u)" using assms(5) by (simp add: guessState_def)
  have n: "recentFailures (w_db w) (u_id u) (app_now E t - lc_Window ?lc) = length (allFailures (w_db w) (u_id u))"
    for t by (rule recentFailures_all [OF assms(4) st])
  show ?thesis
    using run assms(5)
    by (auto simp: loginStep_def guessState_def IsLockedOut_def wrongPassword_def n stamped_def
        split: if_splits)
qed

lemma guesses:
  assumes "healthy E" "ps_Hasher s = hasher" "ps_Queries s = OnPool"
    and "withinWindow E (lc_Window (pcfg_Lockout (ps_Config s)))"
    and "guessState E s email u c (w_db w)" and "\<forall>pw\<in>set pws. wrongPassword s c pw"
    and "run_state (tryPasswords E s email ip pws) w = (rs, w')"
  shows "guessState E s email u c (w_db w') \<and>
         length (allFailures (w_db w') (u_id u)) =
           min (length (allFailures (w_db w) (u_id u)) + length pws)
               (nat (lc_MaxAttempts (pcfg_Lockout (ps_Config s)))) \<and>
         length (filter (\<lambda>r. r = Inl (passwordError ErrInvalidCredentials 401)) rs) =
           length (allFailures (w_db w') (u_id u)) - length (allFailures (w_db w) (u_id u))"
  using assms(5-7)
proof (induction pws arbitrary: w rs)
  case Nil
  then show ?case by (auto simp: guessState_def)
next
  case (Cons pw pws)
  let ?M = "lc_MaxAttempts (pcfg_Lockout (ps_Config s))" and ?n = "\<lambda>w. length (allFailures (w_db w) (u_id u))"
  obtain r1 w1 where a: "run_state (Authenticate E s email pw ip) w = (r1, w1)" by fastforce
  obtain rs1 where rs: "run_state (tryPasswords E s email ip pws) w1 = (rs1, w')" "rs = r1 # rs1"
    using Cons.prems(3) a by (auto split: prod.splits)
  note step = wrong_attempt [OF assms(1-4) Cons.prems(1) a]
  show ?case
  proof (cases "?M = int (?n w)")
    case True
    with step have "r1 = Inl (passwordError ErrAccountLocked 423)" "w_db w1 = w_db w" by auto
    with Cons.IH [OF _ _ rs(1)] Cons.prems rs(2) True show ?thesis
      by (auto simp: passwordError_def)
  next
    case False
    with step Cons.prems(2) have s1: "r1 = Inl (passwordError ErrInvalidCredentials 401)"
      "guessState E s email u c (w_db w1)" "?n w1 = Suc (?n w)" by auto
    then have "int (?n w1) \<le> ?M" by (simp add: guessState_def)
    with s1 Cons.IH [OF s1(2) _ rs(1)] Cons.prems(2) rs(2) show ?thesis
      by auto
  qed
qed

end

text \<open>
  C12 Guessing is limited: while all clocks stay within one lockout window, of any series of
  wrong passwords for a user exactly as many are checked as the limit still allows; from then
  on every attempt, with the right password too, is refused with the 423 error and changes
  nothing.
\<close>

theorem guess_limit:
  assumes "NewPasswordIdentityStore E hasPool inner cfg = Inr s" and "healthy E"
    and "withinWindow E (lc_Window (pcfg_Lockout (passwordDefaults cfg)))"
    and "localUser (w_db w) email (pcfg_Issuer (passwordDefaults cfg)) = Some u"
    and "credentialOf (w_db w) (u_id u) = Some c"
    and "\<forall>pw\<in>set pws. wrongPassword s c pw"
    and "allFailures (w_db w) (u_id u) = []"
    and "0 \<le> lc_MaxAttempts (pcfg_Lockout (passwordDefaults cfg))"
    and "run_state (tryPasswords E s email ip pws) w = (rs, w1)"
    and "run_state (Authenticate E s email pw ip) w1 = (r, w2)"
  shows "length (filter (\<lambda>r. r = Inl (PasswordError ErrInvalidCredentials 401 '''')) rs) =
           min (length pws) (nat (lc_MaxAttempts (pcfg_Lockout (passwordDefaults cfg)))) \<and>
         (nat (lc_MaxAttempts (pcfg_Lockout (passwordDefaults cfg))) \<le> length pws \<longrightarrow>
            r = Inl (PasswordError ErrAccountLocked 423 '''') \<and> w_db w2 = w_db w1)"
proof -
  note s = new_store [OF assms(1)]
  note h = assms(2) s [THEN conjunct2, THEN conjunct1] s [THEN conjunct1]
    assms(3) [folded s [THEN conjunct2, THEN conjunct2, THEN conjunct1]]
  have "guessState E s email u c (w_db w)"
    using assms(4,5,7,8) s by (simp add: guessState_def stamped_def)
  from argon.guesses [OF h this assms(6,9)] assms(7)
  have g: "guessState E s email u c (w_db w1)" and
    n: "length (allFailures (w_db w1) (u_id u)) =
      min (length pws) (nat (lc_MaxAttempts (pcfg_Lockout (ps_Config s))))" and
    "length (filter (\<lambda>r. r = Inl (passwordError ErrInvalidCredentials 401)) rs) =
      min (length pws) (nat (lc_MaxAttempts (pcfg_Lockout (ps_Config s))))" by simp_all
  with argon.wrong_attempt [OF h g assms(10)] s assms(8) show ?thesis
    by (auto simp: passwordError_def)
qed

section \<open>Witnesses\<close>

text \<open>A store with a limit of one failure, a user with the password \<open>pw\<close>, and clocks that stand still.\<close>

definition samplePasswordConfig :: password_config where
  "samplePasswordConfig = \<lparr>pcfg_PathPrefix = '''', pcfg_Issuer = '''', pcfg_SessionKey = '''',
     pcfg_RequireEmailVerification = False, pcfg_DefaultTenantName = '''', pcfg_Hashing = sampleHashing,
     pcfg_Policy = \<lparr>pp_MinLength = 2, pp_MaxLength = 0, pp_RejectContextual = False\<rparr>,
     pcfg_Lockout = \<lparr>lc_MaxAttempts = 1, lc_Window = 0\<rparr>,
     pcfg_Tokens = \<lparr>tc_ResetTokenExpiry = 0, tc_VerificationTokenExpiry = 0, tc_TokenLength = 0\<rparr>,
     pcfg_EmailSender = False\<rparr>"

definition samplePasswordStore :: "env \<Rightarrow> ('z world_scheme) password_store" where
  "samplePasswordStore E = \<lparr>ps_Inner = sampleStore, ps_Queries = OnPool,
     ps_Hasher = NewArgon2idHasher E sampleHashing, ps_Config = passwordDefaults samplePasswordConfig\<rparr>"

definition frozenEnv :: env where
  "frozenEnv = sampleEnv\<lparr>app_now := (\<lambda>_. 0), db_now := (\<lambda>_. 0)\<rparr>"

lemma frozen_simps [simp]:
  "db_fault frozenEnv t = None" "app_now frozenEnv t = 0" "db_now frozenEnv t = 0"
  "argon2_IDKey frozenEnv = argon2_IDKey sampleEnv" "rand_read frozenEnv = rand_read sampleEnv"
  by (simp_all add: frozenEnv_def)

lemma faultAt_argon: "argon2_IDKey (faultAt k E) = argon2_IDKey E"
  by (simp add: faultAt_def)

lemma samplePasswordConfig_simps [simp]:
  "pcfg_Issuer (passwordDefaults samplePasswordConfig) = ''local''"
  "pcfg_Hashing (passwordDefaults samplePasswordConfig) = sampleHashing"
  "lc_MaxAttempts (pcfg_Lockout (passwordDefaults samplePasswordConfig)) = 1"
  "lc_Window (pcfg_Lockout (passwordDefaults samplePasswordConfig)) = 15 * minute"
  "pcfg_RequireEmailVerification (passwordDefaults samplePasswordConfig) = False"
  "pcfg_Policy (passwordDefaults samplePasswordConfig) =
     \<lparr>pp_MinLength = 2, pp_MaxLength = 128, pp_RejectContextual = False\<rparr>"
  by (simp_all add: passwordDefaults_def samplePasswordConfig_def orDefault_def DefaultIssuer_def
      hashingDefaults_def sampleHashing_def orZero_def lockoutDefaults_def policyDefaults_def
      DefaultMaxPasswordLength_def)

lemma samplePasswordStore_new:
  "NewPasswordIdentityStore E True (Some sampleStore) samplePasswordConfig = Inr (samplePasswordStore E)"
  by (simp add: NewPasswordIdentityStore_def samplePasswordStore_def)

lemma samplePasswordStore_simps [simp]:
  "ps_Queries (samplePasswordStore E) = OnPool" "ps_Inner (samplePasswordStore E) = sampleStore"
  "ps_Hasher (samplePasswordStore E) = NewArgon2idHasher E sampleHashing"
  "ps_Config (samplePasswordStore E) = passwordDefaults samplePasswordConfig"
  by (simp_all add: samplePasswordStore_def)

definition localSampleUser :: user where
  "localSampleUser = sampleUser\<lparr>u_issuer := ''local'', u_subject := ''a@x''\<rparr>"

definition sampleCredential :: password_credential where
  "sampleCredential = \<lparr>pc_user_id = 104,
     pc_password_hash = encodePHC sampleHashing ''ss'' (argon2_IDKey sampleEnv ''pw'' ''ss'' 1 64 1 6),
     pc_hash_algorithm = ''argon2id'', pc_created_at = 0, pc_updated_at = 0\<rparr>"

definition loginDb :: database where
  "loginDb = sampleDb\<lparr>users := [localSampleUser], credentials := [sampleCredential]\<rparr>"

lemma loginDb_simps [simp]:
  "localUser loginDb ''a@x'' ''local'' = Some localSampleUser" "credentialOf loginDb 104 = Some sampleCredential"
  "recentFailures loginDb v since = 0" "allFailures loginDb v = []" "u_id localSampleUser = 104"
  "attempts loginDb = []"
  by (simp_all add: loginDb_def localUser_def localSampleUser_def credentialOf_def sampleCredential_def
      sampleUser_def recentFailures_def sampleDb_def allFailures_def)

lemma sample_keys:
  "argon2_IDKey sampleEnv ''pw'' ''ss'' 1 64 1 6 = ''pwss'' @ [CHR 0x00, CHR 0x00]"
  "argon2_IDKey sampleEnv ''wrong'' ''ss'' 1 64 1 6 = ''wrongs''"
  "argon2_IDKey sampleEnv ''bad'' ''ss'' 1 64 1 6 = ''badss'' @ [CHR 0x00]"
  by code_simp+

lemma sample_verify [simp]:
  assumes "argon2_IDKey E = argon2_IDKey sampleEnv"
  shows "hash_Verify (NewArgon2idHasher E sampleHashing) ''pw'' (pc_password_hash sampleCredential) = Inr (True, False)"
    and "hash_Verify (NewArgon2idHasher E sampleHashing) ''wrong'' (pc_password_hash sampleCredential) = Inr (False, False)"
    and "hash_Verify (NewArgon2idHasher E sampleHashing) ''bad'' (pc_password_hash sampleCredential) = Inr (False, False)"
  using assms sample_keys
  by (simp_all add: NewArgon2idHasher_def sampleCredential_def verify_encodePHC Let_def paramsDiffer_def
      sampleHashing_def)

lemma sample_loginStep:
  assumes "argon2_IDKey E = argon2_IDKey sampleEnv"
  shows "loginStep (samplePasswordStore E) ip cutoff now rehash ''a@x'' ''pw'' loginDb =
       (Inr (refOf localSampleUser), touchLogin 104 now (addAttempt 104 ip True now loginDb))"
    and "loginStep (samplePasswordStore E) ip cutoff now rehash ''a@x'' ''wrong'' loginDb =
       (Inl (passwordError ErrInvalidCredentials 401), addAttempt 104 ip False now loginDb)"
  using assms by (simp_all add: loginStep_def IsLockedOut_def applyRehash_def)

lemma sample_login:
  "\<exists>w'. run_state (Authenticate sampleEnv (samplePasswordStore sampleEnv) ''a@x'' ''pw'' '''')
     (sampleWorld loginDb) = (Inr (refOf localSampleUser), w')"
proof -
  obtain r w' where run: "run_state (Authenticate sampleEnv (samplePasswordStore sampleEnv) ''a@x'' ''pw'' '''')
     (sampleWorld loginDb) = (r, w')" by fastforce
  from argon.run_Authenticate_healthy [OF _ _ _ run, where cfg = sampleHashing] show ?thesis
    by (auto simp: run healthy_def sample_loginStep)
qed

text \<open>A credential whose hash was made with another configuration.\<close>

definition outdatedCredential :: password_credential where
  "outdatedCredential = sampleCredential\<lparr>pc_password_hash :=
     encodePHC (sampleHashing\<lparr>hc_Memory := 32\<rparr>) ''ss'' (argon2_IDKey sampleEnv ''pw'' ''ss'' 1 32 1 6)\<rparr>"

definition outdatedDb :: database where
  "outdatedDb = loginDb\<lparr>credentials := [outdatedCredential]\<rparr>"

lemma outdatedDb_simps [simp]:
  "localUser outdatedDb ''a@x'' ''local'' = Some localSampleUser"
  "credentialOf outdatedDb 104 = Some outdatedCredential" "recentFailures outdatedDb 104 since = 0"
  "credentials outdatedDb = [outdatedCredential]" "pc_user_id outdatedCredential = 104"
  using loginDb_simps
  by (simp_all add: outdatedDb_def localUser_def credentialOf_def recentFailures_def outdatedCredential_def
      sampleCredential_def)

lemma outdated_verify [simp]:
  "hash_Verify (NewArgon2idHasher sampleEnv sampleHashing) ''pw'' (pc_password_hash outdatedCredential) =
     Inr (True, True)"
proof -
  have "length (argon2_IDKey sampleEnv ''pw'' ''ss'' 1 32 1 6) = 6" by code_simp
  then show ?thesis
    by (simp add: NewArgon2idHasher_def outdatedCredential_def verify_encodePHC Let_def paramsDiffer_def
        sampleHashing_def)
qed

theorem authenticate_refines_step_witness:
  "\<exists>h t w'. run_state (Authenticate sampleEnv (samplePasswordStore sampleEnv) ''a@x'' ''pw'' '''')
       (sampleWorld outdatedDb) = (Inr (refOf localSampleUser), w') \<and>
     credentials (w_db w') = [outdatedCredential\<lparr>pc_password_hash := h, pc_updated_at := t\<rparr>] \<and>
     hasherVerify sampleEnv sampleHashing ''pw'' h = Inr (True, False)"
proof -
  let ?w = "(sampleWorld outdatedDb)\<lparr>w_tick := w_tick (sampleWorld outdatedDb) + 8\<rparr>"
  obtain h t where h: "rehashFrom sampleEnv (NewArgon2idHasher sampleEnv sampleHashing) ''pw'' ?w = Some (h, t)"
    by (simp add: rehashFrom_def NewArgon2idHasher_def run_hasherHash)
  obtain r w' where run: "run_state (Authenticate sampleEnv (samplePasswordStore sampleEnv) ''a@x'' ''pw'' '''')
     (sampleWorld outdatedDb) = (r, w')" by fastforce
  from authenticate_refines_step [OF samplePasswordStore_new _ run] h sample_argon2_contract show ?thesis
    by (auto simp: run healthy_def loginStep_def IsLockedOut_def applyRehash_def setHash_def touchLogin_def
        addAttempt_def)
qed

theorem authenticate_fault_tolerant_witness:
  "\<not> isOk (fst (run_state (Authenticate (faultAt 4 sampleEnv) (samplePasswordStore (faultAt 4 sampleEnv))
     ''a@x'' ''wrong'' '''') (sampleWorld loginDb)))"
  using authenticate_fault_tolerant [OF samplePasswordStore_new [of "faultAt 4 sampleEnv"]
      prod.collapse [symmetric], where email = "''a@x''" and pw = "''wrong''" and ip = "''''" and w = "sampleWorld loginDb"]
  by (auto simp: loginAllowed_def sample_loginStep faultAt_argon split: if_splits)

theorem authenticate_success_witness:
  "\<exists>w'. run_state (Authenticate sampleEnv (samplePasswordStore sampleEnv) ''a@x'' ''pw'' '''')
     (sampleWorld loginDb) = (Inr (refOf localSampleUser), w') \<and> length (attempts (w_db w')) = 1"
proof -
  obtain w' where run: "run_state (Authenticate sampleEnv (samplePasswordStore sampleEnv) ''a@x'' ''pw'' '''')
     (sampleWorld loginDb) = (Inr (refOf localSampleUser), w')"
    using sample_login by blast
  from authenticate_success [OF samplePasswordStore_new run] show ?thesis
    by (auto simp: run)
qed

definition lockedDb :: database where
  "lockedDb = addAttempt 104 None False 1000000000 loginDb"

theorem lockout_holds_witness:
  "fst (run_state (Authenticate sampleEnv (samplePasswordStore sampleEnv) ''a@x'' ''pw'' '''')
     (sampleWorld lockedDb)) = Inl (PasswordError ErrAccountLocked 423 '''')"
proof -
  have n: "recentFailures lockedDb 104 (app_now sampleEnv t - 15 * minute) = 1" if "t \<le> 2" for t
    using that by (auto simp: lockedDb_def recentFailures_def addAttempt_def recentFailure_def minute_def second_def)
  from lockout_holds [OF samplePasswordStore_new _ _ prod.collapse [symmetric], where w = "sampleWorld lockedDb"
      and email = "''a@x''" and u = localSampleUser and E = sampleEnv and pw = "''pw''" and ip = "''''"]
  show ?thesis
    by (simp add: healthy_def n del: sample_simps(3)) (simp add: lockedDb_def)
qed

theorem success_keeps_failures_witness:
  "recentFailures (w_db (snd (run_state (Authenticate sampleEnv (samplePasswordStore sampleEnv) ''a@x'' ''pw'' '''')
     (sampleWorld loginDb)))) 104 0 = 0"
proof -
  obtain w' where run: "run_state (Authenticate sampleEnv (samplePasswordStore sampleEnv) ''a@x'' ''pw'' '''')
     (sampleWorld loginDb) = (Inr (refOf localSampleUser), w')"
    using sample_login by blast
  from success_keeps_failures [OF samplePasswordStore_new _ run] show ?thesis
    by (simp add: run healthy_def)
qed

lemma wrong_passwords:
  "wrongPassword (samplePasswordStore frozenEnv) sampleCredential ''wrong''"
  "wrongPassword (samplePasswordStore frozenEnv) sampleCredential ''bad''"
  unfolding wrongPassword_def by (rule exI [of _ False], simp)+

theorem guess_limit_witness:
  "fst (run_state (Authenticate frozenEnv (samplePasswordStore frozenEnv) ''a@x'' ''pw'' '''')
     (snd (run_state (tryPasswords frozenEnv (samplePasswordStore frozenEnv) ''a@x'' '''' [''wrong'', ''bad''])
        (sampleWorld loginDb)))) = Inl (PasswordError ErrAccountLocked 423 '''')"
  using guess_limit [OF samplePasswordStore_new _ _ _ _ _ _ _ prod.collapse [symmetric] prod.collapse [symmetric],
      where E = frozenEnv and w = "sampleWorld loginDb" and email = "''a@x''" and u = localSampleUser
        and c = sampleCredential and pws = "[''wrong'', ''bad'']" and ip = "''''" and pw = "''pw''"]
  by (simp add: healthy_def withinWindow_def minute_def second_def wrong_passwords del: tryPasswords.simps)

end
