(* ===== verification/Registration.thy ===== *)
theory Registration
  imports Logins
begin

text \<open>
  What a registration leaves in the tables: the user, its credential and its verification
  token; and that a failed registration leaves nothing.
\<close>

section \<open>What a registration leaves\<close>

definition setCredential :: "uuid \<Rightarrow> string \<Rightarrow> int \<Rightarrow> database \<Rightarrow> database" where
  "setCredential uid h now d =
     (if credentialOf d uid = None
      then d\<lparr>credentials := credentials d @
             [\<lparr>pc_user_id = uid, pc_password_hash = h, pc_hash_algorithm = ''argon2id'',
               pc_created_at = now, pc_updated_at = now\<rparr>]\<rparr>
      else d\<lparr>credentials := map (\<lambda>c. if pc_user_id c = uid
               then c\<lparr>pc_password_hash := h, pc_hash_algorithm := ''argon2id'', pc_updated_at := now\<rparr>
               else c) (credentials d)\<rparr>)"

lemma find_map_same: "(\<And>x. P (f x) = P x) \<Longrightarrow> find P (map f xs) = map_option f (find P xs)"
  by (induction xs) auto

lemma credentialOf_set:
  "\<exists>c. credentialOf (setCredential uid h now d) uid = Some c \<and> pc_password_hash c = h"
proof (cases "credentialOf d uid")
  case None
  then show ?thesis by (simp add: setCredential_def credentialOf_def find_cong_append)
next
  case (Some c)
  then have "pc_user_id c = uid" by (auto simp: credentialOf_def dest: find_Some_set)
  with Some show ?thesis
    by (simp add: setCredential_def credentialOf_def find_map_same)
qed

lemma credentialOf_set_other:
  "v \<noteq> uid \<Longrightarrow> credentialOf (setCredential uid h now d) v = credentialOf d v"
proof -
  assume "v \<noteq> uid"
  then have "find (\<lambda>c. pc_user_id c = v) (map (\<lambda>c. if pc_user_id c = uid
      then c\<lparr>pc_password_hash := h, pc_hash_algorithm := ''argon2id'', pc_updated_at := now\<rparr> else c) cs) =
      find (\<lambda>c. pc_user_id c = v) cs" for cs :: "password_credential list"
    by (induction cs) auto
  with \<open>v \<noteq> uid\<close> show ?thesis
    by (auto simp: setCredential_def credentialOf_def find_cong_append split: option.splits)
qed

lemma setCredential_frame [simp]:
  "users (setCredential uid h now d) = users d" "tenants (setCredential uid h now d) = tenants d"
  "memberships (setCredential uid h now d) = memberships d" "attempts (setCredential uid h now d) = attempts d"
  "tokens (setCredential uid h now d) = tokens d"
  by (simp_all add: setCredential_def)

definition unregistered :: "'w password_store \<Rightarrow> register_request \<Rightarrow> database \<Rightarrow> bool" where
  "unregistered s req d \<longleftrightarrow>
     (case localUser d (rr_Email req) (cfgIssuer s) of
        None \<Rightarrow> True
      | Some u \<Rightarrow> credentialOf d (u_id u) = None)"

text \<open>The tables after a registration: the user, then its credential, then what \<open>B\<close> adds.\<close>

definition registered ::
    "'w password_store \<Rightarrow> register_request \<Rightarrow> string \<Rightarrow> (database \<Rightarrow> database \<Rightarrow> bool) \<Rightarrow>
     database \<Rightarrow> user_ref \<Rightarrow> database \<Rightarrow> bool" where
  "registered s req h B d0 ref d \<longleftrightarrow>
     unregistered s req d0 \<and>
     (\<exists>d1 now. resolved (identityWithTx (ps_Inner s)) (registrationIdentity s req) d0 ref d1 \<and>
        B (setCredential (ref_UserID ref) h now d1) d)"

lemma registerTx_success:
  assumes ok: "db_ok d0"
    and before: "\<And>ref P. triple (intx d0 n P) (before ref)
        (\<lambda>r. intx d0 n (\<lambda>d. \<forall>b. r = Inr b \<longrightarrow> (\<exists>d1. P d1 \<and> B ref b d1 d)))"
  shows "triple (intx d0 n (\<lambda>d. d = d0)) (registerTx E s req h before)
     (\<lambda>r w. \<forall>ref b. r = Inr (ref, b) \<longrightarrow> registered s req h (B ref b) d0 ref (w_db w))"
  (is "triple _ _ ?Q")
proof -
  let ?i = "registrationIdentity s req" and ?s = "identityWithTx (ps_Inner s)"
  define found where "found r x \<longleftrightarrow> x = d0 \<and>
      (case r of Inr u \<Rightarrow> localUser d0 (rr_Email req) (cfgIssuer s) = Some u
               | Inl e \<Rightarrow> localUser d0 (rr_Email req) (cfgIssuer s) = None)" for r :: "go_error + user" and x
  have user: "triple (intx d0 n (\<lambda>d. d = d0)) (GetUserByEmailAndIssuer E OnTx (rr_Email req) (cfgIssuer s))
      (\<lambda>r. intx d0 n (found r))"
    unfolding GetUserByEmailAndIssuer_def
    by (rule intx_row) (auto simp: sqlGetUserByEmailAndIssuer_def found_def localUser_def
        find_None_all filter_empty_conv dest: filter_Cons_find)
  have cred: "triple (intx d0 n (found existing))
      (case existing of Inl e \<Rightarrow> State_Monad.return (Inl e) | Inr u \<Rightarrow> GetPasswordCredential E OnTx (u_id u))
      (\<lambda>r. intx d0 n (\<lambda>x. x = d0 \<and> (\<not> isOk r \<longrightarrow> unregistered s req d0)))" for existing
    unfolding GetPasswordCredential_def
    by (intro triple_sum, rule triple_return, erule intx_mono, simp add: found_def unregistered_def,
        rule intx_row)
      (auto simp: found_def unregistered_def sqlGetPasswordCredential_def credentialOf_def
        find_None_all filter_empty_conv)
  have resolve: "triple (intx d0 n (\<lambda>x. x = d0 \<and> C)) (ResolveOrProvisionUser E ?s ?i)
      (\<lambda>r. intx d0 n (\<lambda>x. \<forall>ref. r = Inr ref \<longrightarrow> C \<and> resolved ?s ?i d0 ref x))" for C
    by (rule intx_step [OF committed_identity_store
          on_ResolveOrProvisionUser [OF ok, of ?s, unfolded identityWithTx_handle]]) simp
  have store: "triple (intx d0 n P) (UpsertPasswordCredential E OnTx uid h ''argon2id'')
      (\<lambda>r. intx d0 n (\<lambda>x. \<exists>d1. P d1 \<and> x = setCredential uid h n d1))" for P uid
    unfolding UpsertPasswordCredential_def
    by (rule intx_exec)
      (auto simp: sqlUpsertPasswordCredential_def setCredential_def credentialOf_def find_None_all
        split: if_splits)
  have ret: "\<not> isOk x \<Longrightarrow> triple (intx d0 n P) (State_Monad.return x) ?Q" for P x
    by (rule triple_return) auto
  show ?thesis
    unfolding registerTx_def
    by (rule triple_bind [OF user], rule triple_bind [OF cred], intro triple_if, rule ret, simp,
        rule triple_bind, rule triple_pre [OF resolve [of "unregistered s req d0"]],
        erule intx_mono, simp, intro triple_sum, rule ret, simp,
        rule triple_bind [OF store], intro triple_sum, rule ret, simp,
        rule triple_bind [OF before], intro triple_sum, rule ret, simp,
        rule triple_bind [OF intx_commit], rule triple_return)
      (auto simp: registered_def split: sum.splits)
qed

context password_hasher
begin

lemma register_success:
  assumes "ps_Hasher s = hasher" and ok: "db_ok (w_db w)"
    and before: "\<And>ref n P. triple (intx (w_db w) n P) (before ref)
        (\<lambda>r. intx (w_db w) n (\<lambda>d. \<forall>b. r = Inr b \<longrightarrow> (\<exists>d1. P d1 \<and> B ref b d1 d)))"
    and run: "run_state (register E s req before) w = (Inr (ref, b), w')"
  shows "\<exists>h w1 w2. run_state (hash_Hash hasher (rr_Password req)) w1 = (Inr h, w2) \<and>
           registered s req h (B ref b) (w_db w) ref (w_db w')"
proof -
  obtain rh w1 where h: "run_state (hash_Hash hasher (rr_Password req)) w = (rh, w1)" by fastforce
  from run h assms(1) obtain hs where hs: "rh = Inr hs"
    by (auto simp: register_def Let_def split: if_splits option.splits sum.splits)
  have db: "w_db w1 = w_db w" using hash_db [OF h] by simp
  from run h hs assms(1) have nf: "db_fault E (w_tick w1) = None"
    by (cases "db_fault E (w_tick w1)") (auto simp: register_def Let_def split: if_splits option.splits)
  let ?n = "db_now E (w_tick w1)"
  let ?w2 = "(tickw w1)\<lparr>w_tx := Some \<lparr>tx_db = w_db w, tx_now = ?n, tx_aborted = False\<rparr>\<rparr>"
  obtain r2 w2 where t: "run_state (registerTx E s req hs before) ?w2 = (r2, w2)" by fastforce
  from run h hs nf t db assms(1) have "r2 = Inr (ref, b)" "w_db w' = w_db w2"
    by (auto simp: register_def Let_def split: if_splits option.splits)
  moreover have "intx (w_db w) ?n (\<lambda>d. d = w_db w) ?w2"
    by (simp add: intx_def committed_def on_def db)
  note tripleD [OF registerTx_success [OF ok before] this t]
  ultimately have "registered s req hs (B ref b) (w_db w) ref (w_db w')"
    by simp
  with h hs show ?thesis by blast
qed

end

section \<open>Tokens\<close>

definition invalidateTokens :: "uuid \<Rightarrow> string \<Rightarrow> int \<Rightarrow> database \<Rightarrow> database" where
  "invalidateTokens uid ty now d = d\<lparr>tokens := map (\<lambda>t.
     if at_user_id t = uid \<and> at_token_type t = ty \<and> at_consumed_at t = None
     then t\<lparr>at_consumed_at := Some now\<rparr> else t) (tokens d)\<rparr>"

definition addToken :: "uuid \<Rightarrow> string \<Rightarrow> string \<Rightarrow> int \<Rightarrow> int \<Rightarrow> database \<Rightarrow> database" where
  "addToken uid th ty expires now d = d\<lparr>tokens := tokens d @
     [\<lparr>at_user_id = uid, at_token_hash = th, at_token_type = ty, at_expires_at = expires,
       at_consumed_at = None, at_created_at = now\<rparr>]\<rparr>"

text \<open>The tokens that could still be redeemed, were they not expired.\<close>

definition liveTokens :: "database \<Rightarrow> uuid \<Rightarrow> string \<Rightarrow> auth_token list" where
  "liveTokens d uid ty =
     filter (\<lambda>t. at_user_id t = uid \<and> at_token_type t = ty \<and> at_consumed_at t = None) (tokens d)"

lemma filter_map_none: "(\<And>x. P (f x) \<Longrightarrow> False) \<Longrightarrow> filter P (map f xs) = []"
  by (induction xs) auto

lemma liveTokens_reissue:
  "liveTokens (addToken uid th ty expires now (invalidateTokens uid ty now' d)) uid ty =
     [\<lparr>at_user_id = uid, at_token_hash = th, at_token_type = ty, at_expires_at = expires,
       at_consumed_at = None, at_created_at = now\<rparr>]"
  by (auto simp: liveTokens_def addToken_def invalidateTokens_def intro!: filter_map_none split: if_splits)

definition issuedToken ::
    "env \<Rightarrow> uuid \<Rightarrow> string \<Rightarrow> string \<Rightarrow> int \<Rightarrow> database \<Rightarrow> database \<Rightarrow> bool" where
  "issuedToken E uid ty plaintext now d1 d \<longleftrightarrow>
     (\<exists>expires. d = addToken uid (sha256Sum E plaintext) ty expires now (invalidateTokens uid ty now d1))"

lemma intx_frame:
  assumes "triple (committed d n) m (\<lambda>_. committed d n)"
    and "\<And>w r w'. run_state m w = (r, w') \<Longrightarrow> w_db w' = w_db w \<and> w_tx w' = w_tx w"
  shows "triple (intx d n P) m (\<lambda>_. intx d n P)"
  by (rule intx_step [OF assms(1) on_frame [OF assms(2)]])

lemma triple_pure: "(C \<Longrightarrow> triple P m Q) \<Longrightarrow> triple (\<lambda>w. P w \<and> C) m Q"
  by (auto simp: triple_def)

lemma intx_issueToken:
  "triple (intx d0 n P) (initiateEmailVerification E s OnTx uid)
     (\<lambda>r. intx d0 n (\<lambda>d. \<forall>t. r = Inr t \<longrightarrow>
        (\<exists>d1. P d1 \<and> issuedToken E uid ''email_verification'' t n d1 d)))"
proof -
  let ?ty = "''email_verification''"
  have inv: "triple (intx d0 n P) (InvalidateUserTokens E OnTx uid ?ty)
      (\<lambda>_. intx d0 n (\<lambda>d. \<exists>d1. P d1 \<and> d = invalidateTokens uid ?ty n d1))"
    unfolding InvalidateUserTokens_def
    by (rule intx_exec) (auto simp: sqlInvalidateUserTokens_def invalidateTokens_def)
  have gen: "triple (intx d0 n Q) (GenerateToken E k)
      (\<lambda>r w. intx d0 n Q w \<and> (\<forall>t h. r = Inr (t, h) \<longrightarrow> h = sha256Sum E t))" for Q k
    by (rule tripleI)
      (auto simp: run_GenerateToken sha256Sum_def intx_def committed_def on_def split: sum.splits)
  have now: "triple (intx d0 n Q) (timeNow E) (\<lambda>_. intx d0 n Q)" for Q
    by (rule intx_step [OF committed_timeNow on_env(2)])
  have ins: "triple (intx d0 n (\<lambda>d. \<exists>d1. P d1 \<and> d = invalidateTokens uid ?ty n d1))
      (InsertAuthToken E OnTx uid (sha256Sum E t) ?ty ex)
      (\<lambda>r. intx d0 n (\<lambda>d. \<exists>d1. P d1 \<and> issuedToken E uid ?ty t n d1 d))" for t ex
    unfolding InsertAuthToken_def
    by (rule intx_exec) (auto simp: sqlInsertAuthToken_def issuedToken_def addToken_def split: if_splits)
  have ret: "triple (\<lambda>w. intx d0 n Q w) (State_Monad.return (Inl e)) (\<lambda>r. intx d0 n (\<lambda>d. \<forall>t. r = Inr t \<longrightarrow> R t d))"
    for Q e and R :: "string \<Rightarrow> database \<Rightarrow> bool"
    by (rule triple_return) (auto elim: intx_mono)
  show ?thesis
    unfolding initiateEmailVerification_def
  proof (rule triple_bind [OF inv], rule triple_bind [OF gen], rule triple_pure, intro triple_sum triple_prod)
    fix r :: unit and rt :: "go_error + string \<times> string" and v t h
    assume "\<forall>t h. rt = Inr (t, h) \<longrightarrow> h = sha256Sum E t" and "rt = Inr v" and "v = (t, h)"
    then have h: "h = sha256Sum E t" by simp
    show "triple (intx d0 n (\<lambda>d. \<exists>d1. P d1 \<and> d = invalidateTokens uid ?ty n d1))
        (do { now \<leftarrow> timeNow E;
              ins \<leftarrow> InsertAuthToken E OnTx uid h ?ty
                (now + tc_VerificationTokenExpiry (pcfg_Tokens (ps_Config s)));
              State_Monad.return (case ins of Inl err \<Rightarrow> Inl (Wrapped ''failed to store token'' err)
                                            | Inr _ \<Rightarrow> Inr t) })
        (\<lambda>r. intx d0 n (\<lambda>d. \<forall>t. r = Inr t \<longrightarrow> (\<exists>d1. P d1 \<and> issuedToken E uid ?ty t n d1 d)))"
      unfolding h
      by (rule triple_bind [OF now], rule triple_bind [OF ins], rule triple_return)
        (auto elim!: intx_mono split: sum.splits)
  qed (rule ret)
qed

definition mailSend :: "env \<Rightarrow> (string \<Rightarrow> string \<Rightarrow> ('z, go_error option) io) option \<Rightarrow> bool" where
  "mailSend E send \<longleftrightarrow> (\<forall>f. send = Some f \<longrightarrow> f = (\<lambda>to t. sendMail E (EmailVerificationMail to t)))"

section \<open>The outbox during a registration\<close>

named_theorems mail_rules \<open>actions that send no mail\<close>

text \<open>A property of the outbox; only \<open>sendMail\<close> can change it.\<close>

definition outbox :: "(mail list \<Rightarrow> bool) \<Rightarrow> 'z world_scheme \<Rightarrow> bool" where
  "outbox M w \<longleftrightarrow> M (w_mail w)"

lemma outbox_runStmt: "triple (outbox M) (runStmt E h st) (\<lambda>_. outbox M)"
  by (rule tripleI)
    (auto simp: runStmt_def nextTick_def outbox_def abortTx_def
      split: dbtx.splits option.splits sum.splits prod.splits if_splits)

lemma outbox_query [mail_rules]:
  "triple (outbox M) (queryRow E h st) (\<lambda>_. outbox M)"
  "triple (outbox M) (queryRows E h st) (\<lambda>_. outbox M)"
  "triple (outbox M) (execStmt E h st) (\<lambda>_. outbox M)"
  unfolding queryRow_def queryRows_def execStmt_def
  by (intro triple_bind_inv outbox_runStmt triple_return; assumption)+

lemma outbox_env [mail_rules]:
  "triple (outbox M) (beginTx E) (\<lambda>_. outbox M)"
  "triple (outbox M) (commitTx E) (\<lambda>_. outbox M)"
  "triple (outbox M) rollbackTx (\<lambda>_. outbox M)"
  "triple (outbox M) (timeNow E) (\<lambda>_. outbox M)"
  "triple (outbox M) (newUUID E) (\<lambda>_. outbox M)"
  "triple (outbox M) (GenerateToken E k) (\<lambda>_. outbox M)"
  by (rule tripleI; auto simp: beginTx_def commitTx_def rollbackTx_def nextTick_def timeNow_def
      run_newUUID run_GenerateToken outbox_def split: option.splits sum.splits if_splits)+

lemma outbox_ResolveOrProvisionUser [mail_rules]:
  "triple (outbox M) (ResolveOrProvisionUser E s i) (\<lambda>_. outbox M)"
  unfolding identity_store_defs query_defs
  by (intro triple_bind_inv triple_rules mail_rules)

lemma outbox_initiateEmailVerification [mail_rules]:
  "triple (outbox M) (initiateEmailVerification E s h uid) (\<lambda>_. outbox M)"
  unfolding initiateEmailVerification_def query_defs
  by (intro triple_bind_inv triple_rules mail_rules)

text \<open>
  What the closure hands to the sender: with a sender exactly one mail, to the address of the
  request and with the token that it returns, which the sender accepted; before an error at
  most that one mail.
\<close>

definition verificationMail ::
    "env \<Rightarrow> register_request \<Rightarrow> bool \<Rightarrow> mail list \<Rightarrow> go_error + string \<Rightarrow> mail list \<Rightarrow> bool" where
  "verificationMail E req sender ms r ms' \<longleftrightarrow>
     (case r of
        Inl _ \<Rightarrow> ms' = ms \<or> (sender \<and> (\<exists>t. ms' = ms @ [EmailVerificationMail (rr_Email req) t]))
      | Inr t \<Rightarrow> if sender then ms' = ms @ [EmailVerificationMail (rr_Email req) t] \<and> (\<exists>k. mail_result E k = None)
                 else ms' = ms)"

lemma outbox_verificationClosure:
  assumes "mailSend E send"
  shows "triple (outbox (\<lambda>m. m = ms)) (verificationClosure E s req send ref)
     (\<lambda>r. outbox (verificationMail E req (send \<noteq> None) ms r))"
  unfolding verificationClosure_def
proof (rule triple_bind [OF outbox_initiateEmailVerification], intro triple_sum triple_option)
  fix t f assume "send = Some f"
  with assms have f: "f = (\<lambda>to t. sendMail E (EmailVerificationMail to t))" by (simp add: mailSend_def)
  show "triple (outbox (\<lambda>m. m = ms))
      (do { r \<leftarrow> f (rr_Email req) t;
            State_Monad.return (case r of Some err \<Rightarrow> Inl (Wrapped ''failed to send verification email'' err)
                                        | None \<Rightarrow> Inr t) })
      (\<lambda>r. outbox (verificationMail E req (send \<noteq> None) ms r))"
    unfolding f using \<open>send = Some f\<close>
    by (intro tripleI) (auto simp: outbox_def verificationMail_def split: option.splits)
qed (auto intro!: triple_return simp: outbox_def verificationMail_def)

lemma outbox_registerTx:
  assumes "\<And>ref. triple (outbox (\<lambda>m. m = ms)) (before ref) (\<lambda>r. outbox (M r))"
  shows "triple (outbox (\<lambda>m. m = ms)) (registerTx E s req h before)
     (\<lambda>r. outbox (\<lambda>m. case r of Inr (ref, b) \<Rightarrow> M (Inr b) m | Inl _ \<Rightarrow> m = ms \<or> (\<exists>r'. M r' m)))"
  (is "triple _ _ ?Q")
proof -
  have err: "triple (outbox (\<lambda>m. m = ms)) (State_Monad.return (Inl e)) ?Q" for e
    by (rule triple_return) (simp add: outbox_def)
  have cred: "triple (outbox (\<lambda>m. m = ms))
      (case existing of Inl e \<Rightarrow> State_Monad.return (Inl e) | Inr u \<Rightarrow> GetPasswordCredential E OnTx (u_id u))
      (\<lambda>_. outbox (\<lambda>m. m = ms))" for existing
    unfolding GetPasswordCredential_def by (intro triple_rules mail_rules)
  show ?thesis
    unfolding registerTx_def GetUserByEmailAndIssuer_def UpsertPasswordCredential_def
    by (rule triple_bind [OF outbox_query(1)], rule triple_bind [OF cred], intro triple_if, rule err,
        rule triple_bind [OF outbox_ResolveOrProvisionUser], intro triple_sum, simp only: err if_distrib [symmetric],
        rule triple_bind [OF outbox_query(3)], intro triple_sum, rule err,
        rule triple_bind [OF assms], intro triple_sum, rule triple_return, force simp: outbox_def,
        rule triple_bind [OF outbox_env(2)], rule triple_return)
      (auto simp: outbox_def split: sum.splits)
qed

context password_hasher
begin

lemma outbox_register:
  assumes "ps_Hasher s = hasher"
    and "\<And>ref. triple (outbox (\<lambda>m. m = ms)) (before ref) (\<lambda>r. outbox (M r))"
  shows "triple (outbox (\<lambda>m. m = ms)) (register E s req before)
     (\<lambda>r. outbox (\<lambda>m. case r of Inr (ref, b) \<Rightarrow> M (Inr b) m | Inl _ \<Rightarrow> m = ms \<or> (\<exists>r'. M r' m)))"
  (is "triple _ _ ?Q")
proof -
  have err: "triple (outbox (\<lambda>m. m = ms)) (State_Monad.return (Inl e)) ?Q" for e
    by (rule triple_return) (simp add: outbox_def)
  have hash: "triple (outbox (\<lambda>m. m = ms)) (hash_Hash hasher pw) (\<lambda>_. outbox (\<lambda>m. m = ms))" for pw
    by (rule tripleI) (auto simp: outbox_def dest: hash_db)
  have rollback: "triple P (deferRollback m) ?Q" if "triple P m ?Q" for P and m
    unfolding deferRollback_def
    by (rule triple_bind [OF that], rule triple_bind [OF outbox_env(3)], rule triple_return)
  show ?thesis
    unfolding register_def Let_def assms(1)
    by (intro triple_if triple_option err triple_bind [OF hash] triple_sum triple_bind [OF outbox_env(1)]
        rollback outbox_registerTx [OF assms(2)])
qed

end

section \<open>Properties of registration\<close>

lemma resolved_frame:
  assumes "resolved s i d0 ref d"
  shows "credentials d = credentials d0 \<and> attempts d = attempts d0 \<and> tokens d = tokens d0"
  using assms
  by (auto simp: resolved_def provisioned_def ensureTenant_def addUser_def addMember_def Let_def
      split: option.splits if_splits)

text \<open>What every success means, whatever the closure of the caller added besides.\<close>

lemma registered_credential:
  assumes "registered s req h B d0 ref d" and "\<And>d1. B d1 d \<Longrightarrow> credentials d = credentials d1"
  shows "unregistered s req d0 \<and>
    (\<exists>c. credentialOf d (ref_UserID ref) = Some c \<and> pc_password_hash c = h) \<and>
    (\<forall>v. v \<noteq> ref_UserID ref \<longrightarrow> credentialOf d v = credentialOf d0 v)"
proof -
  from assms(1) obtain d1 now where u: "unregistered s req d0"
    and r: "resolved (identityWithTx (ps_Inner s)) (registrationIdentity s req) d0 ref d1"
    and b: "B (setCredential (ref_UserID ref) h now d1) d" by (auto simp: registered_def)
  have c: "credentialOf d v = credentialOf (setCredential (ref_UserID ref) h now d1) v" for v
    by (simp add: credentialOf_def assms(2) [OF b])
  have "credentials d1 = credentials d0"
    using resolved_frame [OF r] by simp
  then have "credentialOf d1 v = credentialOf d0 v" for v by (simp add: credentialOf_def)
  with u credentialOf_set credentialOf_set_other show ?thesis by (auto simp: c)
qed

lemma intx_nothing:
  "triple (intx d0 n P) (State_Monad.return (Inr ()))
     (\<lambda>r. intx d0 n (\<lambda>d. \<forall>b. r = Inr b \<longrightarrow> (\<exists>d1. P d1 \<and> d = d1)))"
  by (rule triple_return) (auto elim: intx_mono)

lemma run_Register:
  "run_state (Register E s req) w = (case run_state (register E s req (\<lambda>_. State_Monad.return (Inr ()))) w of
     (r, w') \<Rightarrow> (case r of Inl e \<Rightarrow> Inl e | Inr (ref, _) \<Rightarrow> Inr ref, w'))"
  by (simp add: Register_def)

text \<open>
  \<open>Register\<close> is all or nothing: an error, whatever caused it, leaves the tables as they
  were. A success means that the email had no credential before; the user is the one that the
  identity store resolves or provisions; its credential verifies the password (and needs no
  rehash); and no other credential, no attempt and no token changes.
\<close>

theorem register_outcome:
  assumes "NewPasswordIdentityStore E hasPool inner cfg = Inr s" and "argon2_contract E"
    and "db_ok (w_db w)" and "run_state (Register E s req) w = (r, w')"
  shows "case r of
      Inl _ \<Rightarrow> w_db w' = w_db w
    | Inr ref \<Rightarrow>
        unregistered s req (w_db w) \<and>
        (\<exists>d1. resolved (identityWithTx (ps_Inner s)) (registrationIdentity s req) (w_db w) ref d1 \<and>
           users (w_db w') = users d1 \<and> tenants (w_db w') = tenants d1 \<and>
           memberships (w_db w') = memberships d1) \<and>
        (\<exists>c. credentialOf (w_db w') (ref_UserID ref) = Some c \<and>
           hasherVerify E (pcfg_Hashing (passwordDefaults cfg)) (rr_Password req) (pc_password_hash c) =
             Inr (True, False)) \<and>
        (\<forall>v. v \<noteq> ref_UserID ref \<longrightarrow> credentialOf (w_db w') v = credentialOf (w_db w) v) \<and>
        attempts (w_db w') = attempts (w_db w) \<and> tokens (w_db w') = tokens (w_db w)"
proof -
  note s = new_store [OF assms(1)]
  let ?before = "\<lambda>_. State_Monad.return (Inr ())"
  obtain r0 where run: "run_state (register E s req ?before) w = (r0, w')"
    and r: "r = (case r0 of Inl e \<Rightarrow> Inl e | Inr (ref, _) \<Rightarrow> Inr ref)"
    using assms(4) by (auto simp: run_Register split: prod.splits)
  have hasher: "ps_Hasher s = NewArgon2idHasher E (pcfg_Hashing (ps_Config s))" using s by simp
  show ?thesis
  proof (cases r0)
    case (Inl e)
    with tripleD [OF argon.register_atomic [OF hasher committed_return] refl run] r show ?thesis
      by simp
  next
    case (Inr p)
    then obtain ref where p: "r0 = Inr (ref, ())" by (cases p) auto
    obtain h w1 w2 where h: "run_state (hash_Hash (ps_Hasher s) (rr_Password req)) w1 = (Inr h, w2)"
      and reg: "registered s req h (\<lambda>d1 d. d = d1) (w_db w) ref (w_db w')"
      using argon.register_success [where before = ?before and B = "\<lambda>_ _ d1 d. d = d1",
          OF hasher assms(3) intx_nothing run [unfolded p]] unfolding hasher by blast
    from h have "run_state (hasherHash E (pcfg_Hashing (ps_Config s)) (rr_Password req)) w1 = (Inr h, w2)"
      by (simp add: hasher NewArgon2idHasher_def)
    from verify_fresh [OF assms(2) this]
    have "hasherVerify E (pcfg_Hashing (ps_Config s)) (rr_Password req) h = Inr (True, False)" by simp
    moreover obtain d1 now where d1: "resolved (identityWithTx (ps_Inner s)) (registrationIdentity s req) (w_db w) ref d1"
      and "w_db w' = setCredential (ref_UserID ref) h now d1"
      using reg by (auto simp: registered_def)
    ultimately show ?thesis
      using registered_credential [OF reg] resolved_frame [OF d1] s by (auto simp: r p)
  qed
qed

lemma committed_verificationClosure:
  "mailSend E send \<Longrightarrow> triple (committed d n) (verificationClosure E s req send ref) (\<lambda>_. committed d n)"
  unfolding verificationClosure_def
  by (intro triple_bind_inv triple_rules tx_rules) (auto simp: mailSend_def intro: tx_rules)

lemma intx_verificationClosure:
  assumes "mailSend E send"
  shows "triple (intx d0 n P) (verificationClosure E s req send ref)
     (\<lambda>r. intx d0 n (\<lambda>d. \<forall>t. r = Inr t \<longrightarrow>
        (\<exists>d1. P d1 \<and> (\<exists>n. issuedToken E (ref_UserID ref) ''email_verification'' t n d1 d))))"
proof -
  have send: "triple (intx d0 n P) (sendMail E m) (\<lambda>_. intx d0 n P)" for P m
    by (rule intx_step [OF committed_sendMail on_env(4)])
  show ?thesis
    unfolding verificationClosure_def
    apply (rule triple_bind [OF intx_issueToken])
    apply (intro triple_sum)
     apply (rule triple_return, auto elim: intx_mono)[1]
    apply (cases send)
     apply (simp, rule triple_return, erule intx_mono, blast)
    using assms
    apply (simp add: mailSend_def)
    apply (rule triple_bind [OF send], rule triple_return, erule intx_mono)
    apply (simp split: option.split, blast)
    done
qed

text \<open>
  C18 \<open>RegisterWithEmailVerification\<close> is all or nothing too, sending the mail included: a
  sender that fails, like any other error, leaves no user, credential or token behind, and at
  most one mail went out. A success leaves, besides what \<open>Register\<close> leaves, one live
  verification token of that user: the hash of the token handed to the caller; and with a
  sender exactly one mail has gone out, to the address of the request and with that token, and
  the sender has answered without an error.
\<close>

theorem register_with_verification_outcome:
  assumes "NewPasswordIdentityStore E hasPool inner cfg = Inr s" and "argon2_contract E"
    and "db_ok (w_db w)" and "mailSend E send"
    and "run_state (RegisterWithEmailVerification E s req send) w = (r, w')"
  shows "case r of
      Inl _ \<Rightarrow> w_db w' = w_db w \<and>
        (w_mail w' = w_mail w \<or>
         (send \<noteq> None \<and> (\<exists>token. w_mail w' = w_mail w @ [EmailVerificationMail (rr_Email req) token])))
    | Inr (ref, token) \<Rightarrow>
        (if send = None then w_mail w' = w_mail w
         else w_mail w' = w_mail w @ [EmailVerificationMail (rr_Email req) token] \<and>
              (\<exists>k. mail_result E k = None)) \<and>
        unregistered s req (w_db w) \<and>
        (\<exists>c. credentialOf (w_db w') (ref_UserID ref) = Some c \<and>
           hasherVerify E (pcfg_Hashing (passwordDefaults cfg)) (rr_Password req) (pc_password_hash c) =
             Inr (True, False)) \<and>
        (\<forall>v. v \<noteq> ref_UserID ref \<longrightarrow> credentialOf (w_db w') v = credentialOf (w_db w) v) \<and>
        map at_token_hash (liveTokens (w_db w') (ref_UserID ref) ''email_verification'') = [sha256Sum E token]"
proof -
  note s = new_store [OF assms(1)]
  let ?before = "verificationClosure E s req send"
  let ?B = "\<lambda>ref t d1 d. \<exists>n. issuedToken E (ref_UserID ref) ''email_verification'' t n d1 d"
  note run = assms(5) [unfolded RegisterWithEmailVerification_def]
  have hasher: "ps_Hasher s = NewArgon2idHasher E (pcfg_Hashing (ps_Config s))" using s by simp
  have "outbox (\<lambda>m. m = w_mail w) w" by (simp add: outbox_def)
  note mail = tripleD [OF argon.outbox_register [OF hasher outbox_verificationClosure [OF assms(4)]] this run]
  show ?thesis
  proof (cases r)
    case (Inl e)
    with mail have "w_mail w' = w_mail w \<or>
         (send \<noteq> None \<and> (\<exists>token. w_mail w' = w_mail w @ [EmailVerificationMail (rr_Email req) token]))"
      by (auto simp: outbox_def verificationMail_def split: sum.splits if_splits)
    with Inl tripleD [OF argon.register_atomic [OF hasher committed_verificationClosure [OF assms(4)]] refl run]
    show ?thesis by simp
  next
    case (Inr p)
    then obtain ref t where p: "r = Inr (ref, t)" by (cases p) auto
    obtain h w1 w2 where h: "run_state (hash_Hash (ps_Hasher s) (rr_Password req)) w1 = (Inr h, w2)"
      and reg: "registered s req h (?B ref t) (w_db w) ref (w_db w')"
      using argon.register_success [where before = ?before and B = ?B, OF hasher assms(3)
          intx_verificationClosure [OF assms(4)] run [unfolded p]] unfolding hasher by blast
    from h have "run_state (hasherHash E (pcfg_Hashing (ps_Config s)) (rr_Password req)) w1 = (Inr h, w2)"
      by (simp add: hasher NewArgon2idHasher_def)
    from verify_fresh [OF assms(2) this]
    have v: "hasherVerify E (pcfg_Hashing (ps_Config s)) (rr_Password req) h = Inr (True, False)" by simp
    obtain d1 n where "issuedToken E (ref_UserID ref) ''email_verification'' t n d1 (w_db w')"
      using reg by (auto simp: registered_def)
    then have "map at_token_hash (liveTokens (w_db w') (ref_UserID ref) ''email_verification'') = [sha256Sum E t]"
      by (auto simp: issuedToken_def liveTokens_reissue)
    moreover have "credentials d = credentials d1" if "?B ref t d1 d" for d1 d
      using that by (auto simp: issuedToken_def addToken_def invalidateTokens_def)
    note registered_credential [OF reg this]
    ultimately show ?thesis
      using v s mail by (auto simp: p outbox_def verificationMail_def split: if_splits)
  qed
qed

lemma hash_runs:
  assumes "ps_Hasher s = NewArgon2idHasher E hc" and "rand_read E (w_tick w) (unat (hc_SaltLength hc)) = Inr salt"
  shows "\<exists>h. run_state (hash_Hash (ps_Hasher s) pw) w = (Inr h, tickw w)"
  using assms by (simp add: NewArgon2idHasher_def run_hasherHash)

lemma register_duplicate_healthy:
  assumes "healthy E" and "localUser (w_db w) (rr_Email req) (cfgIssuer s) = Some u"
    and "credentialOf (w_db w) (u_id u) = Some c"
    and "rr_Email req \<noteq> ''''" "rr_Password req \<noteq> ''''"
    and "policyValidate E (pcfg_Policy (ps_Config s)) (rr_Password req)
           ([rr_Email req] @ (if rr_Username req \<noteq> '''' then [rr_Username req] else [])) = None"
    and "run_state (hash_Hash (ps_Hasher s) (rr_Password req)) w = (Inr h, tickw w)"
  shows "fst (run_state (register E s req before) w) = Inl alreadyRegistered"
  using assms
  by (auto simp: register_def Let_def registerTx_def GetUserByEmailAndIssuer_def GetPasswordCredential_def
      sqlGetUserByEmailAndIssuer_def sqlGetPasswordCredential_def localUser_def credentialOf_def
      filter_find split: prod.split)

text \<open>
  An email that has a credential cannot be registered again: under no faults does it
  succeed, and nothing changes. With a healthy database, a working random source and a
  password that the policy accepts, the answer is the 409 error.
\<close>

theorem register_duplicate:
  assumes "NewPasswordIdentityStore E hasPool inner cfg = Inr s" and "db_ok (w_db w)"
    and "localUser (w_db w) (rr_Email req) (pcfg_Issuer (passwordDefaults cfg)) = Some u"
    and "credentialOf (w_db w) (u_id u) = Some c"
    and "run_state (Register E s req) w = (r, w')"
  shows "\<not> isOk r \<and> w_db w' = w_db w \<and>
    (healthy E \<and> rr_Email req \<noteq> '''' \<and> rr_Password req \<noteq> '''' \<and>
     policyValidate E (pcfg_Policy (passwordDefaults cfg)) (rr_Password req)
       ([rr_Email req] @ (if rr_Username req \<noteq> '''' then [rr_Username req] else [])) = None \<and>
     isOk (rand_read E (w_tick w) (unat (hc_SaltLength (pcfg_Hashing (passwordDefaults cfg))))) \<longrightarrow>
     r = Inl (PasswordError ErrEmailAlreadyRegistered 409 ''an account with this email already exists''))"
proof -
  note s = new_store [OF assms(1)]
  let ?before = "\<lambda>_. State_Monad.return (Inr ())"
  have hasher: "ps_Hasher s = NewArgon2idHasher E (pcfg_Hashing (ps_Config s))" using s by simp
  obtain r0 where run: "run_state (register E s req ?before) w = (r0, w')"
    and r: "r = (case r0 of Inl e \<Rightarrow> Inl e | Inr (ref, _) \<Rightarrow> Inr ref)"
    using assms(5) by (auto simp: run_Register split: prod.splits)
  have no: "\<not> isOk r0"
  proof
    assume "isOk r0"
    then obtain ref where p: "r0 = Inr (ref, ())" by (cases r0) auto
    obtain h where "registered s req h (\<lambda>d1 d. d = d1) (w_db w) ref (w_db w')"
      using argon.register_success [where before = ?before and B = "\<lambda>_ _ d1 d. d = d1",
          OF hasher assms(2) intx_nothing run [unfolded p]] by blast
    with assms(3,4) s show False by (simp add: registered_def unregistered_def)
  qed
  moreover have "w_db w' = w_db w"
    using tripleD [OF argon.register_atomic [OF hasher committed_return] refl run] no by simp
  moreover have "r0 = Inl alreadyRegistered"
    if ok: "healthy E" "rr_Email req \<noteq> ''''" "rr_Password req \<noteq> ''''"
      "policyValidate E (pcfg_Policy (passwordDefaults cfg)) (rr_Password req)
       ([rr_Email req] @ (if rr_Username req \<noteq> '''' then [rr_Username req] else [])) = None"
      "isOk (rand_read E (w_tick w) (unat (hc_SaltLength (pcfg_Hashing (passwordDefaults cfg)))))"
  proof -
    obtain salt where "rand_read E (w_tick w) (unat (hc_SaltLength (pcfg_Hashing (passwordDefaults cfg)))) = Inr salt"
      using ok(5) by (auto simp: isOk_def split: sum.splits)
    then
    obtain h where "run_state (hash_Hash (ps_Hasher s) (rr_Password req)) w = (Inr h, tickw w)"
      using hash_runs [OF hasher, of w salt] s by auto
    from register_duplicate_healthy [OF ok(1) _ assms(4) ok(2,3) _ this, of ?before] assms(3) ok(4) s run
    show ?thesis by simp
  qed
  ultimately show ?thesis
    by (auto simp: r alreadyRegistered_def split: sum.splits)
qed

text \<open>Local users are identified by their email: what registration makes of the subject.\<close>

definition localSubjects :: "string \<Rightarrow> database \<Rightarrow> bool" where
  "localSubjects issuer d \<longleftrightarrow> (\<forall>u\<in>set (users d). u_issuer u = issuer \<longrightarrow> u_subject u = u_email u)"

lemma localUser_unique:
  assumes "db_ok d" "u \<in> set (users d)" "u_email u = email" "u_issuer u = issuer" "email \<noteq> ''''"
  shows "localUser d email issuer = Some u"
proof -
  have dist: "distinct (map (\<lambda>u. (u_email u, u_issuer u)) (filter (\<lambda>u. u_email u \<noteq> '''') (users d)))"
    using assms(1) by (simp add: db_ok_def users_ok_def)
  have "v = u" if "v \<in> set (users d)" "u_email v = email" "u_issuer v = issuer" for v
    by (rule distinct_map_eqD [OF dist]) (simp_all add: that assms)
  then show ?thesis
    unfolding localUser_def using assms(2-4) by (intro find_unique) blast+
qed

lemma provisioned_users:
  assumes "provisioned s i d0 ref d"
  shows "\<exists>uid login t. users d = users d0 @ [identityUser i uid login t] \<and>
           ref = \<lparr>ref_UserID = uid, ref_Issuer = id_Issuer i, ref_Subject = id_Subject i\<rparr>"
proof -
  obtain n tid t1 uid login t2 t3 where
    d: "d = addMember uid tid RoleMember t3 (addUser i uid login t2 (ensureTenant (is_DefaultTenantName s) n t1 d0))"
    and "ref = \<lparr>ref_UserID = uid, ref_Issuer = id_Issuer i, ref_Subject = id_Subject i\<rparr>"
    using assms unfolding provisioned_def Let_def by blast
  moreover have "users (ensureTenant (is_DefaultTenantName s) n t1 d0) = users d0" by (simp add: ensureTenant_def)
  then have "users d = users d0 @ [identityUser i uid login t2]"
    by (simp add: d addMember_def addUser_def)
  ultimately show ?thesis by blast
qed

lemma registered_user:
  assumes "registered s req h B d0 ref d" and "\<And>d1. B d1 d \<Longrightarrow> users d = users d1"
    and "localSubjects (cfgIssuer s) d0"
  shows "localSubjects (cfgIssuer s) d \<and>
    (\<exists>u\<in>set (users d). u_email u = rr_Email req \<and> u_issuer u = cfgIssuer s \<and> refOf u = ref)"
proof -
  from assms(1) obtain d1 now where
    r: "resolved (identityWithTx (ps_Inner s)) (registrationIdentity s req) d0 ref d1"
    and b: "B (setCredential (ref_UserID ref) h now d1) d" by (auto simp: registered_def)
  have d: "users d = users d1" using assms(2) [OF b] by simp
  show ?thesis
  proof (cases "userOf d0 (registrationIdentity s req)")
    case None
    with r have "provisioned (identityWithTx (ps_Inner s)) (registrationIdentity s req) d0 ref d1"
      by (simp add: resolved_def)
    from provisioned_users [OF this] show ?thesis
      using assms(3)
      by (auto simp: d localSubjects_def identityUser_def registrationIdentity_def refOf_def)
  next
    case (Some u)
    then have "u \<in> set (users d0)" "u_issuer u = cfgIssuer s" "u_subject u = rr_Email req"
      by (auto simp: userOf_def registrationIdentity_def dest: find_Some_set)
    with Some r show ?thesis using assms(3)
      by (auto simp: d resolved_def localSubjects_def refOf_def toUserRef_def userRow_def)
  qed
qed

text \<open>
  C19 Who has registered can log in: after a successful registration, with the tables that
  it left and a healthy database, the email and the password authenticate as the user that
  the registration returned, unless verification of the email is required or the account is
  locked out.
\<close>

theorem register_then_login:
  assumes "NewPasswordIdentityStore E hasPool inner cfg = Inr s" and "argon2_contract E" and "healthy E"
    and "Schema.inv db_ok w" and "localSubjects (pcfg_Issuer (passwordDefaults cfg)) (w_db w)"
    and "run_state (Register E s req) w = (Inr ref, w1)"
    and "w_db w2 = w_db w1"
    and "\<not> pcfg_RequireEmailVerification (passwordDefaults cfg)"
    and "int (recentFailures (w_db w2) (ref_UserID ref)
           (app_now E (w_tick w2 + 2) - lc_Window (pcfg_Lockout (passwordDefaults cfg))))
         < lc_MaxAttempts (pcfg_Lockout (passwordDefaults cfg))"
    and "run_state (Authenticate E s (rr_Email req) (rr_Password req) ip) w2 = (r, w3)"
  shows "r = Inr ref"
proof -
  note s = new_store [OF assms(1)]
  let ?before = "\<lambda>_. State_Monad.return (Inr ())"
  let ?cutoff = "app_now E (w_tick w2 + 2) - lc_Window (pcfg_Lockout (ps_Config s))"
  have hasher: "ps_Hasher s = NewArgon2idHasher E (pcfg_Hashing (ps_Config s))" using s by simp
  have run: "run_state (register E s req ?before) w = (Inr (ref, ()), w1)"
    using assms(6) by (auto simp: run_Register split: prod.splits sum.splits)
  have email: "rr_Email req \<noteq> ''''" using run by (auto simp: register_def)
  have ok: "db_ok (w_db w)" using assms(4) by (simp add: Schema.inv_def)
  have ok1: "db_ok (w_db w1)"
    using tripleD [OF argon.inv_register [OF hasher inv_return stmt_inv_db_ok] assms(4) run] by (simp add: Schema.inv_def)
  obtain h wa wb where h: "run_state (hash_Hash (ps_Hasher s) (rr_Password req)) wa = (Inr h, wb)"
    and reg: "registered s req h (\<lambda>d1 d. d = d1) (w_db w) ref (w_db w1)"
    using argon.register_success [where before = ?before and B = "\<lambda>_ _ d1 d. d = d1",
        OF hasher ok intx_nothing run] unfolding hasher by blast
  from h have "run_state (hasherHash E (pcfg_Hashing (ps_Config s)) (rr_Password req)) wa = (Inr h, wb)"
    by (simp add: hasher NewArgon2idHasher_def)
  from verify_fresh [OF assms(2) this]
  have v: "hash_Verify (ps_Hasher s) (rr_Password req) h = Inr (True, False)"
    by (simp add: hasher NewArgon2idHasher_def)
  obtain u where "u \<in> set (users (w_db w1))" "u_email u = rr_Email req" "u_issuer u = cfgIssuer s"
    and ref: "refOf u = ref"
    using registered_user [OF reg] assms(5) s by auto
  with localUser_unique [OF ok1] email have u: "localUser (w_db w1) (rr_Email req) (cfgIssuer s) = Some u"
    by blast
  have uid: "ref_UserID ref = u_id u" using ref by (auto simp: refOf_def)
  obtain c where c: "credentialOf (w_db w1) (u_id u) = Some c" "pc_password_hash c = h"
    using registered_credential [OF reg] uid by auto
  obtain rehash now where run2: "(r, w_db w3) = loginStep s (ipOf E ip) ?cutoff now rehash
      (rr_Email req) (rr_Password req) (w_db w2)"
    using argon.run_Authenticate_healthy [OF assms(3) hasher s [THEN conjunct1] assms(10)] by blast
  have "\<not> IsLockedOut (recentFailures (w_db w1) (u_id u) ?cutoff) (pcfg_Lockout (ps_Config s))"
    using assms(7,9) s uid by (simp add: IsLockedOut_def)
  with run2 u c v assms(7,8) s ref show ?thesis
    by (simp add: loginStep_def del: add_2_eq_Suc')
qed

section \<open>Witnesses\<close>

definition sampleRegistration :: register_request where
  "sampleRegistration = \<lparr>rr_Email = ''a@x'', rr_Password = ''pw'', rr_Username = '''', rr_Name = ''''\<rparr>"

abbreviation sampleRegister :: "(unit, go_error + user_ref) io" where
  "sampleRegister \<equiv> Register sampleEnv (samplePasswordStore sampleEnv) sampleRegistration"

lemma sample_policy:
  "policyValidate E (pcfg_Policy (passwordDefaults samplePasswordConfig)) ''pw'' ws = None"
  by (simp add: policyValidate_def runes.simps isControl_def) 

lemma sample_register:
  "\<exists>ref w'. run_state sampleRegister (sampleWorld empty_db) =
     (Inr ref, w') \<and> attempts (w_db w') = []"
  using sample_policy [of sampleEnv "[''a@x'']"]
  apply (simp add: Register_def register_def registerTx_def sampleRegistration_def Let_def samplePasswordStore_simps
      NewArgon2idHasher_def run_hasherHash sampleStore_def sampleWorld_def NewPostgresIdentityStore_def
      identityWithTx_def registrationIdentity_def
      ResolveOrProvisionUser_def identity_store_defs query_defs sql_defs empty_db_def 
      orDefault_def nonEmpty_def userConflict_def tenantExists_def userExists_def RoleMember_def
      roleNames_def userRow_def toUserRef_def run_newUUID queryRow_def queryRows_def execStmt_def)
  done

theorem register_outcome_witness:
  "\<exists>ref w' c. run_state sampleRegister (sampleWorld empty_db) = (Inr ref, w') \<and>
     credentialOf (w_db w') (ref_UserID ref) = Some c \<and>
     hasherVerify sampleEnv sampleHashing ''pw'' (pc_password_hash c) = Inr (True, False)"
proof -
  obtain ref w' where run: "run_state sampleRegister (sampleWorld empty_db) = (Inr ref, w')"
    using sample_register by blast
  from register_outcome [OF samplePasswordStore_new sample_argon2_contract _ run] run show ?thesis
    by (auto simp: db_ok_empty sampleRegistration_def)
qed

lemma sample_register_mail:
  "\<exists>ref t w'. run_state (RegisterWithEmailVerification sampleEnv (samplePasswordStore sampleEnv)
       sampleRegistration (Some (\<lambda>to t. sendMail sampleEnv (EmailVerificationMail to t)))) (sampleWorld empty_db) =
     (Inr (ref, t), w')"
  using sample_policy [of sampleEnv "[''a@x'']"]
  by (simp add: RegisterWithEmailVerification_def verificationClosure_def initiateEmailVerification_def
      run_GenerateToken register_def registerTx_def sampleRegistration_def Let_def samplePasswordStore_simps
      NewArgon2idHasher_def run_hasherHash sampleStore_def sampleWorld_def NewPostgresIdentityStore_def
      identityWithTx_def registrationIdentity_def ResolveOrProvisionUser_def identity_store_defs query_defs
      sql_defs empty_db_def orDefault_def nonEmpty_def userConflict_def tenantExists_def userExists_def
      RoleMember_def roleNames_def userRow_def toUserRef_def run_newUUID queryRow_def queryRows_def
      execStmt_def tokenTypes_def)

theorem register_with_verification_outcome_witness:
  "\<exists>ref t w'. run_state (RegisterWithEmailVerification sampleEnv (samplePasswordStore sampleEnv)
       sampleRegistration (Some (\<lambda>to t. sendMail sampleEnv (EmailVerificationMail to t)))) (sampleWorld empty_db) =
     (Inr (ref, t), w') \<and> w_mail w' = [EmailVerificationMail ''a@x'' t] \<and>
     map at_token_hash (liveTokens (w_db w') (ref_UserID ref) ''email_verification'') = [sha256Sum sampleEnv t]"
proof -
  obtain ref t w' where run: "run_state (RegisterWithEmailVerification sampleEnv (samplePasswordStore sampleEnv)
       sampleRegistration (Some (\<lambda>to t. sendMail sampleEnv (EmailVerificationMail to t)))) (sampleWorld empty_db) =
     (Inr (ref, t), w')"
    using sample_register_mail by blast
  from register_with_verification_outcome [OF samplePasswordStore_new sample_argon2_contract _ _ run] run show ?thesis
    by (auto simp: db_ok_empty mailSend_def sampleRegistration_def)
qed

lemma db_ok_loginDb: "db_ok loginDb"
  by (simp add: loginDb_def sampleDb_def db_ok_def users_ok_def userExists_def tenantExists_def
      localSampleUser_def sampleUser_def sampleCredential_def roleNames_def)

theorem register_duplicate_witness:
  "\<exists>w'. run_state sampleRegister (sampleWorld loginDb) =
     (Inl (PasswordError ErrEmailAlreadyRegistered 409 ''an account with this email already exists''), w')"
proof -
  obtain r w' where run: "run_state sampleRegister (sampleWorld loginDb) = (r, w')" by fastforce
  from register_duplicate [OF samplePasswordStore_new _ _ _ run, of localSampleUser sampleCredential]
  have "r = Inl (PasswordError ErrEmailAlreadyRegistered 409 ''an account with this email already exists'')"
    using sample_policy [of sampleEnv "[''a@x'']"]
    by (simp add: db_ok_loginDb sampleRegistration_def healthy_def)
  with run show ?thesis by simp
qed

theorem register_then_login_witness:
  "\<exists>ref w1. run_state sampleRegister (sampleWorld empty_db) = (Inr ref, w1) \<and>
     fst (run_state (Authenticate sampleEnv (samplePasswordStore sampleEnv) ''a@x'' ''pw'' '''') w1) = Inr ref"
proof -
  obtain ref w1 where run: "run_state sampleRegister (sampleWorld empty_db) = (Inr ref, w1)"
    and a: "attempts (w_db w1) = []"
    using sample_register by blast
  have e: "rr_Email sampleRegistration = ''a@x''" "rr_Password sampleRegistration = ''pw''"
    by (simp_all add: sampleRegistration_def)
  from register_then_login [OF samplePasswordStore_new sample_argon2_contract _ _ _ run refl _ _ prod.collapse [symmetric],
      where ip = "''''", unfolded e]
  have "fst (run_state (Authenticate sampleEnv (samplePasswordStore sampleEnv) ''a@x'' ''pw'' '''') w1) = Inr ref"
    by (simp add: healthy_def Schema.inv_def db_ok_empty localSubjects_def recentFailures_def a)
      (simp add: empty_db_def)
  with run show ?thesis by blast
qed

end
