(* ===== verification/Resets.thy ===== *)
theory Resets
  imports Registration
begin

text \<open>
  Password changes and the tokens of resets and verifications: what \<open>ConsumeAuthToken\<close>
  redeems, what the operations of \<open>auth/password/store.go\<close> that redeem or issue a token do
  under any faults, and the whole reset flow.
\<close>

section \<open>Redeeming a token\<close>

definition redeemable :: "database \<Rightarrow> string \<Rightarrow> string \<Rightarrow> int \<Rightarrow> auth_token option" where
  "redeemable d h ty now = find (consumable h ty now) (tokens d)"

definition spend :: "string \<Rightarrow> string \<Rightarrow> int \<Rightarrow> database \<Rightarrow> database" where
  "spend h ty now d = d\<lparr>tokens := map (\<lambda>t. if consumable h ty now t
     then t\<lparr>at_consumed_at := Some now\<rparr> else t) (tokens d)\<rparr>"

text \<open>No token with this hash and type can be redeemed from \<open>now\<close> on.\<close>

definition spent :: "database \<Rightarrow> string \<Rightarrow> string \<Rightarrow> int \<Rightarrow> bool" where
  "spent d h ty now \<longleftrightarrow> (\<forall>t\<in>set (tokens d). at_token_hash t = h \<and> at_token_type t = ty \<longrightarrow>
     at_consumed_at t \<noteq> None \<or> at_expires_at t \<le> now)"

lemma redeemable_Some: "redeemable d h ty now = Some t \<Longrightarrow>
    t \<in> set (tokens d) \<and> at_token_hash t = h \<and> at_token_type t = ty \<and> at_consumed_at t = None \<and>
    now < at_expires_at t"
  by (auto simp: redeemable_def consumable_def dest: find_Some_set)

lemma redeemable_spent:
  assumes "spent d h ty now" and "now \<le> now'"
  shows "redeemable d h ty now' = None"
proof -
  have "\<not> consumable h ty now' t" if "t \<in> set (tokens d)" for t
  proof
    assume c: "consumable h ty now' t"
    with assms(1) that have "at_expires_at t \<le> now" by (auto simp: spent_def consumable_def)
    with assms(2) c show False by (simp add: consumable_def)
  qed
  then show ?thesis by (simp add: redeemable_def find_None_all)
qed

lemma spent_spend: "spent (spend h ty now d) h ty now"
proof (unfold spent_def, intro ballI impI)
  fix t assume "t \<in> set (tokens (spend h ty now d))" and k: "at_token_hash t = h \<and> at_token_type t = ty"
  then obtain t0 where t: "t = (if consumable h ty now t0 then t0\<lparr>at_consumed_at := Some now\<rparr> else t0)"
    by (force simp: spend_def)
  show "at_consumed_at t \<noteq> None \<or> at_expires_at t \<le> now"
  proof (cases "consumable h ty now t0")
    case True
    with t show ?thesis by simp
  next
    case False
    with t have "t = t0" by simp
    with k False show ?thesis by (auto simp: consumable_def not_less)
  qed
qed

lemma spend_none: "redeemable d h ty now = None \<Longrightarrow> spend h ty now d = d"
proof -
  assume "redeemable d h ty now = None"
  then have "map (\<lambda>t. if consumable h ty now t then t\<lparr>at_consumed_at := Some now\<rparr> else t) (tokens d) = tokens d"
    by (intro map_idI) (auto simp: redeemable_def find_None_all)
  then show ?thesis by (simp add: spend_def)
qed

lemma run_consumeToken:
  assumes "ps_Queries s = OnPool"
  shows "run_state (consumeToken E s token ty) w =
     (case db_fault E (w_tick w) of
        Some f \<Rightarrow> (Inl (Wrapped ''failed to consume token'' (faultError f)), tickw w)
      | None \<Rightarrow>
          (case redeemable (w_db w) (sha256Sum E token) ty (db_now E (w_tick w)) of
             None \<Rightarrow> Inl (passwordError ErrTokenInvalid 400)
           | Some t \<Rightarrow> Inr (at_user_id t),
           (tickw w)\<lparr>w_db := spend (sha256Sum E token) ty (db_now E (w_tick w)) (w_db w)\<rparr>))"
  using assms
  by (simp add: consumeToken_def ConsumeAuthToken_def sqlConsumeAuthToken_def redeemable_def filter_map_find
      spend_def split: option.split)

section \<open>Storing a new password\<close>

definition userById :: "database \<Rightarrow> uuid \<Rightarrow> user option" where
  "userById d uid = find (\<lambda>u. u_id u = uid) (users d)"

definition acceptable :: "env \<Rightarrow> 'w password_store \<Rightarrow> user \<Rightarrow> string \<Rightarrow> bool" where
  "acceptable E s u pw \<longleftrightarrow> policyValidate E (pcfg_Policy (ps_Config s)) pw (userContextWords u) = None"

lemma run_GetUserByID_pool:
  "run_state (GetUserByID E OnPool uid) w =
     (case db_fault E (w_tick w) of
        Some f \<Rightarrow> (Inl (faultError f), tickw w)
      | None \<Rightarrow> (case userById (w_db w) uid of None \<Rightarrow> Inl ErrNoRows | Some u \<Rightarrow> Inr u, tickw w))"
  by (simp add: GetUserByID_def sqlGetUserByID_def userById_def filter_find tickw_def split: option.splits)

lemma run_UpdatePasswordHash_pool:
  "run_state (UpdatePasswordHash E OnPool uid h) w =
     (case db_fault E (w_tick w) of
        Some f \<Rightarrow> (Inl (faultError f), tickw w)
      | None \<Rightarrow> (Inr (), (tickw w)\<lparr>w_db := setHash uid h (db_now E (w_tick w)) (w_db w)\<rparr>))"
  by (simp add: UpdatePasswordHash_def sqlUpdatePasswordHash_def setHash_def split: option.splits)

context password_hasher
begin

lemma storeNewPassword_outcome:
  assumes "ps_Hasher s = hasher" and "ps_Queries s = OnPool" and contract
    and run: "run_state (storeNewPassword E s uid pw m) w = (r, w')"
  shows "case r of
      Inl _ \<Rightarrow> w_db w' = w_db w
    | Inr _ \<Rightarrow> \<exists>u h now. userById (w_db w) uid = Some u \<and> acceptable E s u pw \<and>
        hash_Verify hasher pw h = Inr (True, False) \<and> w_db w' = setHash uid h now (w_db w)"
proof (cases "run_state (GetUserByID E OnPool uid) w")
  case (Pair ru w1)
  then have w1: "w1 = tickw w" and u: "\<And>u. ru = Inr u \<Longrightarrow> userById (w_db w) uid = Some u"
    by (auto simp: run_GetUserByID_pool split: option.splits)
  show ?thesis
  proof (cases ru)
    case (Inl e)
    with run Pair w1 show ?thesis by (auto simp: storeNewPassword_def assms(2))
  next
    case (Inr usr)
    obtain rh w2 where h: "run_state (hash_Hash hasher pw) w1 = (rh, w2)" by fastforce
    have db: "w_db w2 = w_db w" using hash_db [OF h] w1 by simp
    have v: "hash_Verify hasher pw x = Inr (True, False)" if "rh = Inr x" for x
      using verify_hash [OF assms(3)] h that by blast
    show ?thesis
    proof (cases "acceptable E s usr pw")
      case False
      with run Pair w1 Inr show ?thesis
        by (auto simp: storeNewPassword_def assms(2) acceptable_def)
    next
      case True
      with run Pair Inr h db show ?thesis
        using u [OF Inr] v
        by (auto simp: storeNewPassword_def assms(1,2) acceptable_def run_UpdatePasswordHash_pool
            split: sum.splits option.splits; blast)
    qed
  qed
qed

end

section \<open>Properties\<close>

lemma run_CompletePasswordReset:
  assumes "ps_Queries s = OnPool"
  shows "run_state (CompletePasswordReset E s token pw) w =
     (case db_fault E (w_tick w) of
        Some f \<Rightarrow> (Inl (Wrapped ''failed to consume token'' (faultError f)), tickw w)
      | None \<Rightarrow>
          (let w1 = (tickw w)\<lparr>w_db := spend (sha256Sum E token) ''password_reset'' (db_now E (w_tick w)) (w_db w)\<rparr>
           in case redeemable (w_db w) (sha256Sum E token) ''password_reset'' (db_now E (w_tick w)) of
                None \<Rightarrow> (Inl (passwordError ErrTokenInvalid 400), w1)
              | Some t \<Rightarrow> run_state (storeNewPassword E s (at_user_id t) pw ''failed to hash password'') w1))"
  by (simp add: CompletePasswordReset_def run_consumeToken [OF assms] Let_def split: option.split)

lemma userById_spend [simp]: "userById (spend h ty now d) uid = userById d uid"
  by (simp add: userById_def spend_def)

text \<open>
  C16 \<open>CompletePasswordReset\<close> under any faults: it succeeds only with the plaintext of an
  unconsumed, unexpired reset token and a password that the policy accepts for the owner of
  that token; then the token is spent and only the owner's hash changes, to one that verifies
  the new password. An error leaves the tables as they were, or with the token spent.
\<close>

theorem complete_reset_outcome:
  assumes "NewPasswordIdentityStore E hasPool inner cfg = Inr s" and "argon2_contract E"
    and "run_state (CompletePasswordReset E s token pw) w = (r, w')"
  shows "case r of
      Inl _ \<Rightarrow> w_db w' = w_db w \<or>
        w_db w' = spend (sha256Sum E token) ''password_reset'' (db_now E (w_tick w)) (w_db w)
    | Inr _ \<Rightarrow> \<exists>t u h when.
        redeemable (w_db w) (sha256Sum E token) ''password_reset'' (db_now E (w_tick w)) = Some t \<and>
        userById (w_db w) (at_user_id t) = Some u \<and> acceptable E s u pw \<and>
        hasherVerify E (pcfg_Hashing (passwordDefaults cfg)) pw h = Inr (True, False) \<and>
        w_db w' = setHash (at_user_id t) h when
          (spend (sha256Sum E token) ''password_reset'' (db_now E (w_tick w)) (w_db w))"
proof -
  note s = new_store [OF assms(1)]
  let ?w1 = "(tickw w)\<lparr>w_db := spend (sha256Sum E token) ''password_reset'' (db_now E (w_tick w)) (w_db w)\<rparr>"
  have hasher: "ps_Hasher s = NewArgon2idHasher E (pcfg_Hashing (ps_Config s))" using s by simp
  note run = assms(3) [unfolded run_CompletePasswordReset [OF s [THEN conjunct1]] Let_def]
  show ?thesis
  proof (cases "db_fault E (w_tick w) = None \<and>
      redeemable (w_db w) (sha256Sum E token) ''password_reset'' (db_now E (w_tick w)) \<noteq> None")
    case False
    with run show ?thesis by (auto split: option.splits)
  next
    case True
    then obtain t where t: "redeemable (w_db w) (sha256Sum E token) ''password_reset'' (db_now E (w_tick w)) = Some t"
      by auto
    with run True have "run_state (storeNewPassword E s (at_user_id t) pw ''failed to hash password'') ?w1 = (r, w')"
      by simp
    from argon.storeNewPassword_outcome [OF hasher s [THEN conjunct1] assms(2) this] t s show ?thesis
      by (auto simp: NewArgon2idHasher_def split: sum.splits)
  qed
qed

text \<open>
  A password that the policy rejects costs the token: the reset answers with the policy
  error, but it has already consumed the token, so the same token with a password that the
  policy accepts is refused from then on.
\<close>

theorem policy_failure_burns_token:
  assumes "NewPasswordIdentityStore E hasPool inner cfg = Inr s" and "healthy E"
    and "redeemable (w_db w) (sha256Sum E token) ''password_reset'' (db_now E (w_tick w)) = Some t"
    and "userById (w_db w) (at_user_id t) = Some u" and "\<not> acceptable E s u pw"
    and "run_state (CompletePasswordReset E s token pw) w = (r, w1)"
    and "db_now E (w_tick w) \<le> db_now E (w_tick w1)"
    and "run_state (CompletePasswordReset E s token pw') w1 = (r', w2)"
  shows "(\<exists>detail. r = Inl (PasswordError ErrPasswordPolicyViolation 400 detail)) \<and>
         r' = Inl (PasswordError ErrTokenInvalid 400 '''')"
proof -
  note s = new_store [OF assms(1)]
  let ?h = "sha256Sum E token" and ?n = "db_now E (w_tick w)"
  from assms(5) obtain e where e: "policyValidate E (pcfg_Policy (ps_Config s)) pw (userContextWords u) = Some e"
    by (auto simp: acceptable_def)
  have 1: "r = Inl e" "w_db w1 = spend ?h ''password_reset'' ?n (w_db w)"
    using assms(2-6) e s
    by (auto simp: run_CompletePasswordReset Let_def storeNewPassword_def run_GetUserByID_pool)
  have "spent (w_db w1) ?h ''password_reset'' ?n" by (simp add: 1 spent_spend)
  from redeemable_spent [OF this assms(7)] assms(2,8) s
  have "r' = Inl (passwordError ErrTokenInvalid 400)"
    by (auto simp: run_CompletePasswordReset Let_def)
  with 1 policyValidate_cases [OF e] show ?thesis by (auto simp: passwordError_def)
qed

definition markVerified :: "uuid \<Rightarrow> int \<Rightarrow> database \<Rightarrow> database" where
  "markVerified uid now d = d\<lparr>users := map (\<lambda>u. if u_id u = uid
     then u\<lparr>u_email_verified := True, u_updated_at := now\<rparr> else u) (users d)\<rparr>"

text \<open>
  \<open>VerifyEmail\<close> under any faults: it succeeds only with the plaintext of an unconsumed,
  unexpired verification token; then the token is spent and the owner's email is verified,
  and nothing else changes. An error leaves the tables as they were, or with the token spent;
  a reset token never verifies an email.
\<close>

theorem verify_email_outcome:
  assumes "NewPasswordIdentityStore E hasPool inner cfg = Inr s"
    and "run_state (VerifyEmail E s token) w = (r, w')"
  shows "case r of
      Inl _ \<Rightarrow> w_db w' = w_db w \<or>
        w_db w' = spend (sha256Sum E token) ''email_verification'' (db_now E (w_tick w)) (w_db w)
    | Inr _ \<Rightarrow> \<exists>t when.
        redeemable (w_db w) (sha256Sum E token) ''email_verification'' (db_now E (w_tick w)) = Some t \<and>
        at_token_type t = ''email_verification'' \<and>
        w_db w' = markVerified (at_user_id t) when
          (spend (sha256Sum E token) ''email_verification'' (db_now E (w_tick w)) (w_db w))"
proof -
  note s = new_store [OF assms(1)]
  show ?thesis
    using assms(2)
    by (auto simp: VerifyEmail_def run_consumeToken [OF s [THEN conjunct1]] s [THEN conjunct1]
        UpdateEmailVerified_def sqlUpdateEmailVerified_def simp flip: markVerified_def
        split: option.splits dest: redeemable_Some)
qed

definition noTokens :: "database \<Rightarrow> database" where
  "noTokens d = d\<lparr>tokens := []\<rparr>"

lemma noTokens_simps [simp]:
  "noTokens (addToken u h ty ex now d) = noTokens d" "noTokens (invalidateTokens u ty now d) = noTokens d"
  "noTokens (spend h ty now d) = noTokens d"
  by (simp_all add: noTokens_def addToken_def invalidateTokens_def spend_def)

lemma userExists_invalidate [simp]: "userExists (invalidateTokens u ty now d) v = userExists d v"
  by (simp add: userExists_def invalidateTokens_def)

lemma run_issue_reset:
  assumes "healthy E" and "ps_Queries s = OnPool"
    and "localUser (w_db w) email (cfgIssuer s) = Some u"
    and "rand_read E (w_tick w + 2) (nat (tc_TokenLength (pcfg_Tokens (ps_Config s)))) = Inr bs"
  shows "\<exists>w'. run_state (InitiatePasswordReset E s email) w = (Inr (encode64 urlAlphabet bs), w') \<and>
     w_db w' = addToken (u_id u) (sha256Sum E (encode64 urlAlphabet bs)) ''password_reset''
        (app_now E (w_tick w + 3) + tc_ResetTokenExpiry (pcfg_Tokens (ps_Config s))) (db_now E (w_tick w + 4))
        (invalidateTokens (u_id u) ''password_reset'' (db_now E (w_tick w + 1)) (w_db w))"
proof -
  have ex: "userExists (w_db w) (u_id u)" by (rule localUser_exists [OF assms(3)])
  show ?thesis
    using assms ex
    by (simp add: InitiatePasswordReset_def run_GetUserByEmailAndIssuer_pool InvalidateUserTokens_def
        sqlInvalidateUserTokens_def run_GenerateToken InsertAuthToken_def sqlInsertAuthToken_def tokenTypes_def
        userExists_def numeral_eq_Suc sha256Sum_def addToken_def invalidateTokens_def)
qed

text \<open>
  \<open>InitiatePasswordReset\<close> with a healthy database and random source: an unknown email is
  answered without an error and changes nothing. For a user of the local issuer the
  token returned is, by its hash, the only live reset token of that user, it expires after
  the configured time, and nothing but the token table changes.
\<close>

theorem initiate_reset_outcome:
  assumes "NewPasswordIdentityStore E hasPool inner cfg = Inr s" and "healthy E"
    and "\<forall>n. isOk (rand_read E (w_tick w + 2) n)"
    and "run_state (InitiatePasswordReset E s email) w = (r, w')"
  shows "case localUser (w_db w) email (pcfg_Issuer (passwordDefaults cfg)) of
      None \<Rightarrow> r = Inr '''' \<and> w_db w' = w_db w
    | Some u \<Rightarrow> \<exists>token t. r = Inr token \<and> liveTokens (w_db w') (u_id u) ''password_reset'' = [t] \<and>
        at_token_hash t = sha256Sum E token \<and>
        at_expires_at t = app_now E (w_tick w + 3) + tc_ResetTokenExpiry (pcfg_Tokens (passwordDefaults cfg)) \<and>
        noTokens (w_db w') = noTokens (w_db w)"
proof -
  note s = new_store [OF assms(1)]
  show ?thesis
  proof (cases "localUser (w_db w) email (cfgIssuer s)")
    case None
    with assms(2,4) s show ?thesis
      by (auto simp: InitiatePasswordReset_def run_GetUserByEmailAndIssuer_pool)
  next
    case (Some u)
    from assms(3) obtain bs where "rand_read E (w_tick w + 2) (nat (tc_TokenLength (pcfg_Tokens (ps_Config s)))) = Inr bs"
      by (metis isOk_simps(2) sum.exhaust_sel)
    from run_issue_reset [OF assms(2) s [THEN conjunct1] Some this] assms(4) Some s show ?thesis
      by (auto simp: liveTokens_reissue simp del: add_2_eq_Suc')
  qed
qed

lemma run_GetPasswordCredential_pool:
  "run_state (GetPasswordCredential E OnPool uid) w =
     (case db_fault E (w_tick w) of
        Some f \<Rightarrow> (Inl (faultError f), tickw w)
      | None \<Rightarrow> (case credentialOf (w_db w) uid of None \<Rightarrow> Inl ErrNoRows | Some c \<Rightarrow> Inr c, tickw w))"
  by (simp add: GetPasswordCredential_def sqlGetPasswordCredential_def credentialOf_def filter_find tickw_def
      split: option.splits)

text \<open>
  C21 \<open>ChangePassword\<close> under any faults: it succeeds only when the stored credential of the
  user verifies the old password and the policy accepts the new one; then that user's hash is
  one that verifies the new password, and at most the user's live reset tokens are consumed
  besides (all of them, when the database answers). An error changes nothing.
\<close>

theorem change_password_outcome:
  assumes "NewPasswordIdentityStore E hasPool inner cfg = Inr s" and "argon2_contract E"
    and "run_state (ChangePassword E s uid old new) w = (r, w')"
  shows "case r of
      Inl _ \<Rightarrow> w_db w' = w_db w
    | Inr _ \<Rightarrow> \<exists>c re u h when d1. credentialOf (w_db w) uid = Some c \<and>
        hasherVerify E (pcfg_Hashing (passwordDefaults cfg)) old (pc_password_hash c) = Inr (True, re) \<and>
        userById (w_db w) uid = Some u \<and> acceptable E s u new \<and>
        hasherVerify E (pcfg_Hashing (passwordDefaults cfg)) new h = Inr (True, False) \<and>
        d1 = setHash uid h when (w_db w) \<and>
        (w_db w' = d1 \<and> \<not> healthy E \<or> (\<exists>now. w_db w' = invalidateTokens uid ''password_reset'' now d1))"
proof -
  note s = new_store [OF assms(1)]
  have hasher: "ps_Hasher s = NewArgon2idHasher E (pcfg_Hashing (ps_Config s))" using s by simp
  note run = assms(3) [unfolded ChangePassword_def]
  show ?thesis
  proof (cases "\<exists>c re. db_fault E (w_tick w) = None \<and> credentialOf (w_db w) uid = Some c \<and>
      hash_Verify (ps_Hasher s) old (pc_password_hash c) = Inr (True, re)")
    case False
    with run s show ?thesis
      by (auto simp: run_GetPasswordCredential_pool split: option.splits sum.splits prod.splits if_splits)
  next
    case True
    then obtain c re where c: "db_fault E (w_tick w) = None" "credentialOf (w_db w) uid = Some c"
      "hash_Verify (ps_Hasher s) old (pc_password_hash c) = Inr (True, re)" by blast
    obtain r1 w1 where st: "run_state (storeNewPassword E s uid new ''failed to hash new password'') (tickw w) = (r1, w1)"
      by fastforce
    note o = argon.storeNewPassword_outcome [OF hasher s [THEN conjunct1] assms(2) st]
    show ?thesis
    proof (cases r1)
      case (Inl e)
      with run c st o s show ?thesis
        by (auto simp: run_GetPasswordCredential_pool)
    next
      case (Inr x)
      with o obtain u h n where u: "userById (w_db w) uid = Some u" "acceptable E s u new"
        "hash_Verify (ps_Hasher s) new h = Inr (True, False)" "w_db w1 = setHash uid h n (w_db w)"
        by (auto simp: hasher)
      have "r = Inr () \<and> (w_db w' = w_db w1 \<and> \<not> healthy E \<or>
          (\<exists>now. w_db w' = invalidateTokens uid ''password_reset'' now (w_db w1)))"
        using run c st Inr s
        by (auto simp: run_GetPasswordCredential_pool InvalidateUserTokens_def sqlInvalidateUserTokens_def
            simp flip: invalidateTokens_def split: option.splits)
      with c u s show ?thesis by (auto simp: NewArgon2idHasher_def)
    qed
  qed
qed

lemma userById_localUser:
  assumes "db_ok d" "localUser d email iss = Some u"
  shows "userById d (u_id u) = Some u"
proof -
  have dist: "distinct (map u_id (users d))" using assms(1) by (simp add: db_ok_def users_ok_def)
  have u: "u \<in> set (users d)" using localUser_Some [OF assms(2)] by simp
  have "v = u" if "v \<in> set (users d)" "u_id v = u_id u" for v
    by (rule distinct_map_eqD [OF dist that(1) u that(2)])
  with u show ?thesis unfolding userById_def by (intro find_unique) blast+
qed

lemma redeemable_added:
  assumes "\<forall>t\<in>set (tokens d). at_token_hash t \<noteq> h" and "now < expires"
  shows "redeemable (addToken uid h ty expires n (invalidateTokens uid ty n' d)) h ty now =
     Some \<lparr>at_user_id = uid, at_token_hash = h, at_token_type = ty, at_expires_at = expires,
            at_consumed_at = None, at_created_at = n\<rparr>"
proof -
  let ?f = "\<lambda>t. if at_user_id t = uid \<and> at_token_type t = ty \<and> at_consumed_at t = None
      then t\<lparr>at_consumed_at := Some n'\<rparr> else t"
  have "\<not> consumable h ty now (?f t)" if "t \<in> set (tokens d)" for t
  proof -
    have "at_token_hash (?f t) = at_token_hash t" by simp
    with assms(1) that have "at_token_hash (?f t) \<noteq> h" by metis
    then show ?thesis unfolding consumable_def by blast
  qed
  then have "find (consumable h ty now) (map ?f (tokens d)) = None"
    by (simp only: find_None_all set_map ball_simps) blast
  with assms(2) show ?thesis
    by (simp add: redeemable_def addToken_def invalidateTokens_def find_cong_append consumable_def)
qed

lemma storeNewPassword_healthy:
  assumes "healthy E" "\<forall>t n. isOk (rand_read E t n)" "ps_Queries s = OnPool"
    "ps_Hasher s = NewArgon2idHasher E hc" "userById (w_db w) uid = Some u" "acceptable E s u pw"
    and "run_state (storeNewPassword E s uid pw m) w = (r, w')"
  shows "r = Inr ()"
proof -
  obtain salt where "rand_read E (w_tick (tickw w)) (unat (hc_SaltLength hc)) = Inr salt"
    using assms(2) by (metis isOk_simps(2) sum.exhaust_sel)
  from hash_runs [OF assms(4) this] obtain h where
    "run_state (hash_Hash (ps_Hasher s) pw) (tickw w) = (Inr h, tickw (tickw w))" by blast
  with assms show ?thesis
    by (auto simp: storeNewPassword_def run_GetUserByID_pool acceptable_def run_UpdatePasswordHash_pool)
qed

lemma setHash_simps [simp]:
  "localUser (setHash uid h n d) email iss = localUser d email iss"
  "localUser (spend k ty n d) email iss = localUser d email iss"
  "localUser (addToken u k ty ex n d) email iss = localUser d email iss"
  "localUser (invalidateTokens u ty n d) email iss = localUser d email iss"
  "credentialOf (spend k ty n d) v = credentialOf d v"
  "credentialOf (addToken u k ty ex n d) v = credentialOf d v"
  "credentialOf (invalidateTokens u ty n d) v = credentialOf d v"
  "userById (addToken u k ty ex n d) v = userById d v"
  "userById (invalidateTokens u ty n d) v = userById d v"
  by (simp_all add: setHash_def localUser_def spend_def addToken_def invalidateTokens_def credentialOf_def
      userById_def)

lemma credentialOf_setHash:
  "credentialOf d uid = Some c \<Longrightarrow>
   credentialOf (setHash uid h n d) uid = Some (c\<lparr>pc_password_hash := h, pc_updated_at := n\<rparr>)"
  by (auto simp: credentialOf_def setHash_def find_map_same dest: find_Some_set)

text \<open>
  C20 The whole reset flow, with a healthy database and random source: a user with a
  credential who asks for a reset, presents the token before it expires with a password that
  the policy accepts, and then logs in with that password (not locked out, and with a verified
  email where that is required) is let in as the same user.
\<close>

theorem reset_then_login:
  assumes "NewPasswordIdentityStore E hasPool inner cfg = Inr s" and "argon2_contract E"
    and "healthy E" and "\<forall>t n. isOk (rand_read E t n)" and "db_ok (w_db w)"
    and "localUser (w_db w) email (pcfg_Issuer (passwordDefaults cfg)) = Some u"
    and "credentialOf (w_db w) (u_id u) = Some c" and "acceptable E s u pw"
    and "run_state (InitiatePasswordReset E s email) w = (Inr token, w1)"
    and "\<forall>t\<in>set (tokens (w_db w)). at_token_hash t \<noteq> sha256Sum E token"
    and "w_db w2 = w_db w1"
    and "db_now E (w_tick w2) < app_now E (w_tick w + 3) + tc_ResetTokenExpiry (pcfg_Tokens (passwordDefaults cfg))"
    and "run_state (CompletePasswordReset E s token pw) w2 = (r3, w3)"
    and "w_db w4 = w_db w3"
    and "\<not> IsLockedOut (recentFailures (w_db w4) (u_id u)
           (app_now E (w_tick w4 + 2) - lc_Window (pcfg_Lockout (passwordDefaults cfg))))
           (pcfg_Lockout (passwordDefaults cfg))"
    and "pcfg_RequireEmailVerification (passwordDefaults cfg) \<longrightarrow> u_email_verified u"
    and "run_state (Authenticate E s email pw ip) w4 = (r, w5)"
  shows "r3 = Inr () \<and> r = Inr (refOf u)"
proof -
  note s = new_store [OF assms(1)]
  let ?h = "sha256Sum E token" and ?n = "db_now E (w_tick w2)"
  let ?cutoff = "app_now E (w_tick w4 + 2) - lc_Window (pcfg_Lockout (ps_Config s))"
  have hasher: "ps_Hasher s = NewArgon2idHasher E (pcfg_Hashing (ps_Config s))" using s by simp
  have u: "localUser (w_db w) email (cfgIssuer s) = Some u" using assms(6) s by simp
  obtain bs where bs: "rand_read E (w_tick w + 2) (nat (tc_TokenLength (pcfg_Tokens (ps_Config s)))) = Inr bs"
    using assms(4) by (metis isOk_simps(2) sum.exhaust_sel)
  let ?d0 = "invalidateTokens (u_id u) ''password_reset'' (db_now E (w_tick w + 1)) (w_db w)"
  let ?ex = "app_now E (w_tick w + 3) + tc_ResetTokenExpiry (pcfg_Tokens (ps_Config s))"
  have w1: "w_db w1 = addToken (u_id u) ?h ''password_reset'' ?ex (db_now E (w_tick w + 4)) ?d0"
    using run_issue_reset [OF assms(3) s [THEN conjunct1] u bs] assms(9) by auto
  obtain t where t: "redeemable (w_db w2) ?h ''password_reset'' ?n = Some t" "at_user_id t = u_id u"
    using redeemable_added [OF assms(10), of ?n ?ex] assms(12) s by (auto simp: assms(11) w1)
  let ?w3 = "(tickw w2)\<lparr>w_db := spend ?h ''password_reset'' ?n (w_db w2)\<rparr>"
  have run3: "run_state (storeNewPassword E s (u_id u) pw ''failed to hash password'') ?w3 = (r3, w3)"
    using assms(3,13) t s by (simp add: run_CompletePasswordReset Let_def)
  have id: "userById (w_db ?w3) (u_id u) = Some u"
    using userById_localUser [OF assms(5) u] by (simp add: assms(11) w1)
  have r3: "r3 = Inr ()"
    by (rule storeNewPassword_healthy [OF assms(3,4) s [THEN conjunct1] hasher id assms(8) run3])
  obtain h k where h: "hash_Verify (ps_Hasher s) pw h = Inr (True, False)"
    and w3: "w_db w3 = setHash (u_id u) h k (spend ?h ''password_reset'' ?n (w_db w2))"
    using argon.storeNewPassword_outcome [OF hasher s [THEN conjunct1] assms(2) run3]
    by (auto simp: r3 hasher)
  obtain rehash now where "(r, w_db w5) = loginStep s (ipOf E ip) ?cutoff now rehash email pw (w_db w4)"
    using argon.run_Authenticate_healthy [OF assms(3) hasher s [THEN conjunct1] assms(17)] by blast
  moreover have "localUser (w_db w4) email (cfgIssuer s) = Some u"
    using u by (simp add: assms(14) w3 assms(11) w1)
  moreover have "credentialOf (w_db w4) (u_id u) = Some (c\<lparr>pc_password_hash := h, pc_updated_at := k\<rparr>)"
    by (simp add: assms(14) w3 assms(11) w1 credentialOf_setHash assms(7))
  ultimately show ?thesis
    using r3 h assms(15,16) s [THEN conjunct2, THEN conjunct2, THEN conjunct1]
    by (auto simp: loginStep_def simp del: add_2_eq_Suc')
qed

section \<open>Witnesses\<close>

definition resetDb :: "string \<Rightarrow> database" where
  "resetDb ty = addToken 104 ''tok'' ty (60 * minute) 0 loginDb"

abbreviation samplePS :: "world password_store" where
  "samplePS \<equiv> samplePasswordStore sampleEnv"

abbreviation sampleReset :: "string \<Rightarrow> (unit, go_error + unit) io" where
  "sampleReset pw \<equiv> CompletePasswordReset sampleEnv samplePS ''tok'' pw"

lemma resetDb_simps [simp]:
  "userById (resetDb ty) 104 = Some localSampleUser" "sha256Sum sampleEnv t = t"
  by (simp_all add: resetDb_def userById_def addToken_def loginDb_def sha256Sum_def localSampleUser_def sampleUser_def)

lemma resetDb_redeemable [simp]:
  "\<exists>t. redeemable (resetDb ty) ''tok'' ty 0 = Some t \<and> at_user_id t = 104"
  by (simp add: redeemable_def resetDb_def addToken_def loginDb_def sampleDb_def consumable_def
      minute_def second_def)

lemma sample_acceptable:
  "acceptable E (samplePasswordStore E') u ''pw''" "\<not> acceptable E (samplePasswordStore E') u ''x''"
  using sample_policy [of E "userContextWords u"] by (simp_all add: acceptable_def) (simp add: policyValidate_def)

lemma sample_reset:
  "\<exists>w'. run_state (sampleReset ''pw'') (sampleWorld (resetDb ''password_reset'')) = (Inr (), w') \<and> 0 \<le> w_tick w'"
proof -
  obtain t where t: "redeemable (resetDb ''password_reset'') ''tok'' ''password_reset'' 0 = Some t" "at_user_id t = 104"
    using resetDb_redeemable by blast
  let ?w = "(tickw (sampleWorld (resetDb ''password_reset'')))\<lparr>w_db := spend ''tok'' ''password_reset'' 0 (resetDb ''password_reset'')\<rparr>"
  obtain r w' where run: "run_state (storeNewPassword sampleEnv samplePS 104 ''pw'' ''failed to hash password'') ?w = (r, w')"
    by fastforce
  have "r = Inr ()"
    by (rule storeNewPassword_healthy [OF _ _ _ samplePasswordStore_simps(3) _ sample_acceptable(1) run])
      (simp_all add: healthy_def)
  with t run show ?thesis by (simp add: run_CompletePasswordReset Let_def)
qed

theorem complete_reset_outcome_witness:
  "\<exists>w' h n. run_state (sampleReset ''pw'') (sampleWorld (resetDb ''password_reset'')) = (Inr (), w') \<and>
     w_db w' = setHash 104 h n (spend ''tok'' ''password_reset'' 0 (resetDb ''password_reset''))"
proof -
  obtain w' where run: "run_state (sampleReset ''pw'') (sampleWorld (resetDb ''password_reset'')) = (Inr (), w')"
    using sample_reset by blast
  obtain t where t: "redeemable (resetDb ''password_reset'') ''tok'' ''password_reset'' 0 = Some t" "at_user_id t = 104"
    using resetDb_redeemable by blast
  from complete_reset_outcome [OF samplePasswordStore_new sample_argon2_contract run] t
  obtain h n where "w_db w' = setHash 104 h n (spend ''tok'' ''password_reset'' 0 (resetDb ''password_reset''))"
    by auto
  with run show ?thesis by blast
qed

theorem policy_failure_burns_token_witness:
  "fst (run_state (sampleReset ''pw'') (snd (run_state (sampleReset ''x'') (sampleWorld (resetDb ''password_reset''))))) =
     Inl (PasswordError ErrTokenInvalid 400 '''')"
proof -
  obtain t where t: "redeemable (resetDb ''password_reset'') ''tok'' ''password_reset'' 0 = Some t" "at_user_id t = 104"
    using resetDb_redeemable by blast
  from policy_failure_burns_token [OF samplePasswordStore_new _ _ _ _ prod.collapse [symmetric] _ prod.collapse [symmetric],
      where E = sampleEnv and w = "sampleWorld (resetDb ''password_reset'')" and token = "''tok''" and pw = "''x''" and t = t
        and u = localSampleUser and pw' = "''pw''"]
  show ?thesis using t by (simp add: healthy_def sample_acceptable)
qed

theorem verify_email_outcome_witness:
  "\<exists>w' n. run_state (VerifyEmail sampleEnv samplePS ''tok'')
       (sampleWorld (resetDb ''email_verification'')) = (Inr (), w') \<and>
     w_db w' = markVerified 104 n (spend ''tok'' ''email_verification'' 0 (resetDb ''email_verification''))"
proof -
  obtain t where t: "redeemable (resetDb ''email_verification'') ''tok'' ''email_verification'' 0 = Some t" "at_user_id t = 104"
    using resetDb_redeemable by blast
  then obtain w' where run: "run_state (VerifyEmail sampleEnv samplePS ''tok'')
       (sampleWorld (resetDb ''email_verification'')) = (Inr (), w')"
    by (simp add: VerifyEmail_def run_consumeToken UpdateEmailVerified_def sqlUpdateEmailVerified_def)
  from verify_email_outcome [OF samplePasswordStore_new run] t
  obtain n where "w_db w' = markVerified 104 n (spend ''tok'' ''email_verification'' 0 (resetDb ''email_verification''))"
    by auto
  with run show ?thesis by blast
qed

theorem initiate_reset_outcome_witness:
  "\<exists>token w'. run_state (InitiatePasswordReset sampleEnv samplePS ''a@x'') (sampleWorld loginDb) =
     (Inr token, w') \<and> map at_token_hash (liveTokens (w_db w') 104 ''password_reset'') = [token]"
proof -
  obtain r w' where run: "run_state (InitiatePasswordReset sampleEnv samplePS ''a@x'') (sampleWorld loginDb) =
     (r, w')" by fastforce
  from initiate_reset_outcome [OF samplePasswordStore_new _ _ run] obtain t where
    "r = Inr (at_token_hash t)" "liveTokens (w_db w') 104 ''password_reset'' = [t]"
    by (auto simp: healthy_def)
  with run show ?thesis by (intro exI [of _ "at_token_hash t"] exI [of _ w']) simp
qed

theorem change_password_outcome_witness:
  "\<exists>w' h n. run_state (ChangePassword sampleEnv samplePS 104 ''pw'' ''pw'') (sampleWorld loginDb) =
       (Inr (), w') \<and> credentials (w_db w') = credentials (setHash 104 h n loginDb)"
proof -
  let ?s = samplePS
  have id: "userById loginDb 104 = Some localSampleUser"
    by (simp add: userById_def loginDb_def localSampleUser_def sampleUser_def)
  obtain r w' where st: "run_state (storeNewPassword sampleEnv ?s 104 ''pw'' ''failed to hash new password'')
      (tickw (sampleWorld loginDb)) = (r, w')" by fastforce
  have "r = Inr ()"
    by (rule storeNewPassword_healthy [OF _ _ _ samplePasswordStore_simps(3) _ sample_acceptable(1) st])
      (simp_all add: healthy_def id)
  with st obtain w2 where run: "run_state (ChangePassword sampleEnv ?s 104 ''pw'' ''pw'') (sampleWorld loginDb) = (Inr (), w2)"
    by (simp add: ChangePassword_def run_GetPasswordCredential_pool InvalidateUserTokens_def sqlInvalidateUserTokens_def)
  from change_password_outcome [OF samplePasswordStore_new sample_argon2_contract run]
  obtain h n where "credentials (w_db w2) = credentials (setHash 104 h n loginDb)"
    by (auto simp: invalidateTokens_def)
  with run show ?thesis by blast
qed

lemma complete_reset_attempts:
  assumes "run_state (CompletePasswordReset E s token pw) w = (r, w')" "ps_Queries s = OnPool"
    "ps_Hasher s = NewArgon2idHasher E hc" "argon2_contract E"
  shows "attempts (w_db w') = attempts (w_db w)"
proof -
  have st: "attempts (w_db wb) = attempts (w_db wa)"
    if "run_state (storeNewPassword E s uid pw m) wa = (r', wb)" for uid m wa r' wb
    using argon.storeNewPassword_outcome [OF assms(3,2,4) that] by (auto simp: setHash_def split: sum.splits)
  show ?thesis
    using assms(1,2)
    by (auto simp: run_CompletePasswordReset Let_def spend_def split: option.splits) (drule st, simp)
qed

theorem reset_then_login_witness:
  "\<exists>token w1 w3. run_state (InitiatePasswordReset frozenEnv (samplePasswordStore frozenEnv :: world password_store) ''a@x'')
       (sampleWorld loginDb) = (Inr token, w1) \<and>
     run_state (CompletePasswordReset frozenEnv (samplePasswordStore frozenEnv) token ''pw'') w1 = (Inr (), w3) \<and>
     fst (run_state (Authenticate frozenEnv (samplePasswordStore frozenEnv) ''a@x'' ''pw'' '''') w3) = Inr (refOf localSampleUser)"
proof -
  let ?s = "samplePasswordStore frozenEnv :: world password_store"
  obtain bs where bs: "rand_read frozenEnv (w_tick (sampleWorld loginDb) + 2) (nat (tc_TokenLength (pcfg_Tokens (ps_Config ?s)))) = Inr bs"
    by simp
  from run_issue_reset [of frozenEnv ?s "sampleWorld loginDb" "''a@x''" localSampleUser, OF _ _ _ bs]
  obtain token w1 where run1: "run_state (InitiatePasswordReset frozenEnv ?s ''a@x'') (sampleWorld loginDb) = (Inr token, w1)"
    and a1: "attempts (w_db w1) = []"
    by (auto simp: healthy_def addToken_def invalidateTokens_def)
  obtain r3 w3 where run3: "run_state (CompletePasswordReset frozenEnv ?s token ''pw'') w1 = (r3, w3)" by fastforce
  have f: "argon2_contract frozenEnv" "tokens loginDb = []"
    using sample_argon2_contract by (simp_all add: argon2_contract_def loginDb_def sampleDb_def)
  have a3: "attempts (w_db w3) = []"
    using complete_reset_attempts [OF run3 _ samplePasswordStore_simps(3) f(1)] a1 by simp
  have e: "tc_ResetTokenExpiry (pcfg_Tokens (passwordDefaults samplePasswordConfig)) = hour" "0 < hour"
    by (simp_all add: passwordDefaults_def samplePasswordConfig_def tokenDefaults_def orZero_def
        hour_def minute_def second_def)
  have "r3 = Inr () \<and> fst (run_state (Authenticate frozenEnv ?s ''a@x'' ''pw'' '''') w3) = Inr (refOf localSampleUser)"
    by (rule reset_then_login [OF samplePasswordStore_new f(1) _ _ _ _ _ sample_acceptable(1) run1 _
          refl _ run3 refl _ _ prod.collapse [symmetric]])
      (simp_all add: healthy_def db_ok_loginDb e f a3 recentFailures_def IsLockedOut_def)
  with run1 run3 show ?thesis by blast
qed

end
