(* ===== verification/Middleware.thy ===== *)
theory Middleware
  imports Session
begin

text \<open>
  \<open>auth/middleware.go\<close>: the configuration of \<open>RequireAuthenticated\<close> and the handler it
  wraps around the next one. The two legacy context keys are optional names.
\<close>

type_synonym mode = string

definition ModeAPI :: mode where "ModeAPI = ''api''"
definition ModeUI :: mode where "ModeUI = ''ui''"

record middleware_config =
  mw_Mode :: mode
  mw_SessionKey :: string
  mw_LoginPath :: string
  mw_TenantPickerPath :: string
  mw_AllowPathsWithoutTenant :: "string list"
  mw_LegacyTenantContextKey :: "string option"
  mw_LegacyClaimsContextKey :: "string option"

definition middlewareDefaults :: "middleware_config \<Rightarrow> middleware_config" where
  "middlewareDefaults c = c\<lparr>
     mw_SessionKey := orDefault (mw_SessionKey c) DefaultSessionKey,
     mw_LoginPath := orDefault (mw_LoginPath c) DefaultLoginPath,
     mw_TenantPickerPath := orDefault (mw_TenantPickerPath c) DefaultTenantPickerPath,
     mw_Mode := orDefault (mw_Mode c) ModeAPI,
     mw_AllowPathsWithoutTenant :=
       (if mw_AllowPathsWithoutTenant c = []
        then [DefaultTenantPickerPath, ''/auth/tenant/select'']
        else mw_AllowPathsWithoutTenant c)\<rparr>"

definition handleUnauthenticated :: "middleware_config \<Rightarrow> http_response" where
  "handleUnauthenticated cfg =
     (if mw_Mode cfg = ModeUI then httpRedirect (mw_LoginPath cfg) 303
      else httpError ''unauthorized'' 401)"

definition handleTenantRequired :: "middleware_config \<Rightarrow> http_response" where
  "handleTenantRequired cfg =
     (if mw_Mode cfg = ModeUI then httpRedirect (mw_TenantPickerPath cfg) 303
      else jsonResponse 409
             (JObject [(''error'', JString ''tenant_selection_required''),
                       (''tenant_selection_required'', JBool True)]))"

fun isTenantOptionalPath :: "string \<Rightarrow> string list \<Rightarrow> bool" where
  "isTenantOptionalPath path [] = False"
| "isTenantOptionalPath path (allowPath # rest) =
     (if allowPath = '''' then isTenantOptionalPath path rest
      else if hasSuffix allowPath ''*''
      then (if hasPrefix path (trimSuffix allowPath ''*'') then True
            else isTenantOptionalPath path rest)
      else if path = allowPath then True
      else isTenantOptionalPath path rest)"

text \<open>The context handed to the next handler.\<close>

definition authenticatedContext :: "env \<Rightarrow> middleware_config \<Rightarrow> ctx \<Rightarrow> session_claims \<Rightarrow> ctx" where
  "authenticatedContext E conf c0 claims =
     (let c1 = WithSessionClaims c0 claims;
          c2 = (case activeTenantFromClaims claims of
                  None \<Rightarrow> c1
                | Some tenantID \<Rightarrow>
                    (let c = WithTenantID E c1 tenantID
                     in case mw_LegacyTenantContextKey conf of
                          None \<Rightarrow> c
                        | Some k \<Rightarrow> withValue c (LegacyContextKey k) (CtxString (uuid_string E tenantID))))
      in case mw_LegacyClaimsContextKey conf of
           None \<Rightarrow> c2
         | Some k \<Rightarrow> withValue c2 (LegacyContextKey k) (CtxClaims claims))"

type_synonym 's handler = "http_request \<Rightarrow> ('s, http_response) web_io"

definition RequireAuthenticated ::
    "env \<Rightarrow> 's session_manager \<Rightarrow> middleware_config \<Rightarrow> 's handler \<Rightarrow> 's handler" where
  "RequireAuthenticated E m cfg next r =
     (let conf = middlewareDefaults cfg in do {
        v \<leftarrow> sessGet m (mw_SessionKey conf);
        case claimsIn v of
          None \<Rightarrow> State_Monad.return (handleUnauthenticated conf)
        | Some claims \<Rightarrow>
            if \<not> sc_Authenticated claims then State_Monad.return (handleUnauthenticated conf)
            else if sc_ActiveTenantID claims = None
                    \<and> \<not> isTenantOptionalPath (rq_Path r) (mw_AllowPathsWithoutTenant conf)
            then State_Monad.return (handleTenantRequired conf)
            else next (r\<lparr>rq_Context := authenticatedContext E conf (rq_Context r) claims\<rparr>) })"

definition ActiveTenantID :: "env \<Rightarrow> ctx \<Rightarrow> uuid option" where
  "ActiveTenantID E c = TenantID E c"

section \<open>Paths\<close>

text \<open>A pattern matches its own path, or every path with its prefix when it ends in a star.\<close>

definition allowMatches :: "string \<Rightarrow> string \<Rightarrow> bool" where
  "allowMatches path pat \<longleftrightarrow>
     (\<exists>p. pat = p @ ''*'' \<and> (\<exists>t. path = p @ t)) \<or> (pat \<noteq> '''' \<and> pat = path \<and> \<not> (\<exists>p. pat = p @ ''*''))"

lemma isTenantOptionalPath_step:
  "isTenantOptionalPath path (pat # rest) \<longleftrightarrow> allowMatches path pat \<or> isTenantOptionalPath path rest"
  by (auto simp: allowMatches_def hasSuffix_iff hasPrefix_iff trimSuffix_append)

lemma isTenantOptionalPath_matches:
  "isTenantOptionalPath path pats \<longleftrightarrow> (\<exists>pat\<in>set pats. allowMatches path pat)"
  by (induction pats) (simp_all only: isTenantOptionalPath_step, simp_all)

section \<open>Context\<close>

lemma SessionClaims_authenticatedContext:
  "SessionClaimsFromContext (authenticatedContext E conf c cl) = Some cl"
  by (auto simp: authenticatedContext_def Let_def split: option.splits)

lemma Tenant_authenticatedContext:
  "uuid_contract E \<Longrightarrow> sc_ActiveTenantID cl = Some t \<Longrightarrow>
     TenantID E (authenticatedContext E conf c cl) = Some t"
  by (auto simp: authenticatedContext_def Let_def activeTenantFromClaims_def TenantID_def
      uuid_contract_def split: option.splits)

lemma TenantIDString_authenticatedContext:
  "sc_ActiveTenantID cl = None \<Longrightarrow>
     TenantIDString (authenticatedContext E conf c cl) = TenantIDString c"
  by (auto simp: authenticatedContext_def Let_def activeTenantFromClaims_def split: option.splits)

lemma handleUnauthenticated_status:
  "rs_Status (handleUnauthenticated cfg) \<in> {303, 401}"
  by (simp add: handleUnauthenticated_def)

lemma middlewareDefaults_SessionKey [simp]:
  "mw_SessionKey (middlewareDefaults c) = orDefault (mw_SessionKey c) DefaultSessionKey"
  by (simp add: middlewareDefaults_def)

text \<open>What the wrapped handler does, by the claims found in the session.\<close>

lemma run_RequireAuthenticated:
  "run_state (RequireAuthenticated E m cfg next r) w =
     (let conf = middlewareDefaults cfg in
      case authenticatedClaims (managerGet m (w_sess w) (mw_SessionKey conf)) of
        None \<Rightarrow> (handleUnauthenticated conf, w)
      | Some cl \<Rightarrow>
          if sc_ActiveTenantID cl = None
             \<and> \<not> isTenantOptionalPath (rq_Path r) (mw_AllowPathsWithoutTenant conf)
          then (handleTenantRequired conf, w)
          else run_state (next (r\<lparr>rq_Context := authenticatedContext E conf (rq_Context r) cl\<rparr>)) w)"
  by (cases "claimsIn (managerGet m (w_sess w) (mw_SessionKey (middlewareDefaults cfg)))")
    (auto simp: RequireAuthenticated_def Let_def authenticatedClaims_def)

section \<open>Properties\<close>

text \<open>The request may go on: claims of an authenticated user, with a tenant where one is needed.\<close>

definition passes :: "middleware_config \<Rightarrow> string \<Rightarrow> session_value option \<Rightarrow> session_claims \<Rightarrow> bool" where
  "passes conf path v cl \<longleftrightarrow>
     v = Some (SVClaims cl) \<and> sc_Authenticated cl \<and>
     (sc_ActiveTenantID cl \<noteq> None \<or>
      (\<exists>pat\<in>set (mw_AllowPathsWithoutTenant conf). allowMatches path pat))"

text \<open>
  C5 \<open>RequireAuthenticated\<close> runs the next handler exactly when the session holds claims of an
  authenticated user with an active tenant, or the path is on the tenant-optional list (equal
  to an entry, or under the prefix of an entry ending in a star). The next handler then finds
  these claims in its context and the active tenant as the context's tenant. Otherwise the
  response is a 401, 409 or a redirect, the next handler has no influence on it, and nothing
  changes.
\<close>

theorem require_authenticated:
  assumes "uuid_contract E"
    and "conf = middlewareDefaults cfg" and "v = managerGet m (w_sess w) (mw_SessionKey conf)"
  shows "(\<forall>cl. passes conf (rq_Path r) v cl \<longrightarrow>
            (\<exists>c. run_state (RequireAuthenticated E m cfg next r) w =
                 run_state (next (r\<lparr>rq_Context := c\<rparr>)) w \<and>
               SessionClaimsFromContext c = Some cl \<and>
               (case sc_ActiveTenantID cl of
                  Some t \<Rightarrow> ActiveTenantID E c = Some t
                | None \<Rightarrow> TenantIDString c = TenantIDString (rq_Context r)))) \<and>
         ((\<nexists>cl. passes conf (rq_Path r) v cl) \<longrightarrow>
            (\<exists>resp. rs_Status resp \<in> {303, 401, 409} \<and>
               (\<forall>next'. run_state (RequireAuthenticated E m cfg next' r) w = (resp, w))))"
proof (intro conjI allI impI)
  fix cl
  let ?c = "authenticatedContext E conf (rq_Context r) cl"
  assume cl: "passes conf (rq_Path r) v cl"
  then have "run_state (RequireAuthenticated E m cfg next r) w =
      run_state (next (r\<lparr>rq_Context := ?c\<rparr>)) w"
    by (auto simp: run_RequireAuthenticated Let_def passes_def authenticatedClaims_def claimsIn_def
        isTenantOptionalPath_matches assms(2,3))
  with assms(1) show "\<exists>c. run_state (RequireAuthenticated E m cfg next r) w =
        run_state (next (r\<lparr>rq_Context := c\<rparr>)) w \<and> SessionClaimsFromContext c = Some cl \<and>
        (case sc_ActiveTenantID cl of Some t \<Rightarrow> ActiveTenantID E c = Some t
         | None \<Rightarrow> TenantIDString c = TenantIDString (rq_Context r))"
    by (auto simp: ActiveTenantID_def SessionClaims_authenticatedContext
        Tenant_authenticatedContext TenantIDString_authenticatedContext
        split: option.splits intro!: exI [of _ ?c])
next
  assume no: "\<nexists>cl. passes conf (rq_Path r) v cl"
  have "run_state (RequireAuthenticated E m cfg next' r) w =
      (case authenticatedClaims v of None \<Rightarrow> handleUnauthenticated conf
       | Some _ \<Rightarrow> handleTenantRequired conf, w)" for next'
    using no
    by (cases "authenticatedClaims v")
      (auto simp: run_RequireAuthenticated Let_def passes_def authenticatedClaims_Some
        isTenantOptionalPath_matches assms(2,3))
  moreover have "rs_Status (handleUnauthenticated conf) \<in> {303, 401, 409}"
    "rs_Status (handleTenantRequired conf) \<in> {303, 401, 409}"
    by (simp_all add: handleUnauthenticated_def handleTenantRequired_def)
  ultimately show "\<exists>resp. rs_Status resp \<in> {303, 401, 409} \<and>
      (\<forall>next'. run_state (RequireAuthenticated E m cfg next' r) w = (resp, w))"
    by (auto split: option.splits)
qed

text \<open>A user with a tenant reaches the handler, one without it does not.\<close>

definition sampleClaims :: "uuid option \<Rightarrow> session_claims" where
  "sampleClaims t = \<lparr>sc_Authenticated = True, sc_UserID = 5, sc_Issuer = ''iss'', sc_Subject = ''sub'',
                     sc_ActiveTenantID = t\<rparr>"

definition sampleMiddleware :: middleware_config where
  "sampleMiddleware = \<lparr>mw_Mode = '''', mw_SessionKey = '''', mw_LoginPath = '''',
     mw_TenantPickerPath = '''', mw_AllowPathsWithoutTenant = [''/auth/*''],
     mw_LegacyTenantContextKey = None, mw_LegacyClaimsContextKey = None\<rparr>"

definition sampleRequest :: "string \<Rightarrow> http_request" where
  "sampleRequest p = \<lparr>rq_Method = ''GET'', rq_Path = p, rq_Query = (\<lambda>_. ''''),
     rq_Header = (\<lambda>_. ''''), rq_Cookies = [], rq_RemoteAddr = ''10.0.0.1:5'',
     rq_Host = ''localhost'', rq_Context = []\<rparr>"

theorem require_authenticated_witness:
  "\<exists>c. run_state (RequireAuthenticated sampleEnv sampleManager sampleMiddleware
            (\<lambda>r. State_Monad.return (respond 200 (TextBody ''home''))) (sampleRequest ''/home''))
          (sampleWeb empty_db [''auth'' \<mapsto> SVClaims (sampleClaims (Some 9))]) =
        (respond 200 (TextBody ''home''), sampleWeb empty_db [''auth'' \<mapsto> SVClaims (sampleClaims (Some 9))])
     \<and> ActiveTenantID sampleEnv c = Some 9"
  using require_authenticated [OF sample_uuid_contract refl refl, of sampleMiddleware
      "sampleRequest ''/home''" sampleManager
      "sampleWeb empty_db [''auth'' \<mapsto> SVClaims (sampleClaims (Some 9))]"
      "\<lambda>r. State_Monad.return (respond 200 (TextBody ''home''))"]
  by (auto simp: sampleMiddleware_def middlewareDefaults_def orDefault_def auth_constants
      sampleClaims_def passes_def sampleRequest_def)

end
