(* ===== verification/Oidc.thy ===== *)
theory Oidc
  imports Middleware IdentityStore
begin

text \<open>
  \<open>auth/oidc.go\<close> and \<open>auth/handler.go\<close>: the OIDC authenticator and the handlers of the
  authorization code flow, of tenant selection and of logout, over any identity store.

  The OAuth2 and OIDC libraries and the provider they talk to are parameters, the record
  \<open>oidc_libs\<close>: what the code calls of them, indexed by the call counter where they reach the
  network. Parsing and rewriting the end-session URL with \<open>net/url\<close> are its last two
  fields.
\<close>

section \<open>The authenticator\<close>

text \<open>\<open>UserInfoClaims\<close>; the times are \<open>float64\<close>, kept as their 64 bits.\<close>

record user_info_claims =
  uc_Sub :: string
  uc_Acr :: string
  uc_Amr :: "string list"
  uc_Aud :: string
  uc_Iss :: string
  uc_Sid :: string
  uc_AuthTime :: "64 word"
  uc_Email :: string
  uc_EmailVerified :: bool
  uc_Exp :: "64 word"
  uc_GivenName :: string
  uc_Groups :: "string list"
  uc_Iat :: "64 word"
  uc_Name :: string
  uc_Nickname :: string
  uc_PreferredUsername :: string

text \<open>An OAuth2 token: its access token and \<open>Extra("id_token")\<close> when that is a string.\<close>

record oauth_token =
  ot_AccessToken :: string
  ot_IDToken :: "string option"

record oauth2_config =
  oc_ClientID :: string
  oc_ClientSecret :: string
  oc_RedirectURL :: string
  oc_Endpoint :: string
  oc_Scopes :: "string list"

text \<open>
  \<open>OIDCProvider\<close>: its endpoint, the verifier for a client id (it returns the subject claim of
  a valid ID token, an error of its own when the claims do not parse) and the user info call
  (the claims, an error of its own when they do not parse).
\<close>

record oidc_provider =
  op_Endpoint :: string
  op_Verifier :: "string \<Rightarrow> nat \<Rightarrow> string \<Rightarrow> go_error + (go_error + string)"
  op_UserInfo :: "nat \<Rightarrow> oauth_token \<Rightarrow> go_error + (go_error + user_info_claims)"

record oidc_libs =
  ol_NewProvider :: "string \<Rightarrow> go_error + (oidc_provider \<times> (go_error + string))"
  ol_Exchange :: "oauth2_config \<Rightarrow> nat \<Rightarrow> string \<Rightarrow> go_error + oauth_token"
  ol_AuthCodeURL :: "oauth2_config \<Rightarrow> string \<Rightarrow> string"
  ol_ParseURL :: "string \<Rightarrow> go_error + string"
  ol_SetQuery :: "string \<Rightarrow> (string \<times> string) list \<Rightarrow> string"

record oidc_authenticator =
  oa_oauth2Config :: oauth2_config
  oa_verifier :: "nat \<Rightarrow> string \<Rightarrow> go_error + (go_error + string)"
  oa_provider :: oidc_provider
  oa_issuerURL :: string
  oa_endSessionEndpoint :: string

definition NewOIDCAuthenticatorWithProvider ::
    "config \<Rightarrow> oidc_provider option \<Rightarrow> go_error + oidc_authenticator" where
  "NewOIDCAuthenticatorWithProvider cfg provider =
     (case provider of
        None \<Rightarrow> Inl (ErrorString ''oidc provider is required'')
      | Some p \<Rightarrow>
          Inr \<lparr>oa_oauth2Config =
                 \<lparr>oc_ClientID = cfg_ClientID cfg, oc_ClientSecret = cfg_ClientSecret cfg,
                  oc_RedirectURL = cfg_RedirectURL cfg, oc_Endpoint = op_Endpoint p,
                  oc_Scopes = [''openid'', ''profile'', ''email'']\<rparr>,
               oa_verifier = op_Verifier p (cfg_ClientID cfg), oa_provider = p,
               oa_issuerURL = cfg_IssuerURL cfg, oa_endSessionEndpoint = ''''\<rparr>)"

definition NewOIDCAuthenticator :: "oidc_libs \<Rightarrow> config \<Rightarrow> go_error + oidc_authenticator" where
  "NewOIDCAuthenticator L cfg =
     (let parsedCfg = withDefaults cfg
      in if cfg_IssuerURL parsedCfg = '''' \<or> cfg_ClientID parsedCfg = '''' \<or>
            cfg_ClientSecret parsedCfg = '''' \<or> cfg_RedirectURL parsedCfg = ''''
         then Inl (ErrorString ''issuer URL, client ID, client secret, and redirect URL are required'')
         else (case ol_ParseURL L (cfg_IssuerURL parsedCfg) of
                 Inl err \<Rightarrow> Inl err
               | Inr issuer \<Rightarrow>
                   (case ol_NewProvider L issuer of
                      Inl err \<Rightarrow> Inl err
                    | Inr (provider, claims) \<Rightarrow>
                        (case NewOIDCAuthenticatorWithProvider parsedCfg (Some provider) of
                           Inl err \<Rightarrow> Inl err
                         | Inr a \<Rightarrow>
                             Inr (a\<lparr>oa_endSessionEndpoint :=
                                      (case claims of Inl _ \<Rightarrow> '''' | Inr u \<Rightarrow> u)\<rparr>)))))"

definition GetIssuer :: "oidc_authenticator \<Rightarrow> string" where
  "GetIssuer a = oa_issuerURL a"

definition EndSessionURL :: "oidc_authenticator \<Rightarrow> string" where
  "EndSessionURL a = oa_endSessionEndpoint a"

definition Exchange :: "oidc_libs \<Rightarrow> oidc_authenticator \<Rightarrow> string \<Rightarrow> ('z, go_error + oauth_token) io" where
  "Exchange L a code = do {
     t \<leftarrow> nextTick;
     State_Monad.return (ol_Exchange L (oa_oauth2Config a) t code) }"

definition GetUserInfo ::
    "oidc_authenticator \<Rightarrow> oauth_token \<Rightarrow> ('z, go_error + (go_error + user_info_claims)) io" where
  "GetUserInfo a token = do {
     t \<leftarrow> nextTick;
     State_Monad.return (op_UserInfo (oa_provider a) t token) }"

definition VerifyIDToken ::
    "oidc_authenticator \<Rightarrow> oauth_token \<Rightarrow> ('z, go_error + (go_error + string)) io" where
  "VerifyIDToken a token =
     (case ot_IDToken token of
        None \<Rightarrow> State_Monad.return (Inl (ErrorString ''id_token missing from oauth2 token''))
      | Some rawIDToken \<Rightarrow> do {
          t \<leftarrow> nextTick;
          State_Monad.return (oa_verifier a t rawIDToken) })"

definition AuthCodeURL :: "oidc_libs \<Rightarrow> oidc_authenticator \<Rightarrow> string \<Rightarrow> string" where
  "AuthCodeURL L a state = ol_AuthCodeURL L (oa_oauth2Config a) state"

section \<open>The handler\<close>

definition idTokenKey :: string where
  "idTokenKey = DefaultSessionKey @ ''.id_token''"

record 's oidc_handler =
  oh_cfg :: config
  oh_oidc :: oidc_authenticator
  oh_session :: "'s session_manager"
  oh_store :: "'s web identity_store_api"

definition NewOIDCHandlerWithAuthenticator ::
    "config \<Rightarrow> oidc_authenticator \<Rightarrow> 's session_manager \<Rightarrow> 's web identity_store_api \<Rightarrow> 's oidc_handler" where
  "NewOIDCHandlerWithAuthenticator cfg authenticator sessionManager store =
     \<lparr>oh_cfg = withDefaults cfg, oh_oidc = authenticator, oh_session = sessionManager, oh_store = store\<rparr>"

definition NewOIDCHandler ::
    "oidc_libs \<Rightarrow> config \<Rightarrow> 's session_manager \<Rightarrow> 's web identity_store_api option \<Rightarrow>
     go_error + 's oidc_handler" where
  "NewOIDCHandler L cfg sessionManager store =
     (let conf = withDefaults cfg
      in case store of
           None \<Rightarrow> Inl (ErrorString ''identity store is required'')
         | Some st \<Rightarrow>
             (case NewOIDCAuthenticator L conf of
                Inl err \<Rightarrow> Inl err
              | Inr a \<Rightarrow> Inr (NewOIDCHandlerWithAuthenticator conf a sessionManager st)))"

definition generateState :: "env \<Rightarrow> ('z, go_error + string) io" where
  "generateState E = do {
     bytes \<leftarrow> randRead E 24;
     State_Monad.return
       (case bytes of Inl err \<Rightarrow> Inl err | Inr bs \<Rightarrow> Inr (encode64 urlAlphabet bs)) }"

definition setStateCookie :: "string \<Rightarrow> string \<Rightarrow> bool \<Rightarrow> http_cookie" where
  "setStateCookie name value secure =
     \<lparr>ck_Name = name, ck_Value = value, ck_Path = ''/'', ck_MaxAge = DefaultCookieMaxAgeSecond,
      ck_Secure = secure, ck_HttpOnly = True, ck_SameSite = SameSiteLaxMode, ck_Expires = None\<rparr>"

definition clearStateCookie :: "string \<Rightarrow> bool \<Rightarrow> http_cookie" where
  "clearStateCookie name secure =
     \<lparr>ck_Name = name, ck_Value = '''', ck_Path = ''/'', ck_MaxAge = - 1,
      ck_Secure = secure, ck_HttpOnly = True, ck_SameSite = SameSiteLaxMode, ck_Expires = Some 0\<rparr>"

text \<open>\<open>*h.cfg.CookieSecure\<close>: the defaults always set it.\<close>

definition cookieSecure :: "'s oidc_handler \<Rightarrow> bool" where
  "cookieSecure h = (case cfg_CookieSecure (oh_cfg h) of Some b \<Rightarrow> b | None \<Rightarrow> True)"

definition AuthorizeHandler :: "env \<Rightarrow> oidc_libs \<Rightarrow> 's oidc_handler \<Rightarrow> ('s, http_response) web_io" where
  "AuthorizeHandler E L h = do {
     state \<leftarrow> generateState E;
     State_Monad.return
       (case state of
          Inl _ \<Rightarrow> httpError ''failed to generate state'' 500
        | Inr st \<Rightarrow>
            addCookie (setStateCookie (cfg_StateCookieName (oh_cfg h)) st (cookieSecure h))
              (httpRedirect (AuthCodeURL L (oh_oidc h) st) 302)) }"

definition resolveSubjectFromClaims :: "string \<Rightarrow> string \<Rightarrow> go_error + string" where
  "resolveSubjectFromClaims idTokenSubject userInfoSubject =
     (let idTokenSub = trimSpace idTokenSubject
      in if idTokenSub = '''' then Inl (ErrorString ''id token subject is missing'')
         else (let userInfoSub = trimSpace userInfoSubject
               in if userInfoSub = '''' then Inr idTokenSub
                  else if userInfoSub \<noteq> idTokenSub
                  then Inl (ErrorString ''id token and userinfo subjects do not match'')
                  else Inr idTokenSub))"

definition acceptsHTML :: "http_request \<Rightarrow> bool" where
  "acceptsHTML r =
     (if rq_Header r ''HX-Request'' = ''true'' then True
      else (let accept = rq_Header r ''Accept''
            in if accept = '''' then True
               else (\<exists>part\<in>set (splitOn CHR '','' accept).
                       let mediaType = trimSpace (hd (splitOn CHR '';'' part))
                       in mediaType = ''text/html'' \<or> mediaType = ''*/*'')))"

definition handleTenantSelectionRequired ::
    "'s oidc_handler \<Rightarrow> http_request \<Rightarrow> membership list \<Rightarrow> http_response" where
  "handleTenantSelectionRequired h r ms =
     (if acceptsHTML r then httpRedirect (cfg_TenantPickerPath (oh_cfg h)) 303
      else jsonResponse 409
             (JObject [(''error'', JString ''tenant_selection_required''),
                       (''tenant_count'', JInt (int (length ms))),
                       (''tenant_selection_required'', JBool True)]))"

section \<open>Callback\<close>

text \<open>\<open>r.Cookie(name)\<close>: the first cookie of that name.\<close>

definition requestCookie :: "http_request \<Rightarrow> string \<Rightarrow> string option" where
  "requestCookie r name = map_option snd (find (\<lambda>c. fst c = name) (rq_Cookies r))"

definition callbackIdentity :: "oidc_authenticator \<Rightarrow> string \<Rightarrow> user_info_claims \<Rightarrow> identity" where
  "callbackIdentity a subject claims =
     \<lparr>id_Issuer = GetIssuer a, id_Subject = subject, id_Email = uc_Email claims,
      id_EmailVerified = uc_EmailVerified claims, id_Username = uc_Nickname claims,
      id_Name = uc_Name claims, id_PreferredUsername = uc_PreferredUsername claims,
      id_RawClaims = []\<rparr>"

text \<open>The provider's part of the callback: from the code to the identity and the raw ID token.\<close>

definition fetchIdentity ::
    "oidc_libs \<Rightarrow> 's oidc_handler \<Rightarrow> string \<Rightarrow> ('s, http_response + (identity \<times> string)) web_io" where
  "fetchIdentity L h code = do {
     token \<leftarrow> Exchange L (oh_oidc h) code;
     case token of
       Inl _ \<Rightarrow> State_Monad.return (Inl (httpError ''failed to exchange token'' 500))
     | Inr tok \<Rightarrow> do {
         let rawIDToken = (case ot_IDToken tok of Some s \<Rightarrow> s | None \<Rightarrow> '''');
         idToken \<leftarrow> VerifyIDToken (oh_oidc h) tok;
         case idToken of
           Inl _ \<Rightarrow> State_Monad.return (Inl (httpError ''failed to verify id token'' 401))
         | Inr (Inl _) \<Rightarrow> State_Monad.return (Inl (httpError ''failed to parse id token claims'' 401))
         | Inr (Inr idSub) \<Rightarrow> do {
             userInfo \<leftarrow> GetUserInfo (oh_oidc h) tok;
             State_Monad.return
               (case userInfo of
                  Inl _ \<Rightarrow> Inl (httpError ''failed to get user info'' 500)
                | Inr (Inl _) \<Rightarrow> Inl (httpError ''failed to parse user claims'' 500)
                | Inr (Inr claims) \<Rightarrow>
                    (case resolveSubjectFromClaims idSub (uc_Sub claims) of
                       Inl _ \<Rightarrow> Inl (httpError ''invalid subject claims'' 401)
                     | Inr subject \<Rightarrow>
                         Inr (callbackIdentity (oh_oidc h) subject claims, rawIDToken))) } } }"

text \<open>The local part: the user, its memberships and the session.\<close>

definition establishSession ::
    "'s oidc_handler \<Rightarrow> http_request \<Rightarrow> identity \<Rightarrow> string \<Rightarrow> ('s, http_response) web_io" where
  "establishSession h r identity rawIDToken = do {
     userRef \<leftarrow> api_ResolveOrProvisionUser (oh_store h) identity;
     case userRef of
       Inl _ \<Rightarrow> State_Monad.return (httpError ''failed to resolve user'' 500)
     | Inr ref \<Rightarrow> do {
         memberships \<leftarrow> api_ListMemberships (oh_store h) (ref_UserID ref);
         case memberships of
           Inl _ \<Rightarrow> State_Monad.return (httpError ''failed to list memberships'' 500)
         | Inr ms \<Rightarrow>
             if ms = [] then State_Monad.return (httpError ''user has no tenant memberships'' 403)
             else do {
               let claims = claimsFor ref ms;
               _ \<leftarrow> sessPut (oh_session h) (cfg_SessionKey (oh_cfg h)) (SVClaims claims);
               _ \<leftarrow> (if rawIDToken \<noteq> '''' then sessPut (oh_session h) idTokenKey (SVString rawIDToken)
                     else State_Monad.return ());
               State_Monad.return
                 (if sc_ActiveTenantID claims = None then handleTenantSelectionRequired h r ms
                  else httpRedirect (cfg_PostLoginRedirect (oh_cfg h)) 303) } } }"

definition CallbackHandler ::
    "oidc_libs \<Rightarrow> 's oidc_handler \<Rightarrow> http_request \<Rightarrow> ('s, http_response) web_io" where
  "CallbackHandler L h r =
     (case requestCookie r (cfg_StateCookieName (oh_cfg h)) of
        None \<Rightarrow> State_Monad.return (httpError ''state not found'' 400)
      | Some stateCookie \<Rightarrow>
          if rq_Query r ''state'' \<noteq> stateCookie
          then State_Monad.return (httpError ''state did not match'' 400)
          else do {
            fetched \<leftarrow> fetchIdentity L h (rq_Query r ''code'');
            resp \<leftarrow> (case fetched of
                      Inl resp \<Rightarrow> State_Monad.return resp
                    | Inr (identity, rawIDToken) \<Rightarrow> establishSession h r identity rawIDToken);
            State_Monad.return
              (addCookie (clearStateCookie (cfg_StateCookieName (oh_cfg h)) (cookieSecure h)) resp) })"

section \<open>Tenants\<close>

text \<open>The loop of \<open>ListTenantsHandler\<close>.\<close>

fun tenantEntries ::
    "env \<Rightarrow> 's oidc_handler \<Rightarrow> session_claims \<Rightarrow> membership list \<Rightarrow> ('s, json list) web_io" where
  "tenantEntries E h claims [] = State_Monad.return []"
| "tenantEntries E h claims (m # ms) = do {
     name \<leftarrow> (if mb_TenantName m = ''''
             then do {
               display \<leftarrow> api_GetTenantDisplay (oh_store h) (mb_TenantID m);
               State_Monad.return (case display of Inl _ \<Rightarrow> '''' | Inr d \<Rightarrow> td_Name d) }
             else State_Monad.return (mb_TenantName m));
     let isActive = (sc_ActiveTenantID claims = Some (mb_TenantID m));
     rest \<leftarrow> tenantEntries E h claims ms;
     State_Monad.return
       (JObject [(''tenant_id'', JString (uuid_string E (mb_TenantID m))), (''name'', JString name),
                 (''role'', JString (mb_Role m)), (''is_active'', JBool isActive)] # rest) }"

definition ListTenantsHandler :: "env \<Rightarrow> 's oidc_handler \<Rightarrow> ('s, http_response) web_io" where
  "ListTenantsHandler E h = do {
     claims \<leftarrow> getSessionClaims (oh_session h) (cfg_SessionKey (oh_cfg h));
     case claims of
       None \<Rightarrow> State_Monad.return (httpError ''unauthorized'' 401)
     | Some c \<Rightarrow> do {
         memberships \<leftarrow> api_ListMemberships (oh_store h) (sc_UserID c);
         case memberships of
           Inl _ \<Rightarrow> State_Monad.return (httpError ''failed to list memberships'' 500)
         | Inr ms \<Rightarrow> do {
             response \<leftarrow> tenantEntries E h c ms;
             State_Monad.return (jsonResponse 200 (JArray response)) } } }"

text \<open>The payload is the \<open>tenant_id\<close> of the decoded body.\<close>

definition SelectTenantHandler ::
    "env \<Rightarrow> 's oidc_handler \<Rightarrow> string option \<Rightarrow> ('s, http_response) web_io" where
  "SelectTenantHandler E h payload = do {
     claims \<leftarrow> getSessionClaims (oh_session h) (cfg_SessionKey (oh_cfg h));
     case claims of
       None \<Rightarrow> State_Monad.return (httpError ''unauthorized'' 401)
     | Some c \<Rightarrow>
         (case payload of
            None \<Rightarrow> State_Monad.return (httpError ''invalid request body'' 400)
          | Some s \<Rightarrow>
              (case uuid_parse E s of
                 Inl _ \<Rightarrow> State_Monad.return (httpError ''invalid tenant_id'' 400)
               | Inr tenantID \<Rightarrow> do {
                   memberships \<leftarrow> api_ListMemberships (oh_store h) (sc_UserID c);
                   case memberships of
                     Inl _ \<Rightarrow> State_Monad.return (httpError ''failed to list memberships'' 500)
                   | Inr ms \<Rightarrow>
                       if \<not> (\<exists>m\<in>set ms. mb_TenantID m = tenantID)
                       then State_Monad.return (httpError ''tenant not allowed'' 403)
                       else do {
                         _ \<leftarrow> sessPut (oh_session h) (cfg_SessionKey (oh_cfg h))
                               (SVClaims (c\<lparr>sc_ActiveTenantID := Some tenantID\<rparr>));
                         State_Monad.return (respond 204 NoBody) } })) }"

section \<open>Logout\<close>

definition OIDCLogoutHandler :: "oidc_libs \<Rightarrow> 's oidc_handler \<Rightarrow> ('s, http_response) web_io" where
  "OIDCLogoutHandler L h = do {
     idTok \<leftarrow> sessGet (oh_session h) idTokenKey;
     let rawIDToken = (case idTok of Some (SVString s) \<Rightarrow> s | _ \<Rightarrow> '''');
     err \<leftarrow> sessDestroy (oh_session h);
     State_Monad.return
       (case err of
          Some _ \<Rightarrow> httpError ''failed to destroy session'' 500
        | None \<Rightarrow>
            (let endSession = EndSessionURL (oh_oidc h);
                 home = httpRedirect (cfg_PostLogoutRedirect (oh_cfg h)) 303
             in if endSession = '''' then home
                else (case ol_ParseURL L endSession of
                        Inl _ \<Rightarrow> home
                      | Inr url \<Rightarrow>
                          httpRedirect
                            (ol_SetQuery L url
                               ([(''post_logout_redirect_uri'', cfg_PostLogoutRedirect (oh_cfg h))] @
                                (if rawIDToken \<noteq> '''' then [(''id_token_hint'', rawIDToken)] else [])))
                            303))) }"

section \<open>Handlers over any identity store\<close>

lemma w_sess_more: "world.more w' = world.more w \<Longrightarrow> w_sess w' = w_sess w"
  by (cases w, cases w') auto

lemma tickw_sess [simp]: "w_sess (tickw w) = w_sess w"
  by (simp add: tickw_def)

text \<open>
  An identity store for request handlers: the store's world is the handler's, well-formedness
  does not depend on the session or the call counter, and the store leaves the session alone.
  \<open>known\<close> holds of the users that the store has: a resolved user is one of them.
\<close>

lemma resolved_row:
  assumes "run_state (ResolveOrProvisionUser E s i) w = (Inr ref, w')"
    and "is_Queries s = OnPool" and "db_ok (w_db w)"
  shows "\<exists>u\<in>set (users (w_db w')). ref = \<lparr>ref_UserID = u_id u, ref_Issuer = u_issuer u, ref_Subject = u_subject u\<rparr>"
proof -
  note r = ResolveOrProvisionUser_result [OF assms]
  have "\<exists>u. userOf (w_db w') i = Some u \<and> ref = toUserRef (userRow u)"
    using r provisioned_user by (auto simp: resolved_def split: option.splits)
  then show ?thesis by (auto simp: toUserRef_def userRow_def dest!: userOf_Some)
qed


locale web_identity_store = identity_store wf members world.more api
  for wf :: "'s web \<Rightarrow> bool" and members and api +
  fixes known :: "'s web \<Rightarrow> user_ref \<Rightarrow> bool"
  assumes resolve_known: "wf w \<Longrightarrow> run_state (api_ResolveOrProvisionUser api i) w = (Inr ref, w') \<Longrightarrow> known w' ref"
    and list_known: "wf w \<Longrightarrow> run_state (api_ListMemberships api u) w = (r', w') \<Longrightarrow> known w' = known w"
    and known_session: "known (w\<lparr>w_sess := s\<rparr>) = known w"
    and wf_session: "wf (w\<lparr>w_sess := s\<rparr>) = wf w"
    and members_session: "members (w\<lparr>w_sess := s\<rparr>) = members w"
    and wf_tick: "wf (tickw w) = wf w"
    and members_tick: "members (tickw w) = members w"
begin

lemma resolve_session:
  "wf w \<Longrightarrow> run_state (api_ResolveOrProvisionUser api i) w = (r, w') \<Longrightarrow> wf w' \<and> w_sess w' = w_sess w"
  using resolve_keeps w_sess_more by blast

lemma list_session:
  "wf w \<Longrightarrow> run_state (api_ListMemberships api u) w = (r, w') \<Longrightarrow>
     wf w' \<and> w_sess w' = w_sess w \<and> members w' = members w"
  using list_keeps w_sess_more by blast

lemma display_session:
  "wf w \<Longrightarrow> run_state (api_GetTenantDisplay api t) w = (r, w') \<Longrightarrow>
     wf w' \<and> w_sess w' = w_sess w \<and> members w' = members w"
  using display_keeps w_sess_more by blast

lemma fetch_keeps:
  "run_state (fetchIdentity L h code) w = (r, w') \<Longrightarrow>
     wf w' = wf w \<and> w_sess w' = w_sess w \<and> members w' = members w"
  by (auto simp: fetchIdentity_def Exchange_def VerifyIDToken_def GetUserInfo_def Let_def wf_tick members_tick
      tickw_def [symmetric] split: sum.splits option.splits prod.splits)

lemma establish_session:
  assumes "wf w" and "oh_store h = api" and "manager_good (oh_session h)"
    and "cfg_SessionKey (oh_cfg h) \<noteq> idTokenKey"
    and run: "run_state (establishSession h r i raw) w = (resp, w')"
  shows "wf w' \<and>
     (w_sess w' = w_sess w \<and> rs_Status resp \<in> {403, 500} \<or>
      (\<exists>ref. ref_Issuer ref = id_Issuer i \<and> ref_Subject ref = id_Subject i \<and> known w' ref \<and>
         members w' (ref_UserID ref) \<noteq> [] \<and>
         managerGet (oh_session h) (w_sess w') (cfg_SessionKey (oh_cfg h)) =
           Some (SVClaims (claimsFor ref (members w' (ref_UserID ref)))) \<and>
         rs_Status resp \<in> {303, 409} \<and>
         (rs_Status resp = 409 \<longrightarrow> length (members w' (ref_UserID ref)) \<noteq> 1)))"
proof (cases "run_state (api_ResolveOrProvisionUser api i) w")
  case (Pair r1 w1)
  note k1 = resolve_session [OF assms(1) Pair]
  show ?thesis
  proof (cases r1)
    case (Inl e)
    with run Pair k1 assms(2) show ?thesis by (auto simp: establishSession_def)
  next
    case (Inr ref)
    note ok = resolve_ok [OF assms(1) Pair [unfolded Inr]]
    obtain r2 w2 where l: "run_state (api_ListMemberships api (ref_UserID ref)) w1 = (r2, w2)" by fastforce
    note k2 = list_session [OF k1 [THEN conjunct1] l]
    have kn: "known w2 ref"
      using resolve_known [OF assms(1) Pair [unfolded Inr]] list_known [OF k1 [THEN conjunct1] l] by simp
    show ?thesis
    proof (cases r2)
      case (Inl e)
      with run Pair Inr l k1 k2 assms(2) show ?thesis by (auto simp: establishSession_def)
    next
      case inr2: (Inr ms)
      with list_ok [OF k1 [THEN conjunct1]] l k2 have ms: "ms = members w2 (ref_UserID ref)" by auto
      with ok k2 have ne: "ms \<noteq> []" by simp
      show ?thesis
        using run Pair Inr l inr2 k1 k2 ok ne assms(2-4) ms kn
        by (auto simp: establishSession_def Let_def wf_session members_session known_session mgr.get_put
            handleTenantSelectionRequired_def claimsFor_def split: if_splits)
    qed
  qed
qed

lemma callback_session:
  assumes "wf w" and "oh_store h = api" and "manager_good (oh_session h)"
    and "cfg_SessionKey (oh_cfg h) \<noteq> idTokenKey"
    and run: "run_state (CallbackHandler L h r) w = (resp, w')"
  shows "wf w' \<and>
     (w_sess w' = w_sess w \<and> rs_Status resp \<in> {400, 401, 403, 500} \<or>
      (\<exists>ref i raw w1. requestCookie r (cfg_StateCookieName (oh_cfg h)) = Some (rq_Query r ''state'') \<and>
         run_state (fetchIdentity L h (rq_Query r ''code'')) w = (Inr (i, raw), w1) \<and>
         ref_Issuer ref = id_Issuer i \<and> ref_Subject ref = id_Subject i \<and> known w' ref \<and>
         members w' (ref_UserID ref) \<noteq> [] \<and>
         managerGet (oh_session h) (w_sess w') (cfg_SessionKey (oh_cfg h)) =
           Some (SVClaims (claimsFor ref (members w' (ref_UserID ref)))) \<and>
         rs_Status resp \<in> {303, 409}))"
proof (cases "requestCookie r (cfg_StateCookieName (oh_cfg h)) = Some (rq_Query r ''state'')")
  case False
  with run assms(1) show ?thesis by (auto simp: CallbackHandler_def split: option.splits if_splits)
next
  case True
  obtain f w1 where f: "run_state (fetchIdentity L h (rq_Query r ''code'')) w = (f, w1)" by fastforce
  note k = fetch_keeps [OF f]
  show ?thesis
  proof (cases f)
    case (Inl re)
    have "rs_Status re \<in> {401, 500}"
      using f Inl by (auto simp: fetchIdentity_def Exchange_def VerifyIDToken_def GetUserInfo_def Let_def
          split: sum.splits option.splits prod.splits)
    with run True f Inl k assms(1) show ?thesis by (auto simp: CallbackHandler_def)
  next
    case (Inr p)
    obtain i raw where p: "p = (i, raw)" by (cases p)
    obtain re w2 where e: "run_state (establishSession h r i raw) w1 = (re, w2)" by fastforce
    from run True f Inr p e have "w' = w2" "rs_Status resp = rs_Status re"
      by (auto simp: CallbackHandler_def)
    with establish_session [OF _ assms(2-4) e] k assms(1) True f Inr p show ?thesis by auto
  qed
qed

lemma select_session:
  assumes "wf w" and "oh_store h = api" and "manager_good (oh_session h)"
    and run: "run_state (SelectTenantHandler E h payload) w = (resp, w')"
  shows "wf w' \<and> members w' = members w \<and>
     (w_sess w' = w_sess w \<and> rs_Status resp \<in> {400, 401, 403, 500} \<or>
      (\<exists>c s t. authenticatedClaims (managerGet (oh_session h) (w_sess w) (cfg_SessionKey (oh_cfg h))) = Some c \<and>
         payload = Some s \<and> uuid_parse E s = Inr t \<and> t \<in> mb_TenantID ` set (members w (sc_UserID c)) \<and>
         managerGet (oh_session h) (w_sess w') (cfg_SessionKey (oh_cfg h)) =
           Some (SVClaims (c\<lparr>sc_ActiveTenantID := Some t\<rparr>)) \<and>
         rs_Status resp = 204))"
proof (cases "authenticatedClaims (managerGet (oh_session h) (w_sess w) (cfg_SessionKey (oh_cfg h)))")
  case None
  with run assms(1) show ?thesis by (auto simp: SelectTenantHandler_def)
next
  case (Some c)
  show ?thesis
  proof (cases "\<exists>s t. payload = Some s \<and> uuid_parse E s = Inr t")
    case False
    with run Some assms(1) show ?thesis
      by (auto simp: SelectTenantHandler_def split: option.splits sum.splits)
  next
    case True
    then obtain s t where st: "payload = Some s" "uuid_parse E s = Inr t" by blast
    obtain r1 w1 where l: "run_state (api_ListMemberships api (sc_UserID c)) w = (r1, w1)" by fastforce
    note k = list_session [OF assms(1) l]
    show ?thesis
    proof (cases r1)
      case (Inl e)
      with run Some st l k assms(2) show ?thesis by (auto simp: SelectTenantHandler_def)
    next
      case (Inr ms)
      with list_ok [OF assms(1)] l have ms: "ms = members w (sc_UserID c)" by simp
      with run Some st l Inr k assms(2,3) show ?thesis
        by (auto simp: SelectTenantHandler_def wf_session members_session mgr.get_put split: if_splits)
    qed
  qed
qed

lemma entries_session:
  "wf w \<Longrightarrow> oh_store h = api \<Longrightarrow> run_state (tenantEntries E h c ms) w = (js, w') \<Longrightarrow>
     wf w' \<and> w_sess w' = w_sess w \<and> members w' = members w \<and> length js = length ms"
proof (induction ms arbitrary: w js w')
  case (Cons m ms)
  show ?case
  proof (cases "mb_TenantName m = ''''")
    case True
    obtain d w1 where d: "run_state (api_GetTenantDisplay api (mb_TenantID m)) w = (d, w1)" by fastforce
    obtain js1 w2 where js1: "run_state (tenantEntries E h c ms) w1 = (js1, w2)" by fastforce
    note k = display_session [OF Cons.prems(1) d]
    from Cons.IH [OF _ Cons.prems(2) js1] k Cons.prems(2,3) True d js1 show ?thesis by (auto simp: Let_def)
  next
    case False
    obtain js1 w2 where js1: "run_state (tenantEntries E h c ms) w = (js1, w2)" by fastforce
    from Cons.IH [OF Cons.prems(1,2) js1] Cons.prems(3) False js1 show ?thesis by (auto simp: Let_def)
  qed
qed auto

end

interpretation pgweb: web_identity_store "Schema.inv db_ok" "\<lambda>w. membershipsOf (w_db w)"
    "identityApi E (NewPostgresIdentityStore hasPool name)"
    "\<lambda>w ref. \<exists>u\<in>set (users (w_db w)). ref = \<lparr>ref_UserID = u_id u, ref_Issuer = u_issuer u, ref_Subject = u_subject u\<rparr>"
    for E hasPool name
proof (unfold_locales, goal_cases)
  case (1 w i ref w')
  then show ?case
    using resolved_row [OF _ NewPostgres_pool, where E = E and w = w and w' = w' and ref = ref and i = i]
    by (simp add: identityApi_def Schema.inv_def)
next
  case (2 w u r' w')
  then show ?case by (auto simp: identityApi_def run_ListMemberships_pool split: option.splits)
qed (simp_all add: Schema.inv_def)

section \<open>Properties\<close>

text \<open>What the provider vouched for in a callback: the identity and its subject.\<close>

lemma filter_single: "filter P xs = [x] \<Longrightarrow> x \<in> set xs"
  by (metis filter_is_subset list.set_intros(1) subset_iff)

lemma filter_distinct_key:
  assumes "distinct (map (\<lambda>x. (f x, g x)) xs)" and "x \<in> set xs"
  shows "filter (\<lambda>y. f y = f x \<and> g y = g x) xs = [x]"
  using assms
proof (induction xs)
  case (Cons a xs)
  then show ?case by (cases "x = a") (auto simp: filter_empty_conv image_iff)
qed simp

lemma fetch_identity:
  assumes "run_state (fetchIdentity L h code) w = (Inr (i, raw), w')"
  shows "\<exists>tok idSub claims raw'. ol_Exchange L (oa_oauth2Config (oh_oidc h)) (w_tick w) code = Inr tok \<and>
     ot_IDToken tok = Some raw' \<and> raw = raw' \<and>
     oa_verifier (oh_oidc h) (w_tick w + 1) raw' = Inr (Inr idSub) \<and>
     op_UserInfo (oa_provider (oh_oidc h)) (w_tick w + 2) tok = Inr (Inr claims) \<and>
     id_Subject i = trimSpace idSub \<and> id_Subject i \<noteq> '''' \<and>
     trimSpace (uc_Sub claims) \<in> {'''', id_Subject i} \<and>
     id_Issuer i = GetIssuer (oh_oidc h)"
  using assms
  by (auto simp: fetchIdentity_def Exchange_def VerifyIDToken_def GetUserInfo_def Let_def
      resolveSubjectFromClaims_def callbackIdentity_def
      split: sum.splits option.splits prod.splits if_splits)

text \<open>
  C10 The callback: the session changes only if the state of the request is that of its
  cookie, the provider exchanged the code, its ID token verified, and the user info agrees on
  the subject. Then the users table has exactly one row with the provider's issuer and that
  (non-empty) subject, and the session holds the authenticated claims of that row: its id,
  the issuer, the subject, and an active tenant exactly when the user has one membership,
  which is then that tenant; the user is a member of some tenant. Otherwise the response is an
  error.
\<close>

theorem callback_authenticates:
  assumes "oh_store h = identityApi E (NewPostgresIdentityStore hasPool name)"
    and "manager_good (oh_session h)" and "cfg_SessionKey (oh_cfg h) \<noteq> idTokenKey"
    and "Schema.inv db_ok w" and "run_state (CallbackHandler L h r) w = (resp, w')"
  shows "(w_sess w' = w_sess w \<and> rs_Status resp \<in> {400, 401, 403, 500}) \<or>
    (rs_Status resp \<in> {303, 409} \<and>
     requestCookie r (cfg_StateCookieName (oh_cfg h)) = Some (rq_Query r ''state'') \<and>
     (\<exists>tok idToken idSub info u cl.
        ol_Exchange L (oa_oauth2Config (oh_oidc h)) (w_tick w) (rq_Query r ''code'') = Inr tok \<and>
        ot_IDToken tok = Some idToken \<and>
        oa_verifier (oh_oidc h) (w_tick w + 1) idToken = Inr (Inr idSub) \<and>
        op_UserInfo (oa_provider (oh_oidc h)) (w_tick w + 2) tok = Inr (Inr info) \<and>
        trimSpace idSub \<noteq> '''' \<and> trimSpace (uc_Sub info) \<in> {'''', trimSpace idSub} \<and>
        filter (\<lambda>v. u_issuer v = oa_issuerURL (oh_oidc h) \<and> u_subject v = trimSpace idSub) (users (w_db w')) = [u] \<and>
        membershipsOf (w_db w') (u_id u) \<noteq> [] \<and>
        managerGet (oh_session h) (w_sess w') (cfg_SessionKey (oh_cfg h)) = Some (SVClaims cl) \<and>
        sc_Authenticated cl \<and> sc_UserID cl = u_id u \<and> sc_Issuer cl = oa_issuerURL (oh_oidc h) \<and>
        sc_Subject cl = trimSpace idSub \<and>
        sc_ActiveTenantID cl = (case membershipsOf (w_db w') (u_id u) of [m] \<Rightarrow> Some (mb_TenantID m) | _ \<Rightarrow> None)))"
proof -
  note cb = pgweb.callback_session [OF assms(4,1-3,5)]
  show ?thesis
  proof (cases "w_sess w' = w_sess w \<and> rs_Status resp \<in> {400, 401, 403, 500}")
    case False
    with cb obtain ref i raw w1 u where ok: "db_ok (w_db w')"
      and c: "requestCookie r (cfg_StateCookieName (oh_cfg h)) = Some (rq_Query r ''state'')"
      and f: "run_state (fetchIdentity L h (rq_Query r ''code'')) w = (Inr (i, raw), w1)"
      and ref: "ref_Issuer ref = id_Issuer i" "ref_Subject ref = id_Subject i"
      and u: "u \<in> set (users (w_db w'))"
        "ref = \<lparr>ref_UserID = u_id u, ref_Issuer = u_issuer u, ref_Subject = u_subject u\<rparr>"
      and m: "membershipsOf (w_db w') (ref_UserID ref) \<noteq> []"
      and cl: "managerGet (oh_session h) (w_sess w') (cfg_SessionKey (oh_cfg h)) =
        Some (SVClaims (claimsFor ref (membershipsOf (w_db w') (ref_UserID ref))))"
      and st: "rs_Status resp \<in> {303, 409}"
      by (auto simp: Schema.inv_def)
    from ok have "distinct (map (\<lambda>u. (u_issuer u, u_subject u)) (users (w_db w')))"
      by (simp add: db_ok_def users_ok_def)
    from filter_distinct_key [OF this u(1)]
    have row: "filter (\<lambda>v. u_issuer v = id_Issuer i \<and> u_subject v = id_Subject i) (users (w_db w')) = [u]"
      using ref u(2) by simp
    have t: "sc_ActiveTenantID (claimsFor ref ms) = (case ms of [m] \<Rightarrow> Some (mb_TenantID m) | _ \<Rightarrow> None)" for ms
      by (simp add: claimsFor_def split: list.split)
    from fetch_identity [OF f] obtain tok idToken idSub info where
      "ol_Exchange L (oa_oauth2Config (oh_oidc h)) (w_tick w) (rq_Query r ''code'') = Inr tok"
      "ot_IDToken tok = Some idToken"
      "oa_verifier (oh_oidc h) (w_tick w + 1) idToken = Inr (Inr idSub)"
      "op_UserInfo (oa_provider (oh_oidc h)) (w_tick w + 2) tok = Inr (Inr info)"
      and i: "id_Subject i = trimSpace idSub" "id_Subject i \<noteq> ''''"
        "trimSpace (uc_Sub info) \<in> {'''', id_Subject i}" "id_Issuer i = oa_issuerURL (oh_oidc h)"
      by (auto simp: GetIssuer_def)
    with c st m cl row ref u t [of "membershipsOf (w_db w') (u_id u)"] show ?thesis
      by (intro disjI2 conjI exI [of _ tok] exI [of _ idToken] exI [of _ idSub] exI [of _ info] exI [of _ u]
          exI [of _ "claimsFor ref (membershipsOf (w_db w') (ref_UserID ref))"])
        (simp_all add: claimsFor_def)
  qed simp
qed

text \<open>
  Selecting a tenant: the request is accepted only from an authenticated session and only
  for a tenant of which the session's user is a member; then it is the active tenant of the
  session, and the rest of the claims are unchanged. Otherwise the session stays as it was.
\<close>

theorem select_tenant_member:
  assumes "oh_store h = identityApi E (NewPostgresIdentityStore hasPool name)"
    and "manager_good (oh_session h)"
    and "Schema.inv db_ok w" and "run_state (SelectTenantHandler E h payload) w = (resp, w')"
  shows "(w_sess w' = w_sess w \<and> rs_Status resp \<in> {400, 401, 403, 500}) \<or>
    (rs_Status resp = 204 \<and>
     (\<exists>c s t. managerGet (oh_session h) (w_sess w) (cfg_SessionKey (oh_cfg h)) = Some (SVClaims c) \<and>
        sc_Authenticated c \<and> payload = Some s \<and> uuid_parse E s = Inr t \<and>
        (\<exists>m\<in>set (membershipsOf (w_db w) (sc_UserID c)). mb_TenantID m = t) \<and>
        managerGet (oh_session h) (w_sess w') (cfg_SessionKey (oh_cfg h)) =
          Some (SVClaims (c\<lparr>sc_ActiveTenantID := Some t\<rparr>))))"
  using pgweb.select_session [OF assms(3,1,2,4)]
  by (auto simp: authenticatedClaims_Some)

text \<open>
  Logging out: when the session store destroys the session, nothing remains of it, in
  particular no claims, and the browser is sent to the provider's end-session URL with the
  ID token stored at login, or to the configured page; otherwise the answer is a 500.
\<close>

theorem logout_clears:
  assumes "manager_good (oh_session h)"
    and "run_state (OIDCLogoutHandler L h) w = (resp, w')"
    and "managerDestroy (oh_session h) (w_sess w) = (e, s')"
  shows "w_sess w' = s' \<and>
    (case e of
       Some _ \<Rightarrow> rs_Status resp = 500
     | None \<Rightarrow> rs_Status resp = 303 \<and> (\<forall>k. managerGet (oh_session h) (w_sess w') k = None) \<and>
         (\<forall>url raw. EndSessionURL (oh_oidc h) \<noteq> '''' \<and> ol_ParseURL L (EndSessionURL (oh_oidc h)) = Inr url \<and>
            managerGet (oh_session h) (w_sess w) idTokenKey = Some (SVString raw) \<and> raw \<noteq> '''' \<longrightarrow>
            rs_Body resp = RedirectBody (ol_SetQuery L url
              [(''post_logout_redirect_uri'', cfg_PostLogoutRedirect (oh_cfg h)), (''id_token_hint'', raw)])))"
  using assms(2,3) mgr.get_destroy [OF assms(1)]
  by (auto simp: OIDCLogoutHandler_def Let_def split: option.splits sum.splits)

section \<open>Witnesses\<close>

definition sampleUserInfo :: user_info_claims where
  "sampleUserInfo = \<lparr>uc_Sub = '''', uc_Acr = '''', uc_Amr = [], uc_Aud = '''', uc_Iss = '''', uc_Sid = '''',
     uc_AuthTime = 0, uc_Email = ''a@x'', uc_EmailVerified = True, uc_Exp = 0, uc_GivenName = '''',
     uc_Groups = [], uc_Iat = 0, uc_Name = '''', uc_Nickname = ''nick'', uc_PreferredUsername = ''''\<rparr>"

definition sampleProvider :: oidc_provider where
  "sampleProvider = \<lparr>op_Endpoint = ''https://idp'', op_Verifier = (\<lambda>_ _ _. Inr (Inr ''sub'')),
     op_UserInfo = (\<lambda>_ _. Inr (Inr sampleUserInfo))\<rparr>"

definition sampleLibs :: oidc_libs where
  "sampleLibs = \<lparr>ol_NewProvider = (\<lambda>_. Inr (sampleProvider, Inr ''https://idp/end'')),
     ol_Exchange = (\<lambda>_ _ code. Inr \<lparr>ot_AccessToken = code, ot_IDToken = Some ''jwt''\<rparr>),
     ol_AuthCodeURL = (\<lambda>c state. oc_Endpoint c @ ''?state='' @ state),
     ol_ParseURL = Inr, ol_SetQuery = (\<lambda>u q. u)\<rparr>"

definition sampleConfig :: config where
  "sampleConfig = withDefaults \<lparr>cfg_Enabled = True, cfg_IssuerURL = ''iss'', cfg_ClientID = ''id'',
     cfg_ClientSecret = ''secret'', cfg_RedirectURL = ''https://app/cb'', cfg_LoginPath = '''',
     cfg_PostLoginRedirect = '''', cfg_TenantPickerPath = '''', cfg_SessionKey = '''', cfg_AuthorizePath = '''',
     cfg_CallbackPath = '''', cfg_TenantsPath = '''', cfg_TenantSelectPath = '''', cfg_LogoutPath = '''',
     cfg_PostLogoutRedirect = '''', cfg_StateCookieName = '''', cfg_CookieSecure = None\<rparr>"

definition sampleAuthenticator :: oidc_authenticator where
  "sampleAuthenticator = \<lparr>oa_oauth2Config = \<lparr>oc_ClientID = ''id'', oc_ClientSecret = ''secret'',
       oc_RedirectURL = ''https://app/cb'', oc_Endpoint = ''https://idp'', oc_Scopes = [''openid'', ''profile'', ''email'']\<rparr>,
     oa_verifier = (\<lambda>_ _. Inr (Inr ''sub'')), oa_provider = sampleProvider, oa_issuerURL = ''iss'',
     oa_endSessionEndpoint = ''https://idp/end''\<rparr>"

definition sampleOidc :: "(string \<Rightarrow> session_value option) oidc_handler" where
  "sampleOidc = \<lparr>oh_cfg = sampleConfig, oh_oidc = sampleAuthenticator, oh_session = sampleManager,
     oh_store = identityApi sampleEnv sampleStore\<rparr>"

lemma sampleOidc_new:
  "NewOIDCHandler sampleLibs sampleConfig sampleManager (Some (identityApi sampleEnv sampleStore)) = Inr sampleOidc"
  by (simp add: NewOIDCHandler_def NewOIDCAuthenticator_def NewOIDCAuthenticatorWithProvider_def
      NewOIDCHandlerWithAuthenticator_def sampleOidc_def sampleConfig_def withDefaults_idem Let_def
      sampleLibs_def sampleAuthenticator_def)
    (simp add: withDefaults_def sampleProvider_def)

definition callbackRequest :: http_request where
  "callbackRequest = (sampleRequest ''/cb'')\<lparr>rq_Query := (\<lambda>k. if k = ''state'' then ''st'' else ''code''),
     rq_Cookies := [(''oidc_state'', ''st'')]\<rparr>"

lemma sampleOidc_simps [simp]:
  "oh_store sampleOidc = identityApi sampleEnv (NewPostgresIdentityStore True '''')"
  "oh_session sampleOidc = sampleManager" "cfg_SessionKey (oh_cfg sampleOidc) = ''auth''"
  "oh_oidc sampleOidc = sampleAuthenticator" "cfg_StateCookieName (oh_cfg sampleOidc) = ''oidc_state''"
  "cfg_PostLogoutRedirect (oh_cfg sampleOidc) = ''/''"
  "cfg_PostLoginRedirect (oh_cfg sampleOidc) = ''/ui/profile''"
  by (simp_all add: sampleOidc_def sampleStore_def sampleConfig_def withDefaults_def orDefault_def auth_constants)

lemma sampleDb_members: "map mb_TenantID (membershipsOf sampleDb 104) = [102]"
  by (simp add: membershipsOf_def sqlListMemberships_def sampleDb_def toMembership_def)

lemma trimSpace_sub: "trimSpace ''sub'' = ''sub''"
proof -
  have "trimLeftSeqs spaceSeqs ''sub'' = ''sub''"
    by (rule trimLeftSeqs_id) (auto simp: spaceSeqs_def spaceRunes_def encodeRune_def hasPrefix_iff char_of_def)
  moreover have "trimLeftSeqs (map rev spaceSeqs) ''bus'' = ''bus''"
    by (rule trimLeftSeqs_id) (auto simp: spaceSeqs_def spaceRunes_def encodeRune_def hasPrefix_iff char_of_def)
  ultimately show ?thesis by (simp add: trimSpace_def)
qed

lemma inv_sampleWeb: "db_ok d \<Longrightarrow> Schema.inv db_ok (sampleWeb d s)"
  by (simp add: Schema.inv_def)

lemma db_ok_sampleDb: "db_ok sampleDb"
  by (simp add: sampleDb_def db_ok_def users_ok_def userExists_def tenantExists_def sampleUser_def roleNames_def)

lemma callbackRequest_simps:
  "rq_Query callbackRequest ''state'' = ''st''" "rq_Query callbackRequest ''code'' = ''code''"
  "rq_Cookies callbackRequest = [(''oidc_state'', ''st'')]"
  by (simp_all add: callbackRequest_def)

definition sampleCallbackIdentity :: identity where
  "sampleCallbackIdentity = callbackIdentity sampleAuthenticator ''sub'' sampleUserInfo"

lemma sample_fetch:
  "run_state (fetchIdentity sampleLibs sampleOidc code) w =
     (Inr (sampleCallbackIdentity, ''jwt''), tickw (tickw (tickw w)))"
  by (simp add: fetchIdentity_def Exchange_def VerifyIDToken_def GetUserInfo_def Let_def sampleLibs_def
      sampleAuthenticator_def sampleProvider_def sampleUserInfo_def resolveSubjectFromClaims_def trimSpace_sub
      sampleCallbackIdentity_def)

lemma sample_establish:
  assumes "w_db w = sampleDb"
  shows "\<exists>w'. run_state (establishSession sampleOidc callbackRequest sampleCallbackIdentity ''jwt'') w =
     (httpRedirect ''/ui/profile'' 303, w') \<and> w_db w' = sampleDb"
proof -
  let ?s = "NewPostgresIdentityStore True ''''"
  have u: "userOf sampleDb sampleCallbackIdentity = Some sampleUser"
    by (simp add: userOf_def sampleDb_def sampleUser_def sampleCallbackIdentity_def callbackIdentity_def
        GetIssuer_def sampleAuthenticator_def)
  have ms: "membershipsOf sampleDb 104 = [\<lparr>mb_TenantID = 102, mb_TenantName = ''Default'', mb_Role = ''member''\<rparr>]"
    by (simp add: membershipsOf_def sqlListMemberships_def sampleDb_def toMembership_def)
  have r: "run_state (ResolveOrProvisionUser sampleEnv ?s sampleCallbackIdentity) w =
      (Inr (toUserRef (userRow sampleUser)), tickw (tickw w))"
    using u ms assms
    by (simp add: ResolveOrProvisionUser_def run_GetUserByIdentifier_pool run_ListMemberships_pool)
      (simp add: NewPostgresIdentityStore_def userRow_def sampleUser_def)
  show ?thesis
    using r ms assms
    by (simp add: establishSession_def identityApi_def run_ListMemberships_pool Let_def claimsFor_def
        toUserRef_def userRow_def sampleUser_def)
qed

theorem callback_authenticates_witness:
  "\<exists>resp w' c. run_state (CallbackHandler sampleLibs sampleOidc callbackRequest) (sampleWeb sampleDb (\<lambda>_. None)) =
       (resp, w') \<and> rs_Status resp = 303 \<and>
     w_sess w' ''auth'' = Some (SVClaims c) \<and> sc_Subject c = ''sub'' \<and> sc_UserID c = 104 \<and>
     sc_ActiveTenantID c = Some 102"
proof -
  let ?w = "sampleWeb sampleDb (\<lambda>_. None)"
  obtain w1 where f: "run_state (fetchIdentity sampleLibs sampleOidc ''code'') ?w = (Inr (sampleCallbackIdentity, ''jwt''), w1)"
    "w_db w1 = sampleDb" "w_sess w1 = w_sess ?w"
    using sample_fetch [where w = ?w] by auto
  obtain w' where e: "run_state (establishSession sampleOidc callbackRequest sampleCallbackIdentity ''jwt'') w1 =
      (httpRedirect ''/ui/profile'' 303, w')" "w_db w' = sampleDb"
    using sample_establish [OF f(2)] by blast
  have run: "run_state (CallbackHandler sampleLibs sampleOidc callbackRequest) ?w =
      (addCookie (clearStateCookie ''oidc_state'' (cookieSecure sampleOidc)) (httpRedirect ''/ui/profile'' 303), w')"
    using f e by (simp add: CallbackHandler_def requestCookie_def callbackRequest_simps)
  from callback_authenticates [OF sampleOidc_simps(1) _ _ inv_sampleWeb [OF db_ok_sampleDb] run] e(2) f
  obtain u c where u: "u \<in> set (users sampleDb)" and c: "w_sess w' ''auth'' = Some (SVClaims c)"
    "sc_Subject c = ''sub''" "sc_UserID c = u_id u"
    "sc_ActiveTenantID c = (case membershipsOf sampleDb (u_id u) of [m] \<Rightarrow> Some (mb_TenantID m) | _ \<Rightarrow> None)"
    by (auto simp: sampleManager_good sampleAuthenticator_def trimSpace_sub auth_constants idTokenKey_def
        intro: filter_single)
  from u have "u_id u = 104" by (simp add: sampleDb_def sampleUser_def)
  with run c sampleDb_members show ?thesis by (auto split: list.splits)
qed

theorem select_tenant_member_witness:
  "\<exists>w'. run_state (SelectTenantHandler sampleEnv sampleOidc (Some ''102''))
       (sampleWeb sampleDb [''auth'' \<mapsto> SVClaims ((sampleClaims None)\<lparr>sc_UserID := 104\<rparr>)]) = (respond 204 NoBody, w') \<and>
     w_sess w' ''auth'' = Some (SVClaims ((sampleClaims (Some 102))\<lparr>sc_UserID := 104\<rparr>))"
proof -
  let ?w = "sampleWeb sampleDb [''auth'' \<mapsto> SVClaims ((sampleClaims None)\<lparr>sc_UserID := 104\<rparr>)]"
  have p: "uuid_parse sampleEnv ''102'' = Inr 102"
    by (simp add: sampleEnv_def parseUint_def digitVal_def)
  obtain resp w' where run: "run_state (SelectTenantHandler sampleEnv sampleOidc (Some ''102'')) ?w = (resp, w')" by fastforce
  have "resp = respond 204 NoBody"
    using run p by (simp add: SelectTenantHandler_def identityApi_def run_ListMemberships_pool membershipsOf_def
      sqlListMemberships_def sampleDb_def toMembership_def sampleClaims_def)
  with select_tenant_member [OF sampleOidc_simps(1) _ inv_sampleWeb [OF db_ok_sampleDb] run] run p show ?thesis
    by (auto simp: sampleManager_good sampleClaims_def)
qed

theorem logout_clears_witness:
  "\<exists>w'. run_state (OIDCLogoutHandler sampleLibs sampleOidc)
       (sampleWeb sampleDb [''auth'' \<mapsto> SVClaims (sampleClaims None), ''auth.id_token'' \<mapsto> SVString ''jwt'']) =
       (httpRedirect ''https://idp/end'' 303, w') \<and> w_sess w' ''auth'' = None"
proof -
  let ?w = "sampleWeb sampleDb [''auth'' \<mapsto> SVClaims (sampleClaims None), ''auth.id_token'' \<mapsto> SVString ''jwt'']"
  obtain resp w' where run: "run_state (OIDCLogoutHandler sampleLibs sampleOidc) ?w = (resp, w')" by fastforce
  have "resp = httpRedirect ''https://idp/end'' 303"
    using run by (simp add: OIDCLogoutHandler_def Let_def EndSessionURL_def sampleAuthenticator_def sampleLibs_def)
  with logout_clears [OF _ run] run show ?thesis by (simp add: sampleManager_good)
qed

end
