(* ===== verification/PasswordHandler.thy ===== *)
theory PasswordHandler
  imports Resets Oidc
begin

text \<open>
  \<open>auth/password/handler.go\<close>: the HTTP handlers of password authentication over the password
  store, the session of the request and the mail sender. A request's JSON body is given
  decoded: None when decoding fails. \<open>net.SplitHostPort\<close> is modelled here as far as the login
  handler uses it.
\<close>

section \<open>Responses\<close>

definition securityHeaders :: "(string \<times> string) list" where
  "securityHeaders =
     [(''Cache-Control'', ''no-store''), (''Pragma'', ''no-cache''),
      (''X-Content-Type-Options'', ''nosniff'')]"

definition writeJSON :: "nat \<Rightarrow> json \<Rightarrow> http_response" where
  "writeJSON status v =
     (respond status (JsonBody v))\<lparr>rs_Headers := securityHeaders @ [(''Content-Type'', ''application/json'')]\<rparr>"

definition writeError :: "nat \<Rightarrow> string \<Rightarrow> string \<Rightarrow> http_response" where
  "writeError status code message =
     writeJSON status (JObject ([(''error'', JString code)] @ omitEmpty ''message'' message))"

text \<open>The \<open>switch\<close> on \<open>errors.Is\<close>.\<close>

definition errorString :: "go_error \<Rightarrow> string" where
  "errorString err =
     (if errorsIs err (Sentinel ErrInvalidCredentials) then ''invalid_credentials''
      else if errorsIs err (Sentinel ErrAccountLocked) then ''account_locked''
      else if errorsIs err (Sentinel ErrPasswordPolicyViolation) then ''password_policy_violation''
      else if errorsIs err (Sentinel ErrEmailAlreadyRegistered) then ''email_already_registered''
      else if errorsIs err (Sentinel ErrEmailNotVerified) then ''email_not_verified''
      else if errorsIs err (Sentinel ErrTokenInvalid) then ''invalid_token''
      else if errorsIs err (Sentinel ErrUserNotFound) then ''user_not_found''
      else ''internal_error'')"

definition handlePasswordError :: "go_error \<Rightarrow> http_response" where
  "handlePasswordError err =
     (case asPasswordError err of
        Some (e, status, _) \<Rightarrow> writeError status (errorString (Sentinel e)) (errorString (Sentinel e))
      | None \<Rightarrow> writeError 500 ''internal_error'' ''an unexpected error occurred'')"

abbreviation badBody :: http_response where
  "badBody \<equiv> writeError 400 ''invalid_request'' ''failed to parse request body''"

abbreviation notAuthenticated :: http_response where
  "notAuthenticated \<equiv> writeError 401 ''unauthorized'' ''not authenticated''"

section \<open>The handler\<close>

record 's password_handler =
  ph_Config :: password_config
  ph_Store :: "'s web password_store"
  ph_Session :: "'s session_manager"

definition NewPasswordHandler ::
    "password_config \<Rightarrow> 's web password_store \<Rightarrow> 's session_manager \<Rightarrow> 's password_handler" where
  "NewPasswordHandler cfg store sessionManager =
     \<lparr>ph_Config = passwordDefaults cfg, ph_Store = store, ph_Session = sessionManager\<rparr>"

record login_request =
  lr_Email :: string
  lr_Password :: string

record change_password_request =
  cp_CurrentPassword :: string
  cp_NewPassword :: string

record reset_password_request =
  rp_Token :: string
  rp_NewPassword :: string

definition emailVerificationSender ::
    "env \<Rightarrow> bool \<Rightarrow> (string \<Rightarrow> string \<Rightarrow> ('z, go_error option) io) option" where
  "emailVerificationSender E sender =
     (if \<not> sender then None else Some (\<lambda>to t. sendMail E (EmailVerificationMail to t)))"

definition registerResponse :: "env \<Rightarrow> user_ref \<Rightarrow> string \<Rightarrow> bool \<Rightarrow> string \<Rightarrow> json" where
  "registerResponse E ref email sent token =
     JObject ([(''user_id'', JString (uuid_string E (ref_UserID ref))), (''email'', JString email)] @
       (if sent then [(''email_verification_sent'', JBool True)] else []) @ omitEmpty ''token'' token)"

definition RegisterHandler ::
    "env \<Rightarrow> 's password_handler \<Rightarrow> register_request option \<Rightarrow> ('s, http_response) web_io" where
  "RegisterHandler E h body =
     (case body of
        None \<Rightarrow> State_Monad.return badBody
      | Some req \<Rightarrow> do {
          let cfg = ph_Config h;
          result \<leftarrow> (if pcfg_RequireEmailVerification cfg
            then RegisterWithEmailVerification E (ph_Store h) req
                   (emailVerificationSender E (pcfg_EmailSender cfg))
            else do {
              r \<leftarrow> Register E (ph_Store h) req;
              State_Monad.return (case r of Inl e \<Rightarrow> Inl e | Inr ref \<Rightarrow> Inr (ref, '''')) });
          State_Monad.return
            (case result of
               Inl err \<Rightarrow> handlePasswordError err
             | Inr (ref, token) \<Rightarrow>
                 (if pcfg_RequireEmailVerification cfg \<and> pcfg_EmailSender cfg
                  then writeJSON 201 (registerResponse E ref (rr_Email req) True '''')
                  else if pcfg_RequireEmailVerification cfg \<and> token \<noteq> ''''
                  then writeJSON 201 (registerResponse E ref (rr_Email req) False token)
                  else writeJSON 201 (registerResponse E ref (rr_Email req) False ''''))) })"

section \<open>Login and logout\<close>

fun lastIndex :: "char \<Rightarrow> string \<Rightarrow> nat option" where
  "lastIndex c [] = None"
| "lastIndex c (x # s) =
     (case lastIndex c s of Some i \<Rightarrow> Some (Suc i) | None \<Rightarrow> if x = c then Some 0 else None)"

fun firstIndex :: "char \<Rightarrow> string \<Rightarrow> nat option" where
  "firstIndex c [] = None"
| "firstIndex c (x # s) = (if x = c then Some 0 else map_option Suc (firstIndex c s))"

text \<open>\<open>net.SplitHostPort\<close>, its host; None for its errors.\<close>

definition splitHost :: "string \<Rightarrow> string option" where
  "splitHost hostport =
     (case lastIndex CHR '':'' hostport of
        None \<Rightarrow> None
      | Some i \<Rightarrow>
          if hd hostport = CHR ''[''
          then (case firstIndex CHR '']'' hostport of
                  None \<Rightarrow> None
                | Some end_ \<Rightarrow>
                    if end_ + 1 \<noteq> i then None
                    else if CHR ''['' \<in> set (drop 1 hostport) \<or> CHR '']'' \<in> set (drop (end_ + 1) hostport)
                    then None
                    else Some (drop 1 (take end_ hostport)))
          else if CHR '':'' \<in> set (take i hostport) then None
          else if CHR ''['' \<in> set hostport \<or> CHR '']'' \<in> set hostport then None
          else Some (take i hostport))"

definition clientAddress :: "http_request \<Rightarrow> string" where
  "clientAddress r =
     (let ip = rq_Header r ''X-Real-IP''
      in if ip = '''' then (case splitHost (rq_RemoteAddr r) of Some host \<Rightarrow> host | None \<Rightarrow> rq_RemoteAddr r)
         else ip)"

definition loginResponse :: "env \<Rightarrow> user_ref \<Rightarrow> membership list \<Rightarrow> json" where
  "loginResponse E ref ms =
     JObject [(''user_id'', JString (uuid_string E (ref_UserID ref))),
              (''tenant_count'', JInt (int (length ms))),
              (''tenant_selection_required'', JBool (1 < length ms))]"

definition LoginHandler ::
    "env \<Rightarrow> 's password_handler \<Rightarrow> http_request \<Rightarrow> login_request option \<Rightarrow> ('s, http_response) web_io" where
  "LoginHandler E h r body =
     (case body of
        None \<Rightarrow> State_Monad.return badBody
      | Some req \<Rightarrow> do {
          userRef \<leftarrow> Authenticate E (ph_Store h) (lr_Email req) (lr_Password req) (clientAddress r);
          case userRef of
            Inl err \<Rightarrow> State_Monad.return (handlePasswordError err)
          | Inr ref \<Rightarrow> do {
              memberships \<leftarrow> api_ListMemberships (passwordIdentityApi E (ph_Store h)) (ref_UserID ref);
              case memberships of
                Inl _ \<Rightarrow> State_Monad.return (writeError 500 ''internal_error'' ''failed to list memberships'')
              | Inr ms \<Rightarrow> do {
                  _ \<leftarrow> sessPut (ph_Session h) (pcfg_SessionKey (ph_Config h)) (SVClaims (claimsFor ref ms));
                  State_Monad.return (writeJSON 200 (loginResponse E ref ms)) } } })"

definition LogoutHandler :: "'s password_handler \<Rightarrow> ('s, http_response) web_io" where
  "LogoutHandler h = do {
     claims \<leftarrow> getSessionClaims (ph_Session h) (pcfg_SessionKey (ph_Config h));
     case claims of
       None \<Rightarrow> State_Monad.return notAuthenticated
     | Some _ \<Rightarrow> do {
         err \<leftarrow> sessDestroy (ph_Session h);
         State_Monad.return
           (case err of
              Some _ \<Rightarrow> writeError 500 ''internal_error'' ''failed to destroy session''
            | None \<Rightarrow> respond 204 NoBody) } }"

section \<open>Password changes, resets and verification\<close>

definition messageJson :: "string \<Rightarrow> json" where
  "messageJson m = JObject [(''message'', JString m)]"

definition ChangePasswordHandler ::
    "env \<Rightarrow> 's password_handler \<Rightarrow> change_password_request option \<Rightarrow> ('s, http_response) web_io" where
  "ChangePasswordHandler E h body = do {
     claims \<leftarrow> getSessionClaims (ph_Session h) (pcfg_SessionKey (ph_Config h));
     case claims of
       None \<Rightarrow> State_Monad.return notAuthenticated
     | Some c \<Rightarrow>
         (case body of
            None \<Rightarrow> State_Monad.return badBody
          | Some req \<Rightarrow> do {
              r \<leftarrow> ChangePassword E (ph_Store h) (sc_UserID c) (cp_CurrentPassword req) (cp_NewPassword req);
              case r of
                Inl err \<Rightarrow> State_Monad.return (handlePasswordError err)
              | Inr _ \<Rightarrow> do {
                  _ \<leftarrow> (if pcfg_EmailSender (ph_Config h)
                        then sendMail E (PasswordChangedMail (sc_Subject c))
                        else State_Monad.return None);
                  _ \<leftarrow> sessDestroy (ph_Session h);
                  State_Monad.return (writeJSON 200 (messageJson ''password changed successfully'')) } }) }"

definition forgotMessage :: string where
  "forgotMessage = ''If an account exists with this email, a password reset link has been sent.''"

definition ForgotPasswordHandler ::
    "env \<Rightarrow> 's password_handler \<Rightarrow> string option \<Rightarrow> ('s, http_response) web_io" where
  "ForgotPasswordHandler E h body =
     (case body of
        None \<Rightarrow> State_Monad.return badBody
      | Some email \<Rightarrow> do {
          r \<leftarrow> InitiatePasswordReset E (ph_Store h) email;
          let token = (case r of Inl _ \<Rightarrow> '''' | Inr t \<Rightarrow> t);
          if token \<noteq> '''' \<and> \<not> pcfg_EmailSender (ph_Config h)
          then State_Monad.return
                 (writeJSON 202 (JObject [(''message'', JString forgotMessage), (''token'', JString token)]))
          else do {
            _ \<leftarrow> (if token \<noteq> '''' \<and> pcfg_EmailSender (ph_Config h)
                  then sendMail E (PasswordResetMail email token) else State_Monad.return None);
            State_Monad.return (writeJSON 202 (messageJson forgotMessage)) } })"

definition ResetPasswordHandler ::
    "env \<Rightarrow> 's password_handler \<Rightarrow> reset_password_request option \<Rightarrow> ('s, http_response) web_io" where
  "ResetPasswordHandler E h body =
     (case body of
        None \<Rightarrow> State_Monad.return badBody
      | Some req \<Rightarrow> do {
          r \<leftarrow> CompletePasswordReset E (ph_Store h) (rp_Token req) (rp_NewPassword req);
          State_Monad.return
            (case r of
               Inl err \<Rightarrow> handlePasswordError err
             | Inr _ \<Rightarrow> writeJSON 200 (messageJson ''password has been reset successfully'')) })"

definition VerifyEmailHandler ::
    "env \<Rightarrow> 's password_handler \<Rightarrow> string option \<Rightarrow> ('s, http_response) web_io" where
  "VerifyEmailHandler E h body =
     (case body of
        None \<Rightarrow> State_Monad.return badBody
      | Some token \<Rightarrow> do {
          r \<leftarrow> VerifyEmail E (ph_Store h) token;
          State_Monad.return
            (case r of
               Inl err \<Rightarrow> handlePasswordError err
             | Inr _ \<Rightarrow> writeJSON 200 (messageJson ''email verified successfully'')) })"

definition ResendVerificationHandler ::
    "env \<Rightarrow> 's password_handler \<Rightarrow> ('s, http_response) web_io" where
  "ResendVerificationHandler E h = do {
     claims \<leftarrow> getSessionClaims (ph_Session h) (pcfg_SessionKey (ph_Config h));
     case claims of
       None \<Rightarrow> State_Monad.return notAuthenticated
     | Some c \<Rightarrow> do {
         r \<leftarrow> InitiateEmailVerification E (ph_Store h) (sc_UserID c);
         case r of
           Inl _ \<Rightarrow>
             State_Monad.return (writeError 500 ''internal_error'' ''failed to generate verification token'')
         | Inr token \<Rightarrow>
             if pcfg_EmailSender (ph_Config h)
             then do {
               _ \<leftarrow> sendMail E (EmailVerificationMail (sc_Subject c) token);
               State_Monad.return (writeJSON 200 (messageJson ''verification email sent'')) }
             else State_Monad.return
                    (writeJSON 200 (JObject [(''message'', JString ''verification token generated''),
                                             (''token'', JString token)])) } }"

section \<open>Plain errors\<close>

text \<open>An error with no \<open>PasswordError\<close> in its chain: what the database and the hasher return.\<close>

definition plain :: "go_error + 'a \<Rightarrow> bool" where
  "plain r \<longleftrightarrow> (\<forall>e. r = Inl e \<longrightarrow> asPasswordError e = None)"

definition plainStmt :: "'r stmt \<Rightarrow> bool" where
  "plainStmt st \<longleftrightarrow> (\<forall>now d. plain (st now d))"

lemma plain_simps [simp]:
  "plain (Inr x)" "plain (Inl e) \<longleftrightarrow> asPasswordError e = None"
  by (simp_all add: plain_def)

lemma faultError_plain [simp]: "asPasswordError (faultError f) = None"
  by (cases f) auto

lemma plainStmt_sql [simp]:
  "plainStmt (sqlGetUserByEmailAndIssuer email issuer)" "plainStmt (sqlCountRecentFailedAttempts uid since)"
  "plainStmt (sqlGetPasswordCredential uid)" "plainStmt (sqlRecordLoginAttempt uid ip ok)"
  "plainStmt (sqlUpdateLastLoginAt uid)" "plainStmt (sqlUpdatePasswordHash uid h)"
  "plainStmt (sqlGetUserByID uid)"
  by (auto simp: plainStmt_def sql_defs)

lemma plain_runStmt: "plainStmt st \<Longrightarrow> triple P (runStmt E h st) (\<lambda>r _. plain r)"
  by (rule tripleI)
    (auto simp: runStmt_def nextTick_def plainStmt_def plain_def
      split: dbtx.splits option.splits sum.splits prod.splits if_splits)

lemma plain_query:
  "plainStmt st \<Longrightarrow> triple P (queryRow E h st) (\<lambda>r _. plain r)"
  "plainStmt st \<Longrightarrow> triple P (queryRows E h st) (\<lambda>r _. plain r)"
  "plainStmt st' \<Longrightarrow> triple P (execStmt E h st') (\<lambda>r _. plain r)"
  unfolding queryRow_def queryRows_def execStmt_def
  by (rule plain_runStmt triple_bind [OF plain_runStmt]; assumption?; (rule triple_return)?;
      auto split: sum.splits list.splits)+

lemma plain_tx: "triple P (beginTx E) (\<lambda>r _. plain r)" "triple P (commitTx E) (\<lambda>r _. plain r)"
  by (rule tripleI; auto simp: beginTx_def commitTx_def nextTick_def split: option.splits if_splits)+

text \<open>The errors of a login.\<close>

definition loginError :: "go_error \<Rightarrow> bool" where
  "loginError e \<longleftrightarrow> asPasswordError e = None \<or>
     e = passwordError ErrInvalidCredentials 401 \<or> e = passwordError ErrAccountLocked 423 \<or>
     e = passwordError ErrEmailNotVerified 403"

lemma loginError_simps [simp]:
  "loginError (Wrapped m e) \<longleftrightarrow> asPasswordError e = None"
  "loginError (passwordError ErrInvalidCredentials 401)" "loginError (passwordError ErrAccountLocked 423)"
  "loginError (passwordError ErrEmailNotVerified 403)"
  by (auto simp: loginError_def passwordError_def)

lemma triple_any: "triple P m (\<lambda>_ _. True)"
  by (simp add: triple_def split: prod.splits)

lemma triple_deferRollback:
  "triple P m (\<lambda>r _. Q r) \<Longrightarrow> triple P (deferRollback m) (\<lambda>r _. Q r)"
  unfolding deferRollback_def
  by (erule triple_bind, rule triple_bind [where R = "\<lambda>_ _. Q r" for r], rule tripleI, simp, rule triple_return, simp)

lemma parsePairs_plain: "plain (parsePairs p pairs)"
proof (induction pairs arbitrary: p)
  case (Cons pair rest)
  have "plain (parseParam p pair)"
    by (auto simp: parseParam_def split: list.splits option.splits)
  with Cons.IH show ?case by (cases "parseParam p pair") auto
qed simp

lemma hasherVerify_plain: "plain (hash_Verify (NewArgon2idHasher E cfg) pw h)"
proof -
  have "parseParams s = Inl e \<Longrightarrow> asPasswordError e = None" for s e
    using parsePairs_plain [of zeroParams "splitOn CHR '','' s"] by (simp add: parseParams_def plain_def)
  then show ?thesis
    by (auto simp: NewArgon2idHasher_def hasherVerify_def decodePHC_def Let_def
        split: sum.splits option.splits prod.splits if_splits)
qed

lemma authenticate_errors:
  assumes "ps_Hasher s = NewArgon2idHasher E cfg"
  shows "triple P (Authenticate E s email pw ip) (\<lambda>r _. \<forall>e. r = Inl e \<longrightarrow> loginError e)"
proof -
  have finish: "triple P (finishLogin E s u pw a re) (\<lambda>r _. \<forall>e. r = Inl e \<longrightarrow> loginError e)" for P :: "'a world_scheme \<Rightarrow> bool" and u a re
    unfolding finishLogin_def query_defs
    by (intro triple_bind [OF plain_query(3)] triple_bind [OF plain_tx(2)] triple_bind [OF triple_any] triple_rules)
      (auto simp: plain_def)
  have checked: "triple P (checkedLogin E s u pw ip since) (\<lambda>r _. \<forall>e. r = Inl e \<longrightarrow> loginError e)" for P :: "'a world_scheme \<Rightarrow> bool" and u since
    unfolding checkedLogin_def Let_def query_defs
    by (intro triple_bind [OF plain_query(1)] triple_bind [OF triple_any] triple_rules finish)
      (use hasherVerify_plain [of E cfg] assms in \<open>auto simp: plain_def\<close>)
  have auth: "triple P (authenticateTx E s u pw ip) (\<lambda>r _. \<forall>e. r = Inl e \<longrightarrow> loginError e)" for P :: "'a world_scheme \<Rightarrow> bool" and u
    unfolding authenticateTx_def by (intro triple_bind [OF triple_any] checked)
  show ?thesis
    unfolding Authenticate_def query_defs
    by (intro triple_bind [OF plain_query(1)] triple_bind [OF triple_any] triple_bind [OF plain_tx(1)]
        triple_rules triple_deferRollback auth) (auto simp: plain_def)
qed

section \<open>The session of a login\<close>

lemma passwordIdentityApi_inner: "passwordIdentityApi E s = identityApi E (ps_Inner s)"
  by (simp add: passwordIdentityApi_def identityApi_def)

lemma new_handler [simp]:
  "ph_Store (NewPasswordHandler cfg s m) = s" "ph_Session (NewPasswordHandler cfg s m) = m"
  "ph_Config (NewPasswordHandler cfg s m) = passwordDefaults cfg"
  by (simp_all add: NewPasswordHandler_def)

lemma writeJSON_simps [simp]:
  "rs_Status (writeJSON st v) = st" "rs_Status (writeError st c m) = st"
  "writeJSON st v = writeJSON st' v' \<longleftrightarrow> st = st' \<and> v = v'"
  by (auto simp: writeJSON_def writeError_def respond_def)

lemma errorString_sentinel [simp]:
  "errorString (Sentinel ErrInvalidCredentials) = ''invalid_credentials''"
  "errorString (Sentinel ErrAccountLocked) = ''account_locked''"
  "errorString (Sentinel ErrPasswordPolicyViolation) = ''password_policy_violation''"
  "errorString (Sentinel ErrEmailAlreadyRegistered) = ''email_already_registered''"
  "errorString (Sentinel ErrEmailNotVerified) = ''email_not_verified''"
  "errorString (Sentinel ErrTokenInvalid) = ''invalid_token''"
  "errorString (Sentinel ErrUserNotFound) = ''user_not_found''"
  by (simp_all add: errorString_def)

abbreviation internalError :: http_response where
  "internalError \<equiv> writeError 500 ''internal_error'' ''an unexpected error occurred''"

lemma handle_simps [simp]:
  "handlePasswordError (passwordError e st) = writeError st (errorString (Sentinel e)) (errorString (Sentinel e))"
  "asPasswordError e' = None \<Longrightarrow> handlePasswordError e' = internalError"
  by (simp_all add: handlePasswordError_def passwordError_def)

definition loginErrorResponses :: "http_response set" where
  "loginErrorResponses =
     {badBody, internalError, writeError 500 ''internal_error'' ''failed to list memberships'',
      writeError 401 ''invalid_credentials'' ''invalid_credentials'',
      writeError 403 ''email_not_verified'' ''email_not_verified'',
      writeError 423 ''account_locked'' ''account_locked''}"

lemma loginError_response: "loginError e \<Longrightarrow> handlePasswordError e \<in> loginErrorResponses"
  by (auto simp: loginError_def loginErrorResponses_def)

lemma loginErrorResponses_status: "r \<in> loginErrorResponses \<Longrightarrow> rs_Status r \<in> {400, 401, 403, 423, 500}"
  by (auto simp: loginErrorResponses_def)

text \<open>A login either changes nothing of the session or stores the claims of the user that logged in.\<close>

lemma login_handler_cases:
  assumes "ps_Hasher (ph_Store h) = NewArgon2idHasher E cfg"
    and "is_Queries (ps_Inner (ph_Store h)) = OnPool" and "manager_good (ph_Session h)"
    and "Schema.inv db_ok w" and "run_state (LoginHandler E h r body) w = (resp, w')"
  shows "Schema.inv db_ok w' \<and>
    (w_sess w' = w_sess w \<and> resp \<in> loginErrorResponses \<or>
     (\<exists>req ref w1. body = Some req \<and>
        run_state (Authenticate E (ph_Store h) (lr_Email req) (lr_Password req) (clientAddress r)) w = (Inr ref, w1) \<and>
        w_db w' = w_db w1 \<and>
        w_sess w' = managerPut (ph_Session h) (w_sess w) (pcfg_SessionKey (ph_Config h))
          (SVClaims (claimsFor ref (membershipsOf (w_db w1) (ref_UserID ref)))) \<and>
        resp = writeJSON 200 (loginResponse E ref (membershipsOf (w_db w1) (ref_UserID ref)))))"
proof (cases body)
  case None
  with assms(4,5) show ?thesis by (simp add: LoginHandler_def loginErrorResponses_def)
next
  case (Some req)
  obtain a w1 where a: "run_state (Authenticate E (ph_Store h) (lr_Email req) (lr_Password req) (clientAddress r)) w = (a, w1)"
    by fastforce
  have i: "Schema.inv db_ok w1"
    using tripleD [OF argon.inv_Authenticate [OF assms(1) stmt_inv_db_ok] assms(4) a] .
  have s: "w_sess w1 = w_sess w"
    using extra_run [OF argon.extra_hashing_operations(1) [OF assms(1)] a] w_sess_more by blast
  show ?thesis
  proof (cases a)
    case (Inl e)
    have "handlePasswordError e \<in> loginErrorResponses"
      using tripleD [OF authenticate_errors [OF assms(1)] TrueI a [unfolded Inl]] by (simp add: loginError_response)
    with assms(5) Some a i s Inl show ?thesis by (simp add: LoginHandler_def)
  next
    case (Inr ref)
    have m: "run_state (api_ListMemberships (passwordIdentityApi E (ph_Store h)) (ref_UserID ref)) w1 =
        (case db_fault E (w_tick w1) of Some f \<Rightarrow> Inl (Wrapped ''failed to list memberships'' (faultError f))
         | None \<Rightarrow> Inr (membershipsOf (w_db w1) (ref_UserID ref)), tickw w1)"
      using assms(2) by (simp add: passwordIdentityApi_def run_ListMemberships_pool split: option.split)
    show ?thesis
      using assms(3,5) Some a i s Inr m
      by (auto simp: LoginHandler_def loginErrorResponses_def Schema.inv_def split: option.splits)
  qed
qed

lemma authenticate_user:
  assumes "NewPasswordIdentityStore E hasPool inner cfg = Inr s"
    and "run_state (Authenticate E s email pw ip) w = (Inr ref, w')"
  shows "\<exists>u. localUser (w_db w) email (pcfg_Issuer (passwordDefaults cfg)) = Some u \<and> ref = refOf u"
proof -
  note s = new_store [OF assms(1)]
  obtain cutoff now rehash where "loginAllowed (loginStep s (ipOf E ip) cutoff now rehash email pw (w_db w))
      (w_db w) (Inr ref) (w_db w')"
    using argon.Authenticate_faults [OF _ _ assms(2)] s by blast
  then have "loginStep s (ipOf E ip) cutoff now rehash email pw (w_db w) = (Inr ref, w_db w')"
    by (simp add: loginAllowed_def)
  from loginStep_success [OF this] s show ?thesis by auto
qed

text \<open>
  C22 The login handler: either the session is untouched and the response is one of six fixed
  error responses (none of them carries the store's error text), or it is a 200 and the session
  holds, under the configured key, the claims of the local user with that email, with an active
  tenant exactly when that user has one membership; nothing else of the session changes.
\<close>

theorem login_handler_session:
  assumes "NewPasswordIdentityStore E hasPool (Some (NewPostgresIdentityStore p n)) cfg = Inr s"
    and "manager_good m" and "Schema.inv db_ok w"
    and "run_state (LoginHandler E (NewPasswordHandler cfg s m) r body) w = (resp, w')"
  shows "(w_sess w' = w_sess w \<and> resp \<in> loginErrorResponses) \<or>
    (\<exists>req u ms. body = Some req \<and>
       localUser (w_db w) (lr_Email req) (pcfg_Issuer (passwordDefaults cfg)) = Some u \<and>
       ms = membershipsOf (w_db w') (u_id u) \<and> resp = writeJSON 200 (loginResponse E (refOf u) ms) \<and>
       (\<forall>k. managerGet m (w_sess w') k =
          (if k = pcfg_SessionKey (passwordDefaults cfg) then Some (SVClaims (claimsFor (refOf u) ms))
           else managerGet m (w_sess w) k)))"
proof -
  note s = new_store [OF assms(1)]
  let ?h = "NewPasswordHandler cfg s m"
  have hasher: "ps_Hasher (ph_Store ?h) = NewArgon2idHasher E (pcfg_Hashing (ps_Config s))"
    and g: "manager_good (ph_Session ?h)"
    using s assms(2) by auto
  from s have q: "is_Queries (ps_Inner (ph_Store ?h)) = OnPool"
    using NewPostgres_pool [of p n] by auto
  consider "w_sess w' = w_sess w" "resp \<in> loginErrorResponses"
    | req ref w1 where "body = Some req"
        "run_state (Authenticate E s (lr_Email req) (lr_Password req) (clientAddress r)) w = (Inr ref, w1)"
        "w_db w' = w_db w1"
        "w_sess w' = managerPut m (w_sess w) (pcfg_SessionKey (passwordDefaults cfg))
           (SVClaims (claimsFor ref (membershipsOf (w_db w1) (ref_UserID ref))))"
        "resp = writeJSON 200 (loginResponse E ref (membershipsOf (w_db w1) (ref_UserID ref)))"
    using login_handler_cases [OF hasher q g assms(3,4)] by (auto simp del: writeJSON_simps(3))
  then show ?thesis
  proof cases
    case 2
    from authenticate_user [OF assms(1) 2(2)] obtain u where
      "localUser (w_db w) (lr_Email req) (pcfg_Issuer (passwordDefaults cfg)) = Some u" "ref = refOf u"
      by blast
    with 2 show ?thesis by (auto simp: mgr.get_put [OF assms(2)] refOf_def)
  qed simp
qed

text \<open>
  C23 No enumeration by login: with a healthy database, an email nobody has registered, a user
  without a password and a wrong password (of an account that is not locked) are answered by
  the same response, and the session stays as it was.
\<close>

theorem login_failures_uniform:
  assumes "NewPasswordIdentityStore E hasPool inner cfg = Inr s" and "healthy E"
    and "run_state (LoginHandler E (NewPasswordHandler cfg s m) r (Some req)) w = (resp, w')"
    and "\<And>u. localUser (w_db w) (lr_Email req) (pcfg_Issuer (passwordDefaults cfg)) = Some u \<Longrightarrow>
           \<not> IsLockedOut (recentFailures (w_db w) (u_id u)
               (app_now E (w_tick w + 2) - lc_Window (pcfg_Lockout (passwordDefaults cfg))))
             (pcfg_Lockout (passwordDefaults cfg)) \<and>
           (\<forall>c. credentialOf (w_db w) (u_id u) = Some c \<longrightarrow> wrongPassword s c (lr_Password req))"
  shows "resp = writeError 401 ''invalid_credentials'' ''invalid_credentials'' \<and> w_sess w' = w_sess w"
proof -
  note s = new_store [OF assms(1)]
  have hasher: "ps_Hasher s = NewArgon2idHasher E (pcfg_Hashing (ps_Config s))" using s by simp
  obtain a w1 where a: "run_state (Authenticate E s (lr_Email req) (lr_Password req) (clientAddress r)) w = (a, w1)"
    by fastforce
  obtain rehash ip now where "(a, w_db w1) = loginStep s ip
      (app_now E (w_tick w + 2) - lc_Window (pcfg_Lockout (ps_Config s))) now rehash
      (lr_Email req) (lr_Password req) (w_db w)"
    using argon.run_Authenticate_healthy [OF assms(2) hasher _ a] s by blast
  moreover have "localUser (w_db w) (lr_Email req) (cfgIssuer s) = Some u \<Longrightarrow>
      \<not> IsLockedOut (recentFailures (w_db w) (u_id u) (app_now E (w_tick w + 2) - lc_Window (pcfg_Lockout (ps_Config s))))
          (pcfg_Lockout (ps_Config s)) \<and>
      (\<forall>c. credentialOf (w_db w) (u_id u) = Some c \<longrightarrow> (\<exists>re. hash_Verify (ps_Hasher s) (lr_Password req) (pc_password_hash c) = Inr (False, re)))"
    for u
    using assms(4) [of u] s by (simp add: wrongPassword_def)
  ultimately have "a = Inl (passwordError ErrInvalidCredentials 401)"
    by (fastforce simp: loginStep_def split: option.splits)
  moreover have "w_sess w1 = w_sess w"
    using extra_run [OF argon.extra_hashing_operations(1) [OF hasher] a] w_sess_more by blast
  ultimately show ?thesis
    using assms(3) a by (simp add: LoginHandler_def)
qed

lemma mails_InitiatePasswordReset:
  "triple (\<lambda>w. w_mail w = ms) (InitiatePasswordReset E s email) (\<lambda>_ w. w_mail w = ms)"
proof -
  have st: "triple (\<lambda>w. w_mail w = ms) (runStmt E h st) (\<lambda>_ w. w_mail w = ms)" for h and st :: "'r stmt"
    by (rule tripleI)
      (auto simp: runStmt_def nextTick_def abortTx_def split: dbtx.splits option.splits sum.splits prod.splits if_splits)
  show ?thesis
    unfolding InitiatePasswordReset_def query_defs queryRow_def execStmt_def GenerateToken_def Let_def
    by (intro triple_bind_inv triple_rules st) (simp_all add: triple_def)
qed

text \<open>
  C24 No enumeration by a password reset: with a mail sender configured the response is the
  same for every email and whatever the store answers; no mail goes out but one reset
  mail to the address of the request, and that only when a local user has it.
\<close>

theorem forgot_password_uniform:
  assumes "NewPasswordIdentityStore E hasPool inner cfg = Inr s"
    and "pcfg_EmailSender (passwordDefaults cfg)"
    and "run_state (ForgotPasswordHandler E (NewPasswordHandler cfg s m) (Some email)) w = (resp, w')"
  shows "resp = writeJSON 202 (messageJson forgotMessage) \<and> w_sess w' = w_sess w \<and>
    (w_mail w' = w_mail w \<or>
     (\<exists>u token. localUser (w_db w) email (pcfg_Issuer (passwordDefaults cfg)) = Some u \<and>
        w_mail w' = w_mail w @ [PasswordResetMail email token]))"
proof -
  note s = new_store [OF assms(1)]
  obtain t w1 where t: "run_state (InitiatePasswordReset E s email) w = (t, w1)" by fastforce
  have mail: "w_mail w1 = w_mail w"
    using tripleD [OF mails_InitiatePasswordReset refl t] by simp
  have sess: "w_sess w1 = w_sess w"
    using extra_run [OF extra_password_store(2) t] w_sess_more by blast
  have known: "\<exists>u. localUser (w_db w) email (cfgIssuer s) = Some u" if "isOk t" "t \<noteq> Inr ''''"
    using t that s
    by (auto simp: InitiatePasswordReset_def run_GetUserByEmailAndIssuer_pool split: option.splits)
  show ?thesis
    using assms(2,3) t mail sess known s
    by (cases t) (auto simp: ForgotPasswordHandler_def Let_def split: if_splits)
qed

text \<open>Registration as the handler sees it, with or without the verification mail.\<close>

lemma mailSend_sender: "mailSend E (emailVerificationSender E S)"
  by (simp add: mailSend_def emailVerificationSender_def)

lemma extra_verificationClosure:
  "triple (extra x) (verificationClosure E s req (emailVerificationSender E S) ref) (\<lambda>_. extra x)"
  unfolding verificationClosure_def emailVerificationSender_def
  by (intro triple_bind_inv triple_rules extra_rules) (auto intro: extra_rules split: if_splits)

lemma register_result:
  assumes hasher: "ps_Hasher s = NewArgon2idHasher E hc" and ok: "db_ok (w_db w)"
    and tx: "\<And>ref n. triple (committed (w_db w) n) (before ref) (\<lambda>_. committed (w_db w) n)"
    and intx: "\<And>ref n P. triple (intx (w_db w) n P) (before ref)
        (\<lambda>r. intx (w_db w) n (\<lambda>d. \<forall>b. r = Inr b \<longrightarrow> (\<exists>d1. P d1 \<and> B ref b d1 d)))"
    and B: "\<And>ref b d1 d. B ref b d1 d \<Longrightarrow> credentials d = credentials d1"
    and extra: "\<And>ref. triple (extra (world.more w)) (before ref) (\<lambda>_. extra (world.more w))"
    and run: "run_state (register E s req before) w = (r, w')"
  shows "w_sess w' = w_sess w \<and>
    (case r of Inl _ \<Rightarrow> w_db w' = w_db w
     | Inr (ref, _) \<Rightarrow> unregistered s req (w_db w) \<and> credentialOf (w_db w') (ref_UserID ref) \<noteq> None)"
proof -
  have "w_sess w' = w_sess w"
    using extra_run [OF argon.extra_register [OF hasher extra] run] w_sess_more by blast
  moreover have "w_db w' = w_db w" if "r = Inl e" for e
    using tripleD [OF argon.register_atomic [OF hasher tx] refl run] that by simp
  moreover have "unregistered s req (w_db w) \<and> credentialOf (w_db w') (ref_UserID ref) \<noteq> None"
    if r: "r = Inr (ref, b)" for ref b
  proof -
    obtain h where "registered s req h (B ref b) (w_db w) ref (w_db w')"
      using argon.register_success [where B = B, OF hasher ok intx run [unfolded r]] by blast
    from registered_credential [OF this B [of ref b _ "w_db w'"]] show ?thesis by auto
  qed
  ultimately show ?thesis by (auto split: sum.split prod.split)
qed

lemma register_plain:
  assumes "ps_Hasher s = NewArgon2idHasher E hc" and "db_ok (w_db w)"
    and "run_state (register E s req (\<lambda>_. State_Monad.return (Inr ()))) w = (r, w')"
  shows "w_sess w' = w_sess w \<and>
    (case r of Inl _ \<Rightarrow> w_db w' = w_db w
     | Inr (ref, _) \<Rightarrow> unregistered s req (w_db w) \<and> credentialOf (w_db w') (ref_UserID ref) \<noteq> None)"
  by (rule register_result [where B = "\<lambda>_ _ d1 d. d = d1",
      OF assms(1,2) committed_return intx_nothing _ extra_return assms(3)]) simp

lemma register_verified:
  assumes "ps_Hasher s = NewArgon2idHasher E hc" and "db_ok (w_db w)"
    and "run_state (register E s req (verificationClosure E s req (emailVerificationSender E S))) w = (r, w')"
  shows "w_sess w' = w_sess w \<and>
    (case r of Inl _ \<Rightarrow> w_db w' = w_db w
     | Inr (ref, _) \<Rightarrow> unregistered s req (w_db w) \<and> credentialOf (w_db w') (ref_UserID ref) \<noteq> None)"
  by (rule register_result [where B = "\<lambda>ref t d1 d. \<exists>n. issuedToken E (ref_UserID ref) ''email_verification'' t n d1 d",
      OF assms(1,2) committed_verificationClosure [OF mailSend_sender] intx_verificationClosure [OF mailSend_sender]
        _ extra_verificationClosure assms(3)])
    (auto simp: issuedToken_def addToken_def invalidateTokens_def)

text \<open>
  Registration over HTTP is all or nothing, and a verification token reaches the response
  only without a mail sender: an error response leaves the tables as they were; a 201 means
  that the email was free before and its user has a credential now. With a mail sender the
  response carries no token, whatever the registration returned. The session is never touched.
\<close>

theorem register_handler_outcome:
  assumes "NewPasswordIdentityStore E hasPool inner cfg = Inr s" and "db_ok (w_db w)"
    and "run_state (RegisterHandler E (NewPasswordHandler cfg s m) body) w = (resp, w')"
  shows "w_sess w' = w_sess w \<and>
    ((w_db w' = w_db w \<and> (resp = badBody \<or> (\<exists>e. resp = handlePasswordError e))) \<or>
     (\<exists>req ref token. body = Some req \<and>
        unregistered s req (w_db w) \<and> credentialOf (w_db w') (ref_UserID ref) \<noteq> None \<and>
        resp = writeJSON 201 (registerResponse E ref (rr_Email req)
          (pcfg_RequireEmailVerification (passwordDefaults cfg) \<and> pcfg_EmailSender (passwordDefaults cfg))
          (if pcfg_RequireEmailVerification (passwordDefaults cfg) \<and> \<not> pcfg_EmailSender (passwordDefaults cfg)
           then token else ''''))))"
proof (cases body)
  case None
  with assms(3) show ?thesis by (simp add: RegisterHandler_def)
next
  case (Some req)
  note s = new_store [OF assms(1)]
  have hasher: "ps_Hasher s = NewArgon2idHasher E (pcfg_Hashing (ps_Config s))" using s by simp
  show ?thesis
  proof (cases "pcfg_RequireEmailVerification (passwordDefaults cfg)")
    case True
    obtain r w1 where r: "run_state (register E s req (verificationClosure E s req
        (emailVerificationSender E (pcfg_EmailSender (passwordDefaults cfg))))) w = (r, w1)" by fastforce
    from register_verified [OF hasher assms(2) r] assms(3) Some True r show ?thesis
      by (auto simp: RegisterHandler_def Let_def RegisterWithEmailVerification_def split: sum.splits prod.splits if_splits)
  next
    case False
    obtain r w1 where r: "run_state (register E s req (\<lambda>_. State_Monad.return (Inr ()))) w = (r, w1)" by fastforce
    from register_plain [OF hasher assms(2) r] assms(3) Some False r show ?thesis
      by (auto simp: RegisterHandler_def Let_def run_Register split: sum.splits prod.splits)
  qed
qed

text \<open>
  Changing a password over HTTP: without authenticated claims in the session the answer
  is a 401 and nothing happens. A 200 means that the old password matched the credential of the
  session's user, and the session is gone if the session store could destroy it; any other
  response leaves the session as it was.
\<close>

theorem change_password_handler_session:
  assumes "NewPasswordIdentityStore E hasPool inner cfg = Inr s" and "manager_good m"
    and "run_state (ChangePasswordHandler E (NewPasswordHandler cfg s m) body) w = (resp, w')"
  shows "case authenticatedClaims (managerGet m (w_sess w) (pcfg_SessionKey (passwordDefaults cfg))) of
      None \<Rightarrow> resp = notAuthenticated \<and> w' = w
    | Some c \<Rightarrow>
        (w_sess w' = w_sess w \<and> (resp = badBody \<or> (\<exists>e. resp = handlePasswordError e))) \<or>
        (\<exists>req cr re. body = Some req \<and> resp = writeJSON 200 (messageJson ''password changed successfully'') \<and>
           credentialOf (w_db w) (sc_UserID c) = Some cr \<and>
           hasherVerify E (pcfg_Hashing (passwordDefaults cfg)) (cp_CurrentPassword req) (pc_password_hash cr) =
             Inr (True, re) \<and>
           w_sess w' = snd (managerDestroy m (w_sess w)) \<and>
           (fst (managerDestroy m (w_sess w)) = None \<longrightarrow> (\<forall>k. managerGet m (w_sess w') k = None)))"
proof (cases "authenticatedClaims (managerGet m (w_sess w) (pcfg_SessionKey (passwordDefaults cfg)))")
  case None
  with assms(3) show ?thesis by (simp add: ChangePasswordHandler_def)
next
  case c: (Some c)
  note s = new_store [OF assms(1)]
  have hasher: "ps_Hasher s = NewArgon2idHasher E (pcfg_Hashing (ps_Config s))" using s by simp
  show ?thesis
  proof (cases body)
    case None
    with assms(3) c show ?thesis by (simp add: ChangePasswordHandler_def)
  next
    case (Some req)
    obtain r w1 where r: "run_state (ChangePassword E s (sc_UserID c) (cp_CurrentPassword req) (cp_NewPassword req)) w = (r, w1)"
      by fastforce
    have sess: "w_sess w1 = w_sess w"
      using extra_run [OF argon.extra_hashing_operations(2) [OF hasher] r] w_sess_more by blast
    have old: "\<exists>cr re. credentialOf (w_db w) (sc_UserID c) = Some cr \<and>
        hash_Verify (ps_Hasher s) (cp_CurrentPassword req) (pc_password_hash cr) = Inr (True, re)" if "isOk r"
      using r that s
      by (auto simp: ChangePassword_def run_GetPasswordCredential_pool split: option.splits sum.splits prod.splits if_splits)
    have destroy: "fst (managerDestroy m x) = None \<Longrightarrow> managerGet m (snd (managerDestroy m x)) k = None" for x k
      using mgr.get_destroy [OF assms(2)] by (metis prod.collapse)
    from assms(3) c Some r sess old destroy s show ?thesis
      by (cases r) (auto simp: ChangePasswordHandler_def NewArgon2idHasher_def split: if_splits)
  qed
qed

section \<open>Witnesses\<close>

abbreviation webPS :: "(string \<Rightarrow> session_value option) web password_store" where
  "webPS \<equiv> samplePasswordStore sampleEnv"

definition sampleHandler :: "(string \<Rightarrow> session_value option) password_handler" where
  "sampleHandler = NewPasswordHandler samplePasswordConfig (samplePasswordStore sampleEnv) sampleManager"

lemma sampleKey [simp]: "pcfg_SessionKey (passwordDefaults samplePasswordConfig) = ''auth''"
  by (simp add: passwordDefaults_def samplePasswordConfig_def orDefault_def auth_constants)

lemma inner_sample: "sampleStore = NewPostgresIdentityStore True ''''"
  by (simp add: sampleStore_def)

lemma db_ok_loginDb_web: "Schema.inv db_ok (sampleWeb loginDb s)"
  by (rule inv_sampleWeb) (rule db_ok_loginDb)

theorem login_handler_session_witness:
  "\<exists>resp w' c. run_state (LoginHandler sampleEnv sampleHandler (sampleRequest ''/login'')
       (Some \<lparr>lr_Email = ''a@x'', lr_Password = ''pw''\<rparr>)) (sampleWeb loginDb (\<lambda>_. None)) = (resp, w') \<and>
     rs_Status resp = 200 \<and> w_sess w' ''auth'' = Some (SVClaims c) \<and> sc_UserID c = 104 \<and> sc_Authenticated c"
proof -
  let ?req = "\<lparr>lr_Email = ''a@x'', lr_Password = ''pw''\<rparr>" and ?w = "sampleWeb loginDb (\<lambda>_. None)"
  let ?ip = "clientAddress (sampleRequest ''/login'')"
  obtain r w1 where a: "run_state (Authenticate sampleEnv webPS ''a@x'' ''pw'' ?ip) ?w = (r, w1)"
    by fastforce
  have r: "r = Inr (refOf localSampleUser)"
    using argon.run_Authenticate_healthy [OF _ _ _ a, where cfg = sampleHashing]
    by (auto simp: healthy_def sample_loginStep)
  obtain resp w' where run: "run_state (LoginHandler sampleEnv sampleHandler (sampleRequest ''/login'') (Some ?req)) ?w =
      (resp, w')" by fastforce
  then have "rs_Status resp = 200"
    using a r by (auto simp: LoginHandler_def sampleHandler_def passwordIdentityApi_inner identityApi_def
        run_ListMemberships_pool inner_sample)
  then have "resp \<notin> loginErrorResponses" using loginErrorResponses_status by fastforce
  with login_handler_session [OF samplePasswordStore_new [of sampleEnv, unfolded inner_sample] sampleManager_good
      db_ok_loginDb_web run [unfolded sampleHandler_def]]
  obtain ms where "w_sess w' ''auth'' = Some (SVClaims (claimsFor (refOf localSampleUser) ms))"
    by auto
  with run \<open>rs_Status resp = 200\<close> show ?thesis by (auto simp: claimsFor_def refOf_def)
qed

theorem login_failures_uniform_witness:
  "fst (run_state (LoginHandler sampleEnv sampleHandler (sampleRequest ''/login'')
       (Some \<lparr>lr_Email = ''a@x'', lr_Password = ''wrong''\<rparr>)) (sampleWeb loginDb (\<lambda>_. None))) =
     writeError 401 ''invalid_credentials'' ''invalid_credentials''"
proof -
  have "wrongPassword webPS sampleCredential ''wrong''"
    unfolding wrongPassword_def by (rule exI [of _ False]) simp
  then show ?thesis
    using login_failures_uniform [OF samplePasswordStore_new [of sampleEnv] _ prod.collapse [symmetric], where m = sampleManager
        and r = "sampleRequest ''/login''" and req = "\<lparr>lr_Email = ''a@x'', lr_Password = ''wrong''\<rparr>"
        and w = "sampleWeb loginDb (\<lambda>_. None)"]
    by (simp add: sampleHandler_def healthy_def IsLockedOut_def)
qed

definition mailingConfig :: password_config where
  "mailingConfig = samplePasswordConfig\<lparr>pcfg_EmailSender := True\<rparr>"

theorem forgot_password_uniform_witness:
  "\<exists>s. NewPasswordIdentityStore sampleEnv True (Some sampleStore) mailingConfig = Inr s \<and>
     fst (run_state (ForgotPasswordHandler sampleEnv (NewPasswordHandler mailingConfig s sampleManager)
       (Some ''nobody@x'')) (sampleWeb loginDb (\<lambda>_. None))) = writeJSON 202 (messageJson forgotMessage)"
proof -
  obtain s :: "(string \<Rightarrow> session_value option) web password_store" where
    s: "NewPasswordIdentityStore sampleEnv True (Some sampleStore) mailingConfig = Inr s"
    by (simp add: NewPasswordIdentityStore_def Let_def)
  have "pcfg_EmailSender (passwordDefaults mailingConfig)"
    by (simp add: mailingConfig_def passwordDefaults_def)
  from forgot_password_uniform [OF s this prod.collapse [symmetric], of sampleManager "''nobody@x''" "sampleWeb loginDb (\<lambda>_. None)"] s
  show ?thesis by blast
qed

theorem register_handler_outcome_witness:
  "\<exists>resp w'. run_state (RegisterHandler sampleEnv sampleHandler (Some sampleRegistration))
       (sampleWeb loginDb (\<lambda>_. None)) = (resp, w') \<and> w_sess w' = (\<lambda>_. None) \<and>
     (w_db w' = loginDb \<or> rs_Status resp = 201)"
proof -
  obtain resp w' where run: "run_state (RegisterHandler sampleEnv sampleHandler (Some sampleRegistration))
       (sampleWeb loginDb (\<lambda>_. None)) = (resp, w')" by fastforce
  from register_handler_outcome [OF samplePasswordStore_new [of sampleEnv] _ run [unfolded sampleHandler_def]] run
  show ?thesis by (auto simp: db_ok_loginDb)
qed

theorem change_password_handler_session_witness:
  "\<exists>w'. run_state (ChangePasswordHandler sampleEnv sampleHandler (Some \<lparr>cp_CurrentPassword = ''pw'', cp_NewPassword = ''pw''\<rparr>))
       (sampleWeb loginDb [''auth'' \<mapsto> SVClaims ((sampleClaims None)\<lparr>sc_UserID := 104\<rparr>)]) =
       (writeJSON 200 (messageJson ''password changed successfully''), w') \<and> w_sess w' ''auth'' = None"
proof -
  let ?c = "(sampleClaims None)\<lparr>sc_UserID := 104\<rparr>"
  let ?w = "sampleWeb loginDb [''auth'' \<mapsto> SVClaims ?c]"
  let ?req = "\<lparr>cp_CurrentPassword = ''pw'', cp_NewPassword = ''pw''\<rparr>"
  obtain resp w' where run: "run_state (ChangePasswordHandler sampleEnv sampleHandler (Some ?req)) ?w = (resp, w')"
    by fastforce
  have id: "userById loginDb 104 = Some localSampleUser"
    by (simp add: userById_def loginDb_def localSampleUser_def sampleUser_def)
  obtain r w1 where st: "run_state (storeNewPassword sampleEnv webPS 104 ''pw'' ''failed to hash new password'')
      (tickw ?w) = (r, w1)" by fastforce
  have "r = Inr ()"
    by (rule storeNewPassword_healthy [OF _ _ _ samplePasswordStore_simps(3) _ sample_acceptable(1) st])
      (simp_all add: healthy_def id)
  with st run have "resp = writeJSON 200 (messageJson ''password changed successfully'')"
    by (simp add: ChangePasswordHandler_def sampleHandler_def sampleClaims_def ChangePassword_def
        run_GetPasswordCredential_pool InvalidateUserTokens_def sqlInvalidateUserTokens_def split: prod.splits if_splits)
  moreover have "writeJSON 200 (messageJson m) \<noteq> handlePasswordError e" for m e
    by (auto simp: handlePasswordError_def writeError_def messageJson_def split: option.split)
  ultimately show ?thesis
    using run change_password_handler_session [OF samplePasswordStore_new [of sampleEnv] sampleManager_good
      run [unfolded sampleHandler_def]]
    by (auto simp: sampleClaims_def writeError_def)
qed

end
