(* ===== verification/Server.thy ===== *)
theory Server
  imports PasswordHandler
begin

text \<open>
  The handlers of \<open>auth\<close> and \<open>auth/password\<close> behind one server: a step relation over the
  tables and the sessions of all clients, with the invariant that the active tenant of every
  session is one its user is a member of. Requests are served one after the other; between
  them the tables may change in any way that keeps the schema and takes no membership away
  (no statement of the program removes one).
\<close>

section \<open>Memberships\<close>

definition memberKeys :: "database \<Rightarrow> (uuid \<times> uuid) list" where
  "memberKeys d = map (\<lambda>m. (tm_user_id m, tm_tenant_id m)) (memberships d)"

definition isMember :: "database \<Rightarrow> uuid \<Rightarrow> uuid \<Rightarrow> bool" where
  "isMember d u t \<longleftrightarrow> (u, t) \<in> set (memberKeys d)"

lemma memberKeys_simps [simp]:
  "memberKeys (d\<lparr>users := us\<rparr>) = memberKeys d" "memberKeys (d\<lparr>tenants := ts\<rparr>) = memberKeys d"
  "memberKeys (d\<lparr>credentials := cs\<rparr>) = memberKeys d" "memberKeys (d\<lparr>attempts := as\<rparr>) = memberKeys d"
  "memberKeys (d\<lparr>tokens := ks\<rparr>) = memberKeys d"
  "memberKeys (d\<lparr>memberships := memberships d @ ms\<rparr>) =
     memberKeys d @ map (\<lambda>m. (tm_user_id m, tm_tenant_id m)) ms"
  by (simp_all add: memberKeys_def)

lemma memberKeys_role [simp]:
  "memberKeys (d\<lparr>memberships := map (\<lambda>m. if P m then m\<lparr>tm_role := r\<rparr> else m) (memberships d)\<rparr>) = memberKeys d"
  by (simp add: memberKeys_def)

lemma stmt_inv_member: "stmt_inv (\<lambda>d. isMember d u t)"
  unfolding stmt_inv_def preserves_def isMember_def
  by (intro conjI allI) (auto simp: sql_defs Let_def simp del: map_eq_conv split: if_splits)

lemma listed_member: "m \<in> set (membershipsOf d u) \<Longrightarrow> isMember d u (mb_TenantID m)"
  by (auto simp: membershipsOf_def sqlListMemberships_def isMember_def memberKeys_def toMembership_def)

lemma claimsFor_member:
  "sc_ActiveTenantID (claimsFor ref (membershipsOf d (ref_UserID ref))) = Some t \<Longrightarrow>
     isMember d (ref_UserID ref) t"
  using listed_member [of "hd (membershipsOf d (ref_UserID ref))" d "ref_UserID ref"]
  by (cases "membershipsOf d (ref_UserID ref)") (auto simp: claimsFor_def split: if_splits)

text \<open>Claims that match the tables, and sessions that hold no others.\<close>

definition claimsOk :: "database \<Rightarrow> session_claims \<Rightarrow> bool" where
  "claimsOk d c \<longleftrightarrow> (\<forall>t. sc_ActiveTenantID c = Some t \<longrightarrow> isMember d (sc_UserID c) t)"

definition sessionOk :: "'s session_manager \<Rightarrow> database \<Rightarrow> 's \<Rightarrow> bool" where
  "sessionOk m d s \<longleftrightarrow> (\<forall>k c. managerGet m s k = Some (SVClaims c) \<longrightarrow> claimsOk d c)"

lemma stmt_inv_True: "stmt_inv (\<lambda>_. True)"
  by (simp add: stmt_inv_def preserves_def split: sum.split)

lemma stmt_inv_claims: "stmt_inv (\<lambda>d. claimsOk d c)"
  using stmt_inv_member [of "sc_UserID c"] stmt_inv_True
  by (cases "sc_ActiveTenantID c") (simp_all add: claimsOk_def)

lemma claimsFor_ok: "claimsOk d (claimsFor ref (membershipsOf d (ref_UserID ref)))"
  using claimsFor_member by (auto simp: claimsOk_def) (simp add: claimsFor_def)

lemma sessionOk_put:
  assumes "manager_good m" and "sessionOk m d s" and "\<And>c. v = SVClaims c \<Longrightarrow> claimsOk d c"
  shows "sessionOk m d (managerPut m s k v)"
  using assms(2,3) by (auto simp: sessionOk_def mgr.get_put [OF assms(1)] split: if_splits)

lemma sessionOk_put_intros:
  "manager_good m \<Longrightarrow> sessionOk m d s \<Longrightarrow> claimsOk d c \<Longrightarrow> sessionOk m d (managerPut m s k (SVClaims c))"
  "manager_good m \<Longrightarrow> sessionOk m d s \<Longrightarrow> sessionOk m d (managerPut m s k (SVString x))"
  by (rule sessionOk_put; simp)+

lemma sessionOk_destroy:
  assumes "manager_good m" and "sessionOk m d s"
  shows "sessionOk m d (snd (managerDestroy m s))"
  using assms(2) mgr.destroy_keeps_or_clears [OF assms(1)] unfolding sessionOk_def by blast

text \<open>
  What a request may do to the tables: keep everything that no statement of the program breaks.
\<close>

definition evolves :: "'s web \<Rightarrow> 's web \<Rightarrow> bool" where
  "evolves w w' \<longleftrightarrow> (\<forall>I. stmt_inv I \<longrightarrow> I (w_db w) \<longrightarrow> I (w_db w'))"

lemma evolves_refl [simp, intro]: "evolves w w"
  by (simp add: evolves_def)

lemma evolves_trans: "evolves w w1 \<Longrightarrow> evolves w1 w2 \<Longrightarrow> evolves w w2"
  unfolding evolves_def by blast

lemma evolves_db: "w_db w1 = w_db w \<Longrightarrow> evolves w w1"
  by (simp add: evolves_def)

lemma evolves_session: "evolves w w' \<Longrightarrow> sessionOk m (w_db w) s \<Longrightarrow> sessionOk m (w_db w') s"
  unfolding evolves_def sessionOk_def using stmt_inv_claims by blast

lemma evolves_run:
  assumes "\<And>I. stmt_inv I \<Longrightarrow> triple (Schema.inv I) a (\<lambda>_. Schema.inv I)"
    and "w_tx w = None" and "run_state a w = (r, w')"
  shows "evolves w w'"
  using tripleD [OF assms(1) _ assms(3)] assms(2) by (auto simp: evolves_def Schema.inv_def)
section \<open>What a request does\<close>

text \<open>A store operation: the tables evolve and the session stays.\<close>

definition sameSession :: "'s web \<Rightarrow> 's web \<Rightarrow> bool" where
  "sameSession w w' \<longleftrightarrow> evolves w w' \<and> w_sess w' = w_sess w"

lemma sameSession_refl [simp]: "sameSession w w"
  by (simp add: sameSession_def)

lemma operation_session:
  assumes "\<And>I. stmt_inv I \<Longrightarrow> triple (Schema.inv I) a (\<lambda>_. Schema.inv I)"
    and "triple (extra (world.more w)) a (\<lambda>_. extra (world.more w))"
    and "w_tx w = None" and "run_state a w = (r, w')"
  shows "sameSession w w'"
  unfolding sameSession_def
  by (rule conjI [OF evolves_run [OF assms(1,3,4)] w_sess_more [OF extra_run [OF assms(2,4)]]])

text \<open>The outcome of a request that serves the invariant of sessions.\<close>

definition keepsInvariant :: "'s session_manager \<Rightarrow> 's web \<Rightarrow> 's web \<Rightarrow> bool" where
  "keepsInvariant m w w' \<longleftrightarrow>
     (sessionOk m (w_db w) (w_sess w) \<longrightarrow> evolves w w' \<and> sessionOk m (w_db w') (w_sess w'))"

lemma sameSession_keeps: "sameSession w w' \<Longrightarrow> keepsInvariant m w w'"
  unfolding sameSession_def keepsInvariant_def by (metis evolves_session)

lemma keeps_then:
  assumes "sameSession w w1" and "w_db w' = w_db w1"
    and "sessionOk m (w_db w1) (w_sess w1) \<Longrightarrow> sessionOk m (w_db w1) (w_sess w')"
  shows "keepsInvariant m w w'"
  using assms evolves_session [of w w1 m "w_sess w"] evolves_trans [of w w1 w'] evolves_db [of w' w1]
  by (auto simp: sameSession_def keepsInvariant_def)

lemma inv_verificationClosure:
  "stmt_inv I \<Longrightarrow> triple (Schema.inv I) (verificationClosure E s req (emailVerificationSender E S) ref) (\<lambda>_. Schema.inv I)"
  unfolding verificationClosure_def emailVerificationSender_def
  by (intro triple_bind_inv triple_rules inv_rules) (auto intro: inv_rules split: if_splits)

lemma register_session:
  assumes "ps_Hasher s = NewArgon2idHasher E hc" and "w_tx w = None"
  shows "run_state (Register E s req) w = (r, w') \<Longrightarrow> sameSession w w'"
    and "run_state (RegisterWithEmailVerification E s req (emailVerificationSender E S)) w = (r', w') \<Longrightarrow> sameSession w w'"
proof -
  note hasher = assms(1) and tx = assms(2)
  show "run_state (Register E s req) w = (r, w') \<Longrightarrow> sameSession w w'"
    unfolding Register_def
    by (erule operation_session [OF _ _ tx, rotated 2])
      (intro triple_bind_inv inv_rules extra_rules argon.inv_register [OF hasher] argon.extra_register [OF hasher]; assumption)+
  show "run_state (RegisterWithEmailVerification E s req (emailVerificationSender E S)) w = (r', w') \<Longrightarrow> sameSession w w'"
    unfolding RegisterWithEmailVerification_def
    by (erule operation_session [OF _ _ tx, rotated 2])
      (intro inv_verificationClosure extra_verificationClosure argon.inv_register [OF hasher]
        argon.extra_register [OF hasher]; assumption)+
qed

lemma password_operations:
  assumes "ps_Hasher s = NewArgon2idHasher E hc" and "w_tx w = None"
  shows "run_state (Authenticate E s email pw ip) w = (r1, w') \<Longrightarrow> sameSession w w'"
    and "run_state (ChangePassword E s u old new) w = (r2, w') \<Longrightarrow> sameSession w w'"
    and "run_state (CompletePasswordReset E s tok new) w = (r3, w') \<Longrightarrow> sameSession w w'"
    and "run_state (InitiatePasswordReset E s email) w = (r4, w') \<Longrightarrow> sameSession w w'"
    and "run_state (InitiateEmailVerification E s u) w = (r5, w') \<Longrightarrow> sameSession w w'"
    and "run_state (VerifyEmail E s tok) w = (r6, w') \<Longrightarrow> sameSession w w'"
  unfolding InitiateEmailVerification_def
  by - (rule operation_session [OF argon.inv_Authenticate [OF assms(1)] argon.extra_hashing_operations(1) [OF assms(1)] assms(2)]
        operation_session [OF argon.inv_ChangePassword [OF assms(1)] argon.extra_hashing_operations(2) [OF assms(1)] assms(2)]
        operation_session [OF argon.inv_CompletePasswordReset [OF assms(1)] argon.extra_hashing_operations(3) [OF assms(1)] assms(2)]
        operation_session [OF inv_InitiatePasswordReset extra_password_store(2) assms(2)]
        operation_session [OF inv_initiateEmailVerification extra_password_store(1) assms(2)]
        operation_session [OF inv_VerifyEmail extra_password_store(4) assms(2)]; assumption)+

lemma identity_operations:
  assumes "w_tx w = None"
  shows "run_state (ResolveOrProvisionUser E s i) w = (r, w') \<Longrightarrow> sameSession w w'"
  by (rule operation_session [OF inv_ResolveOrProvisionUser extra_identity_store(5) assms]; assumption)

section \<open>The handlers keep the invariant\<close>

lemma RegisterHandler_keeps:
  assumes "ps_Hasher (ph_Store h) = NewArgon2idHasher E hc" and "w_tx w = None"
    and run: "run_state (RegisterHandler E h body) w = (resp, w')"
  shows "sameSession w w'"
proof (cases body)
  case (Some req)
  let ?V = "pcfg_RequireEmailVerification (ph_Config h)" and ?S = "emailVerificationSender E (pcfg_EmailSender (ph_Config h))"
  obtain r1 w1 where r1: "run_state (Register E (ph_Store h) req) w = (r1, w1)" by fastforce
  obtain r2 w2 where r2: "run_state (RegisterWithEmailVerification E (ph_Store h) req ?S) w = (r2, w2)" by fastforce
  from run Some r1 r2 have "w' = (if ?V then w2 else w1)"
    by (auto simp: RegisterHandler_def Let_def split: if_splits)
  with register_session [OF assms(1,2)] r1 r2 show ?thesis by auto
qed (use run in \<open>simp add: RegisterHandler_def\<close>)
lemma LoginHandler_keeps:
  assumes "ps_Hasher (ph_Store h) = NewArgon2idHasher E hc" and "w_tx w = None"
    and "is_Queries (ps_Inner (ph_Store h)) = OnPool" and "manager_good (ph_Session h)"
    and run: "run_state (LoginHandler E h r body) w = (resp, w')"
  shows "keepsInvariant (ph_Session h) w w'"
proof (cases body)
  case (Some req)
  obtain a w1 where a: "run_state (Authenticate E (ph_Store h) (lr_Email req) (lr_Password req) (clientAddress r)) w = (a, w1)"
    by fastforce
  note s = password_operations(1) [OF assms(1,2) a]
  show ?thesis
  proof (cases a)
    case (Inl e)
    with run Some a s show ?thesis by (auto simp: LoginHandler_def sameSession_keeps)
  next
    case (Inr ref)
    let ?ms = "membershipsOf (w_db w1) (ref_UserID ref)"
    have "w_db w' = w_db w1 \<and> (w_sess w' = w_sess w1 \<or>
        w_sess w' = managerPut (ph_Session h) (w_sess w1) (pcfg_SessionKey (ph_Config h)) (SVClaims (claimsFor ref ?ms)))"
      using run Some a Inr assms(3)
      by (auto simp: LoginHandler_def passwordIdentityApi_inner identityApi_def run_ListMemberships_pool split: option.splits)
    then show ?thesis
      by (intro keeps_then [OF s]) (auto intro!: sessionOk_put_intros assms(4) claimsFor_ok)
  qed
qed (use run in \<open>simp add: LoginHandler_def keepsInvariant_def\<close>)

lemma LogoutHandler_keeps:
  assumes "manager_good (ph_Session h)" and "run_state (LogoutHandler h) w = (resp, w')"
  shows "keepsInvariant (ph_Session h) w w'"
  using assms(2) sessionOk_destroy [OF assms(1)]
  by (auto simp: LogoutHandler_def intro!: keeps_then [OF sameSession_refl] split: option.splits)

lemma ChangePasswordHandler_keeps:
  assumes "ps_Hasher (ph_Store h) = NewArgon2idHasher E hc" and "w_tx w = None"
    and "manager_good (ph_Session h)" and run: "run_state (ChangePasswordHandler E h body) w = (resp, w')"
  shows "keepsInvariant (ph_Session h) w w'"
proof (cases "\<exists>c req. authenticatedClaims (managerGet (ph_Session h) (w_sess w) (pcfg_SessionKey (ph_Config h))) = Some c \<and> body = Some req")
  case False
  with run show ?thesis
    by (auto simp: ChangePasswordHandler_def sameSession_keeps split: option.splits)
next
  case True
  then obtain c req where c: "authenticatedClaims (managerGet (ph_Session h) (w_sess w) (pcfg_SessionKey (ph_Config h))) = Some c"
    and "body = Some req" by blast
  moreover obtain r1 w1 where r1: "run_state (ChangePassword E (ph_Store h) (sc_UserID c) (cp_CurrentPassword req) (cp_NewPassword req)) w = (r1, w1)"
    by fastforce
  moreover note password_operations(2) [OF assms(1,2) r1]
  ultimately show ?thesis
    using run sessionOk_destroy [OF assms(3)]
    by (cases r1) (auto simp: ChangePasswordHandler_def sameSession_keeps split: if_splits intro!: keeps_then)
qed

lemma ForgotPasswordHandler_keeps:
  assumes "ps_Hasher (ph_Store h) = NewArgon2idHasher E hc" and "w_tx w = None"
    and run: "run_state (ForgotPasswordHandler E h body) w = (resp, w')"
  shows "keepsInvariant m w w'"
proof (cases body)
  case (Some email)
  obtain r1 w1 where r1: "run_state (InitiatePasswordReset E (ph_Store h) email) w = (r1, w1)" by fastforce
  with run Some password_operations(4) [OF assms(1,2) r1] show ?thesis
    by (auto simp: ForgotPasswordHandler_def Let_def sameSession_keeps split: if_splits intro!: keeps_then)
qed (use run in \<open>simp add: ForgotPasswordHandler_def sameSession_keeps\<close>)

lemma ResetPasswordHandler_keeps:
  assumes "ps_Hasher (ph_Store h) = NewArgon2idHasher E hc" and "w_tx w = None"
    and run: "run_state (ResetPasswordHandler E h body) w = (resp, w')"
  shows "sameSession w w'"
proof (cases body)
  case (Some req)
  obtain r1 w1 where r1: "run_state (CompletePasswordReset E (ph_Store h) (rp_Token req) (rp_NewPassword req)) w = (r1, w1)"
    by fastforce
  with run Some password_operations(3) [OF assms(1,2) r1] show ?thesis by (simp add: ResetPasswordHandler_def)
qed (use run in \<open>simp add: ResetPasswordHandler_def\<close>)

lemma VerifyEmailHandler_keeps:
  assumes "ps_Hasher (ph_Store h) = NewArgon2idHasher E hc" and "w_tx w = None"
    and run: "run_state (VerifyEmailHandler E h body) w = (resp, w')"
  shows "sameSession w w'"
proof (cases body)
  case (Some t)
  obtain r1 w1 where r1: "run_state (VerifyEmail E (ph_Store h) t) w = (r1, w1)" by fastforce
  with run Some password_operations(6) [OF assms(1,2) r1] show ?thesis by (simp add: VerifyEmailHandler_def)
qed (use run in \<open>simp add: VerifyEmailHandler_def\<close>)

lemma ResendVerificationHandler_keeps:
  assumes "ps_Hasher (ph_Store h) = NewArgon2idHasher E hc" and "w_tx w = None"
    and run: "run_state (ResendVerificationHandler E h) w = (resp, w')"
  shows "keepsInvariant m w w'"
proof (cases "authenticatedClaims (managerGet (ph_Session h) (w_sess w) (pcfg_SessionKey (ph_Config h)))")
  case (Some c)
  obtain r1 w1 where r1: "run_state (InitiateEmailVerification E (ph_Store h) (sc_UserID c)) w = (r1, w1)" by fastforce
  with run Some password_operations(5) [OF assms(1,2) r1] show ?thesis
    by (cases r1) (auto simp: ResendVerificationHandler_def sameSession_keeps split: if_splits intro!: keeps_then)
qed (use run in \<open>simp add: ResendVerificationHandler_def sameSession_keeps\<close>)

lemma AuthorizeHandler_keeps:
  "run_state (AuthorizeHandler E L h) w = (resp, w') \<Longrightarrow> sameSession w w'"
  by (auto simp: AuthorizeHandler_def generateState_def sameSession_def evolves_def)

lemma fetch_db:
  "run_state (fetchIdentity L h code) w = (r, w') \<Longrightarrow> w_db w' = w_db w \<and> w_tx w' = w_tx w \<and> w_sess w' = w_sess w"
  by (auto simp: fetchIdentity_def Exchange_def VerifyIDToken_def GetUserInfo_def Let_def
      split: sum.splits option.splits prod.splits)

lemma callback_effect:
  assumes "oh_store h = identityApi E (NewPostgresIdentityStore hasPool name)" and "w_tx w = None"
    and run: "run_state (CallbackHandler L h r) w = (resp, w')"
  shows "\<exists>w2. sameSession w w2 \<and> w_db w' = w_db w2 \<and>
    (w_sess w' = w_sess w \<or>
     (\<exists>i raw w1 ref. run_state (fetchIdentity L h (rq_Query r ''code'')) w = (Inr (i, raw), w1) \<and>
        run_state (ResolveOrProvisionUser E (NewPostgresIdentityStore hasPool name) i) w1 = (Inr ref, w2) \<and>
        rs_Status resp \<in> {303, 409} \<and>
        w_sess w' \<in> (let s = managerPut (oh_session h) (w_sess w) (cfg_SessionKey (oh_cfg h))
                          (SVClaims (claimsFor ref (membershipsOf (w_db w2) (ref_UserID ref))))
                      in {s, managerPut (oh_session h) s idTokenKey (SVString raw)})))"
proof (cases "requestCookie r (cfg_StateCookieName (oh_cfg h)) = Some (rq_Query r ''state'')")
  case False
  with run show ?thesis
    by (intro exI [of _ w]) (auto simp: CallbackHandler_def split: option.splits if_splits)
next
  case True
  let ?s = "NewPostgresIdentityStore hasPool name"
  obtain f w1 where f: "run_state (fetchIdentity L h (rq_Query r ''code'')) w = (f, w1)" by fastforce
  note k = fetch_db [OF f]
  have k1: "sameSession w w1" using k by (simp add: sameSession_def evolves_def)
  show ?thesis
  proof (cases f)
    case (Inl re)
    with run True f k k1 show ?thesis by (intro exI [of _ w1]) (auto simp: CallbackHandler_def)
  next
    case (Inr p)
    obtain i raw where p: "p = (i, raw)" by (cases p)
    obtain rr w2 where rr: "run_state (ResolveOrProvisionUser E ?s i) w1 = (rr, w2)" by fastforce
    have "w_tx w1 = None" using k assms(2) by simp
    from identity_operations [OF this rr] k1 have k2: "sameSession w w2"
      unfolding sameSession_def using evolves_trans by (metis (no_types, lifting))
    then have sess: "w_sess w2 = w_sess w" by (simp add: sameSession_def)
    show ?thesis
    proof (cases rr)
      case (Inl e)
      with run True f Inr p rr k2 sess assms(1) show ?thesis
        by (intro exI [of _ w2]) (auto simp: CallbackHandler_def establishSession_def identityApi_def)
    next
      case inr2: (Inr ref)
      with run True f Inr p rr k2 sess assms(1) show ?thesis
        by (intro exI [of _ w2])
          (auto simp: CallbackHandler_def establishSession_def identityApi_def run_ListMemberships_pool Let_def
            handleTenantSelectionRequired_def split: option.splits if_splits)
    qed
  qed
qed

lemma CallbackHandler_keeps:
  assumes "oh_store h = identityApi E (NewPostgresIdentityStore hasPool name)" and "w_tx w = None"
    and "manager_good (oh_session h)" and "run_state (CallbackHandler L h r) w = (resp, w')"
  shows "keepsInvariant (oh_session h) w w'"
proof -
  obtain w2 where w2: "sameSession w w2" "w_db w' = w_db w2"
    and s: "w_sess w' = w_sess w \<or> (\<exists>raw ref s. s = managerPut (oh_session h) (w_sess w) (cfg_SessionKey (oh_cfg h))
        (SVClaims (claimsFor ref (membershipsOf (w_db w2) (ref_UserID ref)))) \<and>
      w_sess w' \<in> {s, managerPut (oh_session h) s idTokenKey (SVString raw)})"
    using callback_effect [OF assms(1,2,4)] by (auto simp: Let_def)
  from w2(1) have "w_sess w2 = w_sess w" by (simp add: sameSession_def)
  then show ?thesis
    using s by (intro keeps_then [OF w2]) (auto intro!: sessionOk_put_intros assms(3) claimsFor_ok)
qed

lemma tenantEntries_db:
  "oh_store h = identityApi E (NewPostgresIdentityStore hasPool name) \<Longrightarrow>
   run_state (tenantEntries E h c ms) w = (js, w') \<Longrightarrow> w_db w' = w_db w \<and> w_sess w' = w_sess w"
proof (induction ms arbitrary: w js w')
  case (Cons m ms)
  obtain d w1 where d: "run_state (GetTenantDisplay E (NewPostgresIdentityStore hasPool name) (mb_TenantID m)) w = (d, w1)" by fastforce
  then have w1: "w1 = tickw w"
    using run_GetTenantDisplay_pool [OF NewPostgres_pool, of E hasPool name "mb_TenantID m" w] by auto
  obtain js1 w2 where js1: "run_state (tenantEntries E h c ms) w1 = (js1, w2)" by fastforce
  obtain js2 w3 where js2: "run_state (tenantEntries E h c ms) w = (js2, w3)" by fastforce
  from Cons.prems d js1 js2 Cons.IH [OF Cons.prems(1) js1] Cons.IH [OF Cons.prems(1) js2] w1 show ?case
    by (cases "mb_TenantName m = ''''") (auto simp: identityApi_def Let_def)
qed simp

lemma ListTenantsHandler_keeps:
  assumes "oh_store h = identityApi E (NewPostgresIdentityStore hasPool name)"
    and run: "run_state (ListTenantsHandler E h) w = (resp, w')"
  shows "sameSession w w'"
proof -
  have "w_db w' = w_db w \<and> w_sess w' = w_sess w"
    using run assms(1)
    by (auto simp: ListTenantsHandler_def identityApi_def run_ListMemberships_pool
        split: option.splits prod.splits dest!: tenantEntries_db [OF assms(1)])
  then show ?thesis by (simp add: sameSession_def evolves_def)
qed

lemma SelectTenantHandler_keeps:
  assumes "oh_store h = identityApi E (NewPostgresIdentityStore hasPool name)"
    and "manager_good (oh_session h)" and run: "run_state (SelectTenantHandler E h payload) w = (resp, w')"
  shows "keepsInvariant (oh_session h) w w'"
proof (cases "w_sess w' = w_sess w")
  case True
  with run assms(1) show ?thesis
    by (intro keeps_then [OF sameSession_refl])
      (auto simp: SelectTenantHandler_def identityApi_def run_ListMemberships_pool
        split: option.splits sum.splits if_splits)
next
  case False
  then obtain c t where "w_db w' = w_db w" and m: "isMember (w_db w) (sc_UserID c) t"
    and "w_sess w' = managerPut (oh_session h) (w_sess w) (cfg_SessionKey (oh_cfg h))
        (SVClaims (c\<lparr>sc_ActiveTenantID := Some t\<rparr>))"
    using run assms(1)
    by (auto simp: SelectTenantHandler_def identityApi_def run_ListMemberships_pool
        split: option.splits sum.splits if_splits dest!: listed_member)
  then show ?thesis
    by (intro keeps_then [OF sameSession_refl]) (auto simp: claimsOk_def intro!: sessionOk_put_intros assms(2))
qed

lemma OIDCLogoutHandler_keeps:
  assumes "manager_good (oh_session h)" and "run_state (OIDCLogoutHandler L h) w = (resp, w')"
  shows "keepsInvariant (oh_session h) w w'"
  using assms(2) sessionOk_destroy [OF assms(1)]
  by (auto simp: OIDCLogoutHandler_def Let_def intro!: keeps_then [OF sameSession_refl])
section \<open>The server\<close>

text \<open>
  The handlers an application mounts over one password store, one identity store and one
  session manager, and the requests they answer. A request comes with what \<open>net/http\<close> parsed of
  it; its session is that of the client's cookie.
\<close>

record 's application =
  ap_env :: env
  ap_libs :: oidc_libs
  ap_password :: "'s password_handler"
  ap_oidc :: "'s oidc_handler"

datatype endpoint =
    RegisterReq "register_request option"
  | LoginReq "login_request option"
  | PasswordLogoutReq
  | ChangePasswordReq "change_password_request option"
  | ForgotPasswordReq "string option"
  | ResetPasswordReq "reset_password_request option"
  | VerifyEmailReq "string option"
  | ResendVerificationReq
  | AuthorizeReq
  | CallbackReq
  | ListTenantsReq
  | SelectTenantReq "string option"
  | OIDCLogoutReq

fun dispatch :: "'s application \<Rightarrow> endpoint \<Rightarrow> http_request \<Rightarrow> ('s, http_response) web_io" where
  "dispatch A (RegisterReq b) r = RegisterHandler (ap_env A) (ap_password A) b"
| "dispatch A (LoginReq b) r = LoginHandler (ap_env A) (ap_password A) r b"
| "dispatch A PasswordLogoutReq r = LogoutHandler (ap_password A)"
| "dispatch A (ChangePasswordReq b) r = ChangePasswordHandler (ap_env A) (ap_password A) b"
| "dispatch A (ForgotPasswordReq b) r = ForgotPasswordHandler (ap_env A) (ap_password A) b"
| "dispatch A (ResetPasswordReq b) r = ResetPasswordHandler (ap_env A) (ap_password A) b"
| "dispatch A (VerifyEmailReq b) r = VerifyEmailHandler (ap_env A) (ap_password A) b"
| "dispatch A ResendVerificationReq r = ResendVerificationHandler (ap_env A) (ap_password A)"
| "dispatch A AuthorizeReq r = AuthorizeHandler (ap_env A) (ap_libs A) (ap_oidc A)"
| "dispatch A CallbackReq r = CallbackHandler (ap_libs A) (ap_oidc A) r"
| "dispatch A ListTenantsReq r = ListTenantsHandler (ap_env A) (ap_oidc A)"
| "dispatch A (SelectTenantReq b) r = SelectTenantHandler (ap_env A) (ap_oidc A) b"
| "dispatch A OIDCLogoutReq r = OIDCLogoutHandler (ap_libs A) (ap_oidc A)"

text \<open>
  \<open>RegisterRoutes\<close> of both handlers: the methods and paths under the prefix they are mounted at,
  and the endpoint a request with a given body reaches. A body is given as what decoding it
  into the payload of each handler yields.
\<close>

record request_body =
  rb_register :: "register_request option"
  rb_login :: "login_request option"
  rb_change :: "change_password_request option"
  rb_email :: "string option"
  rb_reset :: "reset_password_request option"
  rb_token :: "string option"
  rb_tenant :: "string option"

type_synonym route = "(string \<times> string) \<times> (request_body \<Rightarrow> endpoint)"

definition passwordRoutes :: "route list" where
  "passwordRoutes =
     [((''POST'', ''/register''), \<lambda>b. RegisterReq (rb_register b)),
      ((''POST'', ''/login''), \<lambda>b. LoginReq (rb_login b)),
      ((''POST'', ''/logout''), \<lambda>b. PasswordLogoutReq),
      ((''POST'', ''/change-password''), \<lambda>b. ChangePasswordReq (rb_change b)),
      ((''POST'', ''/forgot-password''), \<lambda>b. ForgotPasswordReq (rb_email b)),
      ((''POST'', ''/reset-password''), \<lambda>b. ResetPasswordReq (rb_reset b)),
      ((''POST'', ''/verify-email''), \<lambda>b. VerifyEmailReq (rb_token b)),
      ((''POST'', ''/resend-verification''), \<lambda>b. ResendVerificationReq)]"

definition oidcRoutes :: "config \<Rightarrow> route list" where
  "oidcRoutes cfg =
     [((''GET'', cfg_AuthorizePath cfg), \<lambda>b. AuthorizeReq),
      ((''GET'', cfg_CallbackPath cfg), \<lambda>b. CallbackReq),
      ((''GET'', cfg_TenantsPath cfg), \<lambda>b. ListTenantsReq),
      ((''POST'', cfg_TenantSelectPath cfg), \<lambda>b. SelectTenantReq (rb_tenant b)),
      ((''POST'', cfg_LogoutPath cfg), \<lambda>b. OIDCLogoutReq)]"

text \<open>An application built by the constructors, over a session manager that keeps its contract.\<close>

definition wellBuilt :: "'s application \<Rightarrow> bool" where
  "wellBuilt A \<longleftrightarrow>
     (\<exists>hasPool cfg s p n. NewPasswordIdentityStore (ap_env A) hasPool (Some (NewPostgresIdentityStore p n)) cfg = Inr s \<and>
        ap_password A = NewPasswordHandler cfg s (oh_session (ap_oidc A)) \<and>
        oh_store (ap_oidc A) = identityApi (ap_env A) (NewPostgresIdentityStore p n)) \<and>
     manager_good (oh_session (ap_oidc A))"

lemma wellBuilt_parts:
  assumes "wellBuilt A"
  shows "\<exists>hc p n. ps_Hasher (ph_Store (ap_password A)) = NewArgon2idHasher (ap_env A) hc \<and>
     is_Queries (ps_Inner (ph_Store (ap_password A))) = OnPool \<and>
     ph_Session (ap_password A) = oh_session (ap_oidc A) \<and>
     oh_store (ap_oidc A) = identityApi (ap_env A) (NewPostgresIdentityStore p n)"
proof -
  obtain hasPool cfg s p n where
    new: "NewPasswordIdentityStore (ap_env A) hasPool (Some (NewPostgresIdentityStore p n)) cfg = Inr s"
    and A: "ap_password A = NewPasswordHandler cfg s (oh_session (ap_oidc A))"
      "oh_store (ap_oidc A) = identityApi (ap_env A) (NewPostgresIdentityStore p n)"
    using assms by (auto simp: wellBuilt_def)
  have "is_Queries (ps_Inner s) = OnPool"
    using new_store [OF new] NewPostgres_pool [of p n] by auto
  with new_store [OF new] A show ?thesis
    by (intro exI [of _ "pcfg_Hashing (passwordDefaults cfg)"] exI [of _ p] exI [of _ n]) simp
qed

lemma dispatch_keeps:
  assumes "wellBuilt A" and "w_tx w = None" and run: "run_state (dispatch A q r) w = (resp, w')"
  shows "keepsInvariant (oh_session (ap_oidc A)) w w'"
proof -
  obtain hc p n where hasher: "ps_Hasher (ph_Store (ap_password A)) = NewArgon2idHasher (ap_env A) hc"
    and pool: "is_Queries (ps_Inner (ph_Store (ap_password A))) = OnPool"
    and sess: "ph_Session (ap_password A) = oh_session (ap_oidc A)"
    and store: "oh_store (ap_oidc A) = identityApi (ap_env A) (NewPostgresIdentityStore p n)"
    using wellBuilt_parts [OF assms(1)] by blast
  have good: "manager_good (oh_session (ap_oidc A))" "manager_good (ph_Session (ap_password A))"
    using assms(1) sess by (simp_all add: wellBuilt_def)
  show ?thesis
    using run
    by (cases q)
      (auto simp flip: sess intro: sameSession_keeps RegisterHandler_keeps [OF hasher assms(2)]
        LogoutHandler_keeps [OF good(2)] ChangePasswordHandler_keeps [OF hasher assms(2) good(2)]
        LoginHandler_keeps [OF hasher assms(2) pool good(2)] ForgotPasswordHandler_keeps [OF hasher assms(2)]
        ResetPasswordHandler_keeps [OF hasher assms(2)] VerifyEmailHandler_keeps [OF hasher assms(2)]
        ResendVerificationHandler_keeps [OF hasher assms(2)] AuthorizeHandler_keeps
        CallbackHandler_keeps [OF store assms(2) good(1), unfolded sess [symmetric]] ListTenantsHandler_keeps [OF store]
        SelectTenantHandler_keeps [OF store good(1), unfolded sess [symmetric]]
        OIDCLogoutHandler_keeps [OF good(1), unfolded sess [symmetric]])
qed

section \<open>Steps\<close>

text \<open>The tables, the mail sent so far, and the session of each client.\<close>

record 's server =
  sv_tick :: nat
  sv_db :: database
  sv_mail :: "mail list"
  sv_sessions :: "nat \<Rightarrow> 's"

definition requestWorld :: "'s server \<Rightarrow> nat \<Rightarrow> 's web" where
  "requestWorld sv c = \<lparr>w_tick = sv_tick sv, w_db = sv_db sv, w_tx = None, w_mail = sv_mail sv,
     w_sess = sv_sessions sv c\<rparr>"

definition afterRequest :: "'s server \<Rightarrow> nat \<Rightarrow> 's web \<Rightarrow> 's server" where
  "afterRequest sv c w = \<lparr>sv_tick = w_tick w, sv_db = w_db w, sv_mail = w_mail w,
     sv_sessions = (sv_sessions sv)(c := w_sess w)\<rparr>"

text \<open>
  The session store saves a session when its request is served; when that fails, the session of
  the client stays as it was, and the tables keep what the request did to them.
\<close>

definition unsavedRequest :: "'s server \<Rightarrow> 's web \<Rightarrow> 's server" where
  "unsavedRequest sv w = sv\<lparr>sv_tick := w_tick w, sv_db := w_db w, sv_mail := w_mail w\<rparr>"

lemma requestWorld_simps [simp]:
  "w_db (requestWorld sv c) = sv_db sv" "w_tx (requestWorld sv c) = None"
  "w_sess (requestWorld sv c) = sv_sessions sv c"
  by (simp_all add: requestWorld_def)

lemma afterRequest_simps [simp]:
  "sv_db (afterRequest sv c w) = w_db w"
  "sv_sessions (afterRequest sv c w) c' = (if c' = c then w_sess w else sv_sessions sv c')"
  by (simp_all add: afterRequest_def)

lemma unsavedRequest_simps [simp]:
  "sv_db (unsavedRequest sv w) = w_db w" "sv_sessions (unsavedRequest sv w) = sv_sessions sv"
  by (simp_all add: unsavedRequest_def)

text \<open>What others may do to the tables between two requests.\<close>

definition outside :: "database \<Rightarrow> database \<Rightarrow> bool" where
  "outside d d' \<longleftrightarrow> db_ok d' \<and> (\<forall>u t. isMember d u t \<longrightarrow> isMember d' u t)"

inductive step :: "'s application \<Rightarrow> 's server \<Rightarrow> 's server \<Rightarrow> bool" for A where
  request: "run_state (dispatch A q r) (requestWorld sv c) = (resp, w) \<Longrightarrow> step A sv (afterRequest sv c w)"
| unsaved: "run_state (dispatch A q r) (requestWorld sv c) = (resp, w) \<Longrightarrow> step A sv (unsavedRequest sv w)"
| others: "outside (sv_db sv) d \<Longrightarrow> step A sv (sv\<lparr>sv_db := d\<rparr>)"

inductive reachable :: "'s application \<Rightarrow> 's server \<Rightarrow> bool" for A where
  reach_start: "db_ok (sv_db sv) \<Longrightarrow> (\<And>c k. managerGet (oh_session (ap_oidc A)) (sv_sessions sv c) k = None) \<Longrightarrow> reachable A sv"
| reach_step: "reachable A sv \<Longrightarrow> step A sv sv' \<Longrightarrow> reachable A sv'"

definition serverOk :: "'s application \<Rightarrow> 's server \<Rightarrow> bool" where
  "serverOk A sv \<longleftrightarrow> db_ok (sv_db sv) \<and>
     (\<forall>c. sessionOk (oh_session (ap_oidc A)) (sv_db sv) (sv_sessions sv c))"

lemma step_invariant:
  assumes "wellBuilt A" and "step A sv sv'" and "serverOk A sv"
  shows "serverOk A sv'"
proof -
  have served: "db_ok (w_db w) \<and> sessionOk (oh_session (ap_oidc A)) (w_db w) (w_sess w) \<and>
      (\<forall>c'. sessionOk (oh_session (ap_oidc A)) (w_db w) (sv_sessions sv c'))"
    if "run_state (dispatch A q r) (requestWorld sv c) = (resp, w)" for q r c resp w
  proof -
    from dispatch_keeps [OF assms(1) _ that] assms(3)
    have e: "evolves (requestWorld sv c) w" and s: "sessionOk (oh_session (ap_oidc A)) (w_db w) (w_sess w)"
      by (simp_all add: keepsInvariant_def serverOk_def)
    from e assms(3) have "db_ok (w_db w)"
      using stmt_inv_db_ok by (auto simp: evolves_def serverOk_def)
    moreover have "sessionOk (oh_session (ap_oidc A)) (w_db w) (sv_sessions sv c')" for c'
      using evolves_session [OF e, of "oh_session (ap_oidc A)" "sv_sessions sv c'"] assms(3)
      by (simp add: serverOk_def)
    ultimately show ?thesis using s by blast
  qed
  show ?thesis
    using assms(2)
  proof (cases rule: step.cases)
    case (request q r c resp w)
    from served [OF request(2)] request(1) show ?thesis by (simp add: serverOk_def)
  next
    case (unsaved q r c resp w)
    from served [OF unsaved(2)] unsaved(1) show ?thesis by (simp add: serverOk_def)
  next
    case (others d)
    with assms(3) show ?thesis
      by (auto simp: serverOk_def outside_def sessionOk_def claimsOk_def)
  qed
qed

lemma reachable_ok: "reachable A sv \<Longrightarrow> wellBuilt A \<Longrightarrow> serverOk A sv"
proof (induction rule: reachable.induct)
  case (reach_start sv)
  then show ?case by (simp add: serverOk_def sessionOk_def)
next
  case (reach_step sv sv')
  then show ?case using step_invariant by blast
qed
text \<open>The endpoints that never add claims to the session of their request.\<close>

lemma same_claims: "sameSession w w' \<Longrightarrow> managerGet m (w_sess w') k = managerGet m (w_sess w) k"
  by (simp add: sameSession_def)

lemma no_new_claims:
  assumes "wellBuilt A" and "w_tx w = None" and run: "run_state (dispatch A q r) w = (resp, w')"
    and "\<forall>b. q \<noteq> LoginReq b" and "q \<noteq> CallbackReq" and "\<forall>b. q \<noteq> SelectTenantReq b"
    and "managerGet (oh_session (ap_oidc A)) (w_sess w') k = Some v"
  shows "managerGet (oh_session (ap_oidc A)) (w_sess w) k = Some v"
proof -
  obtain hc p n where hasher: "ps_Hasher (ph_Store (ap_password A)) = NewArgon2idHasher (ap_env A) hc"
    and sess: "ph_Session (ap_password A) = oh_session (ap_oidc A)"
    and store: "oh_store (ap_oidc A) = identityApi (ap_env A) (NewPostgresIdentityStore p n)"
    using wellBuilt_parts [OF assms(1)] by blast
  have good: "manager_good (oh_session (ap_oidc A))" using assms(1) by (simp add: wellBuilt_def)
  consider "sameSession w w'" | "w_sess w' = w_sess w"
    | "w_sess w' = snd (managerDestroy (oh_session (ap_oidc A)) (w_sess w))"
  proof (cases q)
    case (ChangePasswordReq b)
    with run sess that password_operations(2) [OF hasher assms(2)] show ?thesis
      by (auto simp: ChangePasswordHandler_def sameSession_def split: option.splits sum.splits if_splits prod.splits)
  next
    case (ForgotPasswordReq b)
    with run that password_operations(4) [OF hasher assms(2)] show ?thesis
      by (auto simp: ForgotPasswordHandler_def sameSession_def Let_def split: option.splits sum.splits if_splits prod.splits)
  next
    case ResendVerificationReq
    with run that password_operations(5) [OF hasher assms(2)] show ?thesis
      by (auto simp: ResendVerificationHandler_def sameSession_def split: option.splits sum.splits if_splits prod.splits)
  next
    case PasswordLogoutReq
    with run sess that show ?thesis by (auto simp: LogoutHandler_def split: option.splits)
  next
    case AuthorizeReq
    with run that show ?thesis by (auto dest: AuthorizeHandler_keeps)
  next
    case OIDCLogoutReq
    with run that show ?thesis by (auto simp: OIDCLogoutHandler_def Let_def)
  qed (use assms(4-6) run that RegisterHandler_keeps [OF hasher assms(2)] ResetPasswordHandler_keeps [OF hasher assms(2)]
      VerifyEmailHandler_keeps [OF hasher assms(2)] ListTenantsHandler_keeps [OF store] in auto)
  then show ?thesis
  proof cases
    case 3
    with assms(7) mgr.destroy_keeps_or_clears [OF good] show ?thesis by metis
  qed (use assms(7) in \<open>simp_all add: sameSession_def\<close>)
qed
text \<open>The three endpoints that add claims: what they have done when they did.\<close>

lemma login_adds:
  assumes "wellBuilt A" and "Schema.inv db_ok w"
    and "run_state (LoginHandler (ap_env A) (ap_password A) r b) w = (resp, w')"
    and "managerGet (oh_session (ap_oidc A)) (w_sess w') k = Some (SVClaims cl)"
    and "managerGet (oh_session (ap_oidc A)) (w_sess w) k \<noteq> Some (SVClaims cl)"
  shows "\<exists>req ref w1. b = Some req \<and> rs_Status resp = 200 \<and> sc_UserID cl = ref_UserID ref \<and>
    run_state (Authenticate (ap_env A) (ph_Store (ap_password A)) (lr_Email req) (lr_Password req) (clientAddress r)) w =
      (Inr ref, w1)"
proof -
  let ?m = "oh_session (ap_oidc A)"
  obtain hc where hasher: "ps_Hasher (ph_Store (ap_password A)) = NewArgon2idHasher (ap_env A) hc"
    and pool: "is_Queries (ps_Inner (ph_Store (ap_password A))) = OnPool" and sess: "ph_Session (ap_password A) = ?m"
    using wellBuilt_parts [OF assms(1)] by blast
  have good: "manager_good ?m" "manager_good (ph_Session (ap_password A))"
    using assms(1) sess by (simp_all add: wellBuilt_def)
  have changed: "w_sess w' \<noteq> w_sess w" using assms(4,5) by auto
  from login_handler_cases [OF hasher pool good(2) assms(2,3)] changed obtain req ref w1 where
    "b = Some req" "run_state (Authenticate (ap_env A) (ph_Store (ap_password A)) (lr_Email req) (lr_Password req)
       (clientAddress r)) w = (Inr ref, w1)" "rs_Status resp = 200"
    "w_sess w' = managerPut ?m (w_sess w) (pcfg_SessionKey (ph_Config (ap_password A)))
        (SVClaims (claimsFor ref (membershipsOf (w_db w1) (ref_UserID ref))))"
    using sess by auto
  with assms(4,5) show ?thesis by (auto simp: mgr.get_put [OF good(1)] claimsFor_def split: if_splits)
qed

lemma callback_adds:
  assumes "wellBuilt A" and "Schema.inv db_ok w" and tx: "w_tx w = None"
    and "run_state (CallbackHandler (ap_libs A) (ap_oidc A) r) w = (resp, w')"
    and "managerGet (oh_session (ap_oidc A)) (w_sess w') k = Some (SVClaims cl)"
    and "managerGet (oh_session (ap_oidc A)) (w_sess w) k \<noteq> Some (SVClaims cl)"
  shows "\<exists>i raw w1. rs_Status resp \<in> {303, 409} \<and>
    run_state (fetchIdentity (ap_libs A) (ap_oidc A) (rq_Query r ''code'')) w = (Inr (i, raw), w1) \<and>
    sc_Issuer cl = id_Issuer i \<and> sc_Subject cl = id_Subject i"
proof -
  let ?m = "oh_session (ap_oidc A)"
  obtain p n where store: "oh_store (ap_oidc A) = identityApi (ap_env A) (NewPostgresIdentityStore p n)"
    using wellBuilt_parts [OF assms(1)] by blast
  have good: "manager_good ?m" using assms(1) by (simp add: wellBuilt_def)
  have changed: "w_sess w' \<noteq> w_sess w" using assms(5,6) by auto
  from callback_effect [OF store tx assms(4)] changed obtain w2 i raw w1 ref s where
    f: "run_state (fetchIdentity (ap_libs A) (ap_oidc A) (rq_Query r ''code'')) w = (Inr (i, raw), w1)"
    and rs: "run_state (ResolveOrProvisionUser (ap_env A) (NewPostgresIdentityStore p n) i) w1 = (Inr ref, w2)"
    and st: "rs_Status resp \<in> {303, 409}"
    and s: "s = managerPut ?m (w_sess w) (cfg_SessionKey (oh_cfg (ap_oidc A)))
        (SVClaims (claimsFor ref (membershipsOf (w_db w2) (ref_UserID ref))))"
      "w_sess w' \<in> {s, managerPut ?m s idTokenKey (SVString raw)}"
    by (auto simp: Let_def)
  have "db_ok (w_db w1)" using fetch_db [OF f] assms(2) by (simp add: Schema.inv_def)
  from resolved_ref [OF rs NewPostgres_pool this]
  have "ref_Issuer ref = id_Issuer i" "ref_Subject ref = id_Subject i" by simp_all
  with assms(5,6) f st s show ?thesis by (auto simp: mgr.get_put [OF good] claimsFor_def split: if_splits)
qed

lemma select_effect:
  assumes "oh_store h = identityApi E (NewPostgresIdentityStore p n)"
    and "run_state (SelectTenantHandler E h b) w = (resp, w')" and "w_sess w' \<noteq> w_sess w"
  shows "\<exists>cl' t. authenticatedClaims (managerGet (oh_session h) (w_sess w) (cfg_SessionKey (oh_cfg h))) = Some cl' \<and>
    rs_Status resp = 204 \<and> w_sess w' = managerPut (oh_session h) (w_sess w) (cfg_SessionKey (oh_cfg h))
        (SVClaims (cl'\<lparr>sc_ActiveTenantID := Some t\<rparr>))"
  using assms by (auto simp: SelectTenantHandler_def identityApi_def run_ListMemberships_pool
      split: option.splits sum.splits if_splits)

lemma select_adds:
  assumes "wellBuilt A" and "run_state (SelectTenantHandler (ap_env A) (ap_oidc A) b) w = (resp, w')"
    and "managerGet (oh_session (ap_oidc A)) (w_sess w') k = Some (SVClaims cl)"
    and "managerGet (oh_session (ap_oidc A)) (w_sess w) k \<noteq> Some (SVClaims cl)"
  shows "\<exists>cl'. rs_Status resp = 204 \<and> sc_Authenticated cl' \<and>
    managerGet (oh_session (ap_oidc A)) (w_sess w) (cfg_SessionKey (oh_cfg (ap_oidc A))) = Some (SVClaims cl') \<and>
    cl = cl'\<lparr>sc_ActiveTenantID := sc_ActiveTenantID cl\<rparr>"
proof -
  let ?m = "oh_session (ap_oidc A)"
  obtain p n where store: "oh_store (ap_oidc A) = identityApi (ap_env A) (NewPostgresIdentityStore p n)"
    using wellBuilt_parts [OF assms(1)] by blast
  have good: "manager_good ?m" using assms(1) by (simp add: wellBuilt_def)
  have "w_sess w' \<noteq> w_sess w" using assms(3,4) by auto
  from select_effect [OF store assms(2) this] assms(3,4) show ?thesis
    by (auto simp: mgr.get_put [OF good] authenticatedClaims_Some split: if_splits)
qed

section \<open>Properties\<close>

text \<open>
  C2 Tenant isolation: in every server state reached by requests of any clients to any of the
  handlers, under any faults of the database and any answers of the provider, the active
  tenant of a client's session is a tenant that the session's user is a member of.
\<close>

theorem active_tenant_is_members:
  assumes "wellBuilt A" and "reachable A sv"
    and "managerGet (oh_session (ap_oidc A)) (sv_sessions sv c) k = Some (SVClaims cl)"
    and "sc_ActiveTenantID cl = Some t"
  shows "isMember (sv_db sv) (sc_UserID cl) t \<and> db_ok (sv_db sv)"
  using reachable_ok [OF assms(2,1)] assms(3,4)
  by (auto simp: serverOk_def sessionOk_def claimsOk_def)

text \<open>
  C6 The middleware over reachable sessions: whenever \<open>RequireAuthenticated\<close> lets a request of
  a client through, the next handler finds in its context the claims of the client's
  session; a tenant in those claims is the context's tenant, the user is a member of it, and
  the tenant exists.
\<close>

theorem request_tenant_is_members:
  assumes "wellBuilt A" and "reachable A sv" and "uuid_contract (ap_env A)"
    and "conf = middlewareDefaults cfg"
    and "passes conf (rq_Path r) (managerGet (oh_session (ap_oidc A)) (sv_sessions sv c) (mw_SessionKey conf)) cl"
    and "sc_ActiveTenantID cl = Some t"
  shows "\<exists>x. run_state (RequireAuthenticated (ap_env A) (oh_session (ap_oidc A)) cfg next r) (requestWorld sv c) =
       run_state (next (r\<lparr>rq_Context := x\<rparr>)) (requestWorld sv c) \<and>
     SessionClaimsFromContext x = Some cl \<and> ActiveTenantID (ap_env A) x = Some t \<and>
     isMember (sv_db sv) (sc_UserID cl) t \<and> tenantExists (sv_db sv) t \<and> userExists (sv_db sv) (sc_UserID cl)"
proof -
  let ?v = "managerGet (oh_session (ap_oidc A)) (sv_sessions sv c) (mw_SessionKey conf)"
  have v: "?v = Some (SVClaims cl)" using assms(5) by (simp add: passes_def)
  then have m: "isMember (sv_db sv) (sc_UserID cl) t" and ok: "db_ok (sv_db sv)"
    using reachable_ok [OF assms(2,1)] assms(6) by (auto simp: serverOk_def sessionOk_def claimsOk_def)
  let ?x = "authenticatedContext (ap_env A) conf (rq_Context r) cl"
  have "run_state (RequireAuthenticated (ap_env A) (oh_session (ap_oidc A)) cfg next r) (requestWorld sv c) =
       run_state (next (r\<lparr>rq_Context := ?x\<rparr>)) (requestWorld sv c)"
    using assms(4,5) by (auto simp: run_RequireAuthenticated passes_def isTenantOptionalPath_matches Let_def assms(6))
  moreover have "tenantExists (sv_db sv) t \<and> userExists (sv_db sv) (sc_UserID cl)"
    using m ok by (auto simp: isMember_def memberKeys_def db_ok_def)
  ultimately show ?thesis
    using m assms(3,6) by (intro exI [of _ ?x])
      (simp add: SessionClaims_authenticatedContext ActiveTenantID_def Tenant_authenticatedContext)
qed

text \<open>
  C3 Who may authenticate a session: if serving a request adds claims to the session of its
  client, then either the request is a login answered 200, and \<open>Authenticate\<close> returned
  that user for the request's email and password; or it is a provider callback answered by
  a redirect or a tenant choice, and issuer and subject are those the provider vouched for;
  or it selects a tenant in a session that was already that user's. No other client's session
  changes.
\<close>

theorem session_authenticated_by:
  assumes "wellBuilt A" and "reachable A sv"
    and "run_state (dispatch A q r) (requestWorld sv c) = (resp, w)"
    and "managerGet (oh_session (ap_oidc A)) (w_sess w) k = Some (SVClaims cl)"
    and "managerGet (oh_session (ap_oidc A)) (sv_sessions sv c) k \<noteq> Some (SVClaims cl)"
  shows "((\<exists>req ref w1. q = LoginReq (Some req) \<and> rs_Status resp = 200 \<and> sc_UserID cl = ref_UserID ref \<and>
            run_state (Authenticate (ap_env A) (ph_Store (ap_password A)) (lr_Email req) (lr_Password req)
               (clientAddress r)) (requestWorld sv c) = (Inr ref, w1)) \<or>
          (\<exists>i raw w1. q = CallbackReq \<and> rs_Status resp \<in> {303, 409} \<and>
            run_state (fetchIdentity (ap_libs A) (ap_oidc A) (rq_Query r ''code'')) (requestWorld sv c) =
              (Inr (i, raw), w1) \<and> sc_Issuer cl = id_Issuer i \<and> sc_Subject cl = id_Subject i) \<or>
          (\<exists>payload cl'. q = SelectTenantReq payload \<and> rs_Status resp = 204 \<and> sc_Authenticated cl' \<and>
            managerGet (oh_session (ap_oidc A)) (sv_sessions sv c) (cfg_SessionKey (oh_cfg (ap_oidc A))) =
              Some (SVClaims cl') \<and>
            cl = cl'\<lparr>sc_ActiveTenantID := sc_ActiveTenantID cl\<rparr>)) \<and>
         (\<forall>c'. c' \<noteq> c \<longrightarrow> sv_sessions (afterRequest sv c w) c' = sv_sessions sv c')"
proof -
  let ?m = "oh_session (ap_oidc A)" and ?w = "requestWorld sv c"
  have inv: "Schema.inv db_ok ?w"
    using reachable_ok [OF assms(2,1)] by (simp add: serverOk_def Schema.inv_def)
  have old: "managerGet ?m (w_sess ?w) k \<noteq> Some (SVClaims cl)" using assms(5) by simp
  consider (login) b where "q = LoginReq b" | (callback) "q = CallbackReq" | (select) b where "q = SelectTenantReq b"
    using no_new_claims [OF assms(1) _ assms(3) _ _ _ assms(4)] assms(5) by auto
  then show ?thesis
  proof cases
    case login
    with assms(3) have "run_state (LoginHandler (ap_env A) (ap_password A) r b) ?w = (resp, w)" by simp
    from login_adds [OF assms(1) inv this assms(4) old] login show ?thesis by auto
  next
    case callback
    with assms(3) have "run_state (CallbackHandler (ap_libs A) (ap_oidc A) r) ?w = (resp, w)" by simp
    from callback_adds [OF assms(1) inv _ this assms(4) old] callback show ?thesis by auto
  next
    case select
    with assms(3) have "run_state (SelectTenantHandler (ap_env A) (ap_oidc A) b) ?w = (resp, w)" by simp
    from select_adds [OF assms(1) this assms(4) old] select show ?thesis by auto
  qed
qed

section \<open>Witnesses\<close>

definition sampleApp :: "(string \<Rightarrow> session_value option) application" where
  "sampleApp = \<lparr>ap_env = sampleEnv, ap_libs = sampleLibs, ap_password = sampleHandler, ap_oidc = sampleOidc\<rparr>"

definition sampleServer :: "(string \<Rightarrow> session_value option) server" where
  "sampleServer = \<lparr>sv_tick = 0, sv_db = loginDb, sv_mail = [], sv_sessions = (\<lambda>_ _. None)\<rparr>"

lemma sampleApp_built: "wellBuilt sampleApp"
  unfolding wellBuilt_def
  by (rule conjI, rule exI [of _ True], rule exI [of _ samplePasswordConfig], rule exI [of _ "samplePasswordStore sampleEnv"],
      rule exI [of _ True], rule exI [of _ "''''"])
    (simp_all add: sampleApp_def sampleHandler_def sampleManager_good samplePasswordStore_new flip: inner_sample)

lemma sampleServer_world: "requestWorld sampleServer c = sampleWeb loginDb (\<lambda>_. None)"
  by (simp add: requestWorld_def sampleServer_def sampleWeb_def)

definition sampleLogin :: endpoint where
  "sampleLogin = LoginReq (Some \<lparr>lr_Email = ''a@x'', lr_Password = ''pw''\<rparr>)"

text \<open>The user logs in; the session then has the user's only tenant as its active one.\<close>

lemma sample_login_step:
  "\<exists>resp w cl. run_state (dispatch sampleApp sampleLogin (sampleRequest ''/login'')) (requestWorld sampleServer c) = (resp, w) \<and>
     w_sess w ''auth'' = Some (SVClaims cl) \<and> sc_Authenticated cl \<and> sc_UserID cl = 104 \<and> sc_ActiveTenantID cl = Some 102"
proof -
  let ?w = "sampleWeb loginDb (\<lambda>_. None)" and ?ip = "clientAddress (sampleRequest ''/login'')"
  obtain r w1 where a: "run_state (Authenticate sampleEnv webPS ''a@x'' ''pw'' ?ip) ?w = (r, w1)"
    by fastforce
  then obtain now where r: "r = Inr (refOf localSampleUser)"
    and d: "w_db w1 = touchLogin 104 now (addAttempt 104 (ipOf sampleEnv ?ip) True now loginDb)"
    using argon.run_Authenticate_healthy [OF _ _ _ a, where cfg = sampleHashing]
    by (auto simp: healthy_def sample_loginStep)
  have s: "w_sess w1 = (\<lambda>_. None)"
    using extra_run [OF argon.extra_hashing_operations(1) a] w_sess_more by fastforce
  have ms: "membershipsOf (w_db w1) 104 = [\<lparr>mb_TenantID = 102, mb_TenantName = ''Default'', mb_Role = ''member''\<rparr>]"
    by (simp add: d membershipsOf_def sqlListMemberships_def loginDb_def sampleDb_def toMembership_def touchLogin_def addAttempt_def)
  show ?thesis
    using a r s ms
    by (auto simp: sampleApp_def sampleLogin_def sampleServer_world LoginHandler_def sampleHandler_def
        passwordIdentityApi_inner identityApi_def run_ListMemberships_pool inner_sample claimsFor_def refOf_def)
qed

lemma sample_reachable:
  "\<exists>sv cl. reachable sampleApp sv \<and> sv_sessions sv 0 ''auth'' = Some (SVClaims cl) \<and>
     sc_Authenticated cl \<and> sc_UserID cl = 104 \<and> sc_ActiveTenantID cl = Some 102"
proof -
  obtain resp w cl where run: "run_state (dispatch sampleApp sampleLogin (sampleRequest ''/login'')) (requestWorld sampleServer 0) = (resp, w)"
    and cl: "w_sess w ''auth'' = Some (SVClaims cl)" "sc_Authenticated cl" "sc_UserID cl = 104" "sc_ActiveTenantID cl = Some 102"
    using sample_login_step by blast
  have "reachable sampleApp sampleServer"
    by (rule reach_start) (simp_all add: sampleServer_def sampleApp_def db_ok_loginDb)
  from reach_step [OF this step.request [OF run]] cl show ?thesis
    by (intro exI [of _ "afterRequest sampleServer 0 w"] exI [of _ cl]) simp
qed

lemma sampleApp_session [simp]: "oh_session (ap_oidc sampleApp) = sampleManager" "ap_env sampleApp = sampleEnv"
  "ap_password sampleApp = sampleHandler"
  by (simp_all add: sampleApp_def)

theorem active_tenant_is_members_witness:
  "\<exists>sv cl. reachable sampleApp sv \<and> sv_sessions sv 0 ''auth'' = Some (SVClaims cl) \<and> isMember (sv_db sv) 104 102"
proof -
  obtain sv cl where sv: "reachable sampleApp sv" "sv_sessions sv 0 ''auth'' = Some (SVClaims cl)"
    "sc_UserID cl = 104" "sc_ActiveTenantID cl = Some 102"
    using sample_reachable by blast
  with active_tenant_is_members [OF sampleApp_built sv(1) _ sv(4), of 0 "''auth''"] show ?thesis by auto
qed

theorem request_tenant_is_members_witness:
  "\<exists>sv x. reachable sampleApp sv \<and>
     run_state (RequireAuthenticated sampleEnv sampleManager sampleMiddleware
       (\<lambda>r. State_Monad.return (respond 200 NoBody)) (sampleRequest ''/home'')) (requestWorld sv 0) =
       (respond 200 NoBody, requestWorld sv 0) \<and>
     ActiveTenantID sampleEnv x = Some 102 \<and> tenantExists (sv_db sv) 102"
proof -
  obtain sv cl where sv: "reachable sampleApp sv" "sv_sessions sv 0 ''auth'' = Some (SVClaims cl)"
    "sc_Authenticated cl" "sc_UserID cl = 104" "sc_ActiveTenantID cl = Some 102"
    using sample_reachable by blast
  have "passes (middlewareDefaults sampleMiddleware) (rq_Path (sampleRequest ''/home''))
      (managerGet (oh_session (ap_oidc sampleApp)) (sv_sessions sv 0) (mw_SessionKey (middlewareDefaults sampleMiddleware))) cl"
    using sv by (simp add: passes_def sampleMiddleware_def orDefault_def auth_constants)
  from request_tenant_is_members [OF sampleApp_built sv(1) _ refl this sv(5),
      of "\<lambda>r. State_Monad.return (respond 200 NoBody)"] sv(1) sample_uuid_contract
  show ?thesis by auto
qed

theorem session_authenticated_by_witness:
  "\<exists>resp w cl ref w1. run_state (dispatch sampleApp sampleLogin (sampleRequest ''/login'')) (requestWorld sampleServer 7) = (resp, w) \<and>
     w_sess w ''auth'' = Some (SVClaims cl) \<and> rs_Status resp = 200 \<and>
     run_state (Authenticate sampleEnv webPS ''a@x'' ''pw'' (clientAddress (sampleRequest ''/login'')))
       (requestWorld sampleServer 7) = (Inr ref, w1) \<and> sc_UserID cl = ref_UserID ref"
proof -
  obtain resp w cl where run: "run_state (dispatch sampleApp sampleLogin (sampleRequest ''/login'')) (requestWorld sampleServer 7) = (resp, w)"
    and cl: "w_sess w ''auth'' = Some (SVClaims cl)"
    using sample_login_step by blast
  have "reachable sampleApp sampleServer"
    by (rule reach_start) (simp_all add: sampleServer_def db_ok_loginDb)
  from session_authenticated_by [OF sampleApp_built this run, of "''auth''" cl] run cl show ?thesis
    by (auto simp: sampleServer_def sampleLogin_def sampleHandler_def)
qed

end
