(* ===== verification/GoInt.thy ===== *)
theory GoInt
  imports Main
begin

text \<open>
  Go's signed 64-bit integers (\<open>int\<close> on the supported platforms, \<open>int64\<close>) as \<^typ>\<open>int\<close> with
  the wrap-around written out, and division truncated toward zero.
\<close>

definition wrap64 :: "int \<Rightarrow> int" where
  "wrap64 i = (i + 2 ^ 63) mod 2 ^ 64 - 2 ^ 63"

definition maxInt64 :: int where
  "maxInt64 = 2 ^ 63 - 1"

definition quotient :: "int \<Rightarrow> int \<Rightarrow> int" where
  "quotient a b = sgn a * sgn b * (\<bar>a\<bar> div \<bar>b\<bar>)"

lemma wrap64_id: "- (2 ^ 63) \<le> i \<Longrightarrow> i < 2 ^ 63 \<Longrightarrow> wrap64 i = i"
  by (simp add: wrap64_def)

lemma wrap64_over:
  assumes "2 ^ 63 \<le> i" and "i < 2 ^ 64"
  shows "wrap64 i = i - 2 ^ 64"
proof -
  have "(i + 2 ^ 63) mod 2 ^ 64 = (i + 2 ^ 63 - 2 ^ 64) mod 2 ^ 64"
    by (rule mod_pos_geq) (use assms in simp_all)
  also have "\<dots> = i + 2 ^ 63 - 2 ^ 64"
    by (rule mod_pos_pos_trivial) (use assms in simp_all)
  finally show ?thesis by (simp add: wrap64_def)
qed

lemma wrap64_range: "- (2 ^ 63) \<le> wrap64 i" "wrap64 i < 2 ^ 63"
proof -
  have "0 \<le> (i + 2 ^ 63) mod 2 ^ 64" "(i + 2 ^ 63) mod 2 ^ 64 < 2 ^ 64" by simp_all
  then show "- (2 ^ 63) \<le> wrap64 i" "wrap64 i < 2 ^ 63" by (simp_all add: wrap64_def)
qed

lemma quotient_nonneg: "0 \<le> a \<Longrightarrow> 0 < b \<Longrightarrow> quotient a b = a div b"
  by (cases "a = 0") (simp_all add: quotient_def)

end
