(* ===== verification/DbManager.thy ===== *)
theory DbManager
  imports Tenantctx GoInt "HOL-Library.AList" "HOL-Library.List_Lexorder" "HOL-Library.Char_ord"
begin

text \<open>
  \<open>db/db.go\<close>: the connection manager, the tenant hooks of the connection pool, the merging
  of migration sources into one flat file system, and the tracer that combines others.

  pgx and goose are parameters (\<open>pgx_libs\<close>): parsing a connection string, opening a pool,
  pinging it, and applying the migrations of a file system. An \<open>fs.FS\<close> of a migration source
  is given by what \<open>fs.ReadDir\<close> and \<open>fs.ReadFile\<close> return on it.
\<close>

section \<open>Files\<close>

text \<open>A source file system: the entries of a directory (name, is it a directory) and file contents.\<close>

record source_fs =
  sf_ReadDir :: "string \<Rightarrow> go_error + (string \<times> bool) list"
  sf_ReadFile :: "string \<Rightarrow> go_error + string"

record migration_source =
  ms_FS :: source_fs
  ms_Dir :: string

type_synonym file_map = "(string \<times> string) list"

text \<open>The body of the inner loop: one directory entry.\<close>

definition mergeEntry :: "migration_source \<Rightarrow> file_map \<Rightarrow> string \<times> bool \<Rightarrow> go_error + file_map" where
  "mergeEntry src files e =
     (let (name, isDir) = e
      in if isDir then Inr files
         else (let filePath = (if ms_Dir src \<noteq> ''.'' \<and> ms_Dir src \<noteq> '''' then ms_Dir src @ ''/'' @ name else name)
               in case sf_ReadFile (ms_FS src) filePath of
                    Inl err \<Rightarrow> Inl (Wrapped (''reading migration '' @ name) err)
                  | Inr data \<Rightarrow>
                      if map_of files name \<noteq> None
                      then Inl (ErrorString (''duplicate migration filename: '' @ name))
                      else Inr (files @ [(name, data)])))"

fun mergeEntries :: "migration_source \<Rightarrow> file_map \<Rightarrow> (string \<times> bool) list \<Rightarrow> go_error + file_map" where
  "mergeEntries src files [] = Inr files"
| "mergeEntries src files (e # es) =
     (case mergeEntry src files e of Inl err \<Rightarrow> Inl err | Inr files' \<Rightarrow> mergeEntries src files' es)"

fun mergeSources :: "file_map \<Rightarrow> migration_source list \<Rightarrow> go_error + file_map" where
  "mergeSources files [] = Inr files"
| "mergeSources files (src # srcs) =
     (case sf_ReadDir (ms_FS src) (ms_Dir src) of
        Inl err \<Rightarrow> Inl (Wrapped (''listing migrations in '' @ ms_Dir src) err)
      | Inr entries \<Rightarrow>
          (case mergeEntries src files entries of
             Inl err \<Rightarrow> Inl err
           | Inr files' \<Rightarrow> mergeSources files' srcs))"

text \<open>\<open>flatFS\<close>, its root directory and its files.\<close>

record flat_fs =
  ff_files :: file_map

record flat_entry =
  fe_name :: string
  fe_size :: nat

record flat_dir =
  fd_entries :: "flat_entry list"
  fd_pos :: int

record flat_file =
  fl_name :: string
  fl_data :: string
  fl_size :: nat

datatype fs_file = FlatDir flat_dir | FlatFile flat_file

definition mergeMigrationSources :: "migration_source list \<Rightarrow> go_error + flat_fs" where
  "mergeMigrationSources sources =
     (case mergeSources [] sources of Inl err \<Rightarrow> Inl err | Inr files \<Rightarrow> Inr \<lparr>ff_files = files\<rparr>)"

definition openRoot :: "flat_fs \<Rightarrow> flat_dir" where
  "openRoot f =
     \<lparr>fd_entries = map (\<lambda>n. \<lparr>fe_name = n, fe_size = length (the (map_of (ff_files f) n))\<rparr>)
                    (sort (map fst (ff_files f))),
      fd_pos = 0\<rparr>"

text \<open>None is \<open>fs.ErrNotExist\<close>.\<close>

definition flatOpen :: "flat_fs \<Rightarrow> string \<Rightarrow> fs_file option" where
  "flatOpen f name =
     (if name = ''.'' then Some (FlatDir (openRoot f))
      else (case map_of (ff_files f) name of
              None \<Rightarrow> None
            | Some data \<Rightarrow> Some (FlatFile \<lparr>fl_name = name, fl_data = data, fl_size = length data\<rparr>)))"

text \<open>\<open>Stat\<close>: name, size, mode bits and whether it is a directory. The modification time is zero.\<close>

definition fileInfo :: "fs_file \<Rightarrow> string \<times> nat \<times> nat \<times> bool" where
  "fileInfo f =
     (case f of
        FlatDir d \<Rightarrow> (''.'', 0, 365, True)
      | FlatFile x \<Rightarrow> (fl_name x, fl_size x, 292, False))"

text \<open>What a directory entry says of its file: never a directory, and the file's info.\<close>

definition entryIsDir :: "flat_entry \<Rightarrow> bool" where
  "entryIsDir e = False"

definition entryInfo :: "flat_entry \<Rightarrow> string \<times> nat \<times> nat \<times> bool" where
  "entryInfo e = (fe_name e, fe_size e, 292, False)"

text \<open>
  \<open>ReadDir\<close>. Go's \<open>int\<close> has 64 bits: \<open>d.pos + n\<close> wraps, and slicing to a negative end
  panics.
\<close>

datatype dir_result = DirEntries "flat_entry list" | DirEOF | DirPanic

definition readDir :: "flat_dir \<Rightarrow> int \<Rightarrow> dir_result \<times> flat_dir" where
  "readDir d n =
     (let len = int (length (fd_entries d)) in
      if len \<le> fd_pos d then (if n \<le> 0 then (DirEntries [], d) else (DirEOF, d))
      else if n \<le> 0 then (DirEntries (drop (nat (fd_pos d)) (fd_entries d)), d\<lparr>fd_pos := len\<rparr>)
      else (let e = wrap64 (fd_pos d + n);
                stop = (if len < e then len else e)
            in if stop < fd_pos d then (DirPanic, d)
               else (DirEntries (take (nat (stop - fd_pos d)) (drop (nat (fd_pos d)) (fd_entries d))),
                     d\<lparr>fd_pos := stop\<rparr>)))"

section \<open>Tenant hooks\<close>

text \<open>\<open>AdminContext\<close>; a nil context becomes the background context.\<close>

definition AdminContext :: "ctx option \<Rightarrow> ctx" where
  "AdminContext c = WithSystemTenant (case c of None \<Rightarrow> [] | Some x \<Rightarrow> x)"

definition isUndefinedFunctionError :: "go_error \<Rightarrow> bool" where
  "isUndefinedFunctionError err \<longleftrightarrow> asPgError err = Some ''42883''"

text \<open>
  A connection, by the tenant its database session is set to (empty: none). \<open>select
  set_tenant($1)\<close> answers with \<open>res\<close>: when it succeeds the session has the argument as its
  tenant, when it fails it has no effect.
\<close>

record conn =
  cn_tenant :: string

definition execSetTenant :: "go_error option \<Rightarrow> string \<Rightarrow> conn \<Rightarrow> conn" where
  "execSetTenant res tid c = (case res of None \<Rightarrow> c\<lparr>cn_tenant := tid\<rparr> | Some _ \<Rightarrow> c)"

definition beforeAcquire :: "ctx \<Rightarrow> go_error option \<Rightarrow> conn \<Rightarrow> bool \<times> conn" where
  "beforeAcquire x res c =
     (case TenantIDString x of
        None \<Rightarrow> (True, c)
      | Some tenantID \<Rightarrow>
          if tenantID = SystemTenant then (True, c)
          else (case res of
                  Some err \<Rightarrow> (isUndefinedFunctionError err, execSetTenant res tenantID c)
                | None \<Rightarrow> (True, execSetTenant res tenantID c)))"

definition afterRelease :: "go_error option \<Rightarrow> conn \<Rightarrow> bool \<times> conn" where
  "afterRelease res c =
     (case res of
        Some err \<Rightarrow> (isUndefinedFunctionError err, execSetTenant res '''' c)
      | None \<Rightarrow> (True, execSetTenant res '''' c))"

section \<open>Tracing\<close>

text \<open>
  A query tracer, over what it records in the context: \<open>TraceQueryStart\<close> returns the context
  the query runs in, \<open>TraceQueryEnd\<close> writes to a log.
\<close>

record 'e tracer =
  tr_Start :: "ctx \<Rightarrow> ctx"
  tr_End :: "ctx \<Rightarrow> 'e list \<Rightarrow> 'e list"

definition multiTracer :: "'e tracer list \<Rightarrow> 'e tracer" where
  "multiTracer tracers =
     \<lparr>tr_Start = fold tr_Start tracers,
      tr_End = (\<lambda>x. fold (\<lambda>t. tr_End t x) (rev tracers))\<rparr>"

record db_config =
  dbc_DatabaseURL :: string
  dbc_SearchPath :: string
  dbc_EnableSlogTracing :: bool
  dbc_OTELTracing :: bool

text \<open>The part of \<open>pgxpool.Config\<close> the manager sets.\<close>

record 'e pool_config =
  plc_RuntimeParams :: "(string \<times> string) list"
  plc_Tracer :: "'e tracer option"
  plc_Hooks :: bool

text \<open>\<open>slogTracer\<close> and \<open>otelTracer\<close> stand for the tracers of pgx-slog and otelpgx.\<close>

definition setupTracing ::
    "'e tracer \<Rightarrow> 'e tracer \<Rightarrow> 'e pool_config \<Rightarrow> db_config \<Rightarrow> 'e pool_config" where
  "setupTracing slogTracer otelTracer cfg dbCfg =
     (let tracers = (if dbc_EnableSlogTracing dbCfg then [slogTracer] else []) @
                    (if dbc_OTELTracing dbCfg then [otelTracer] else [])
      in if length tracers = 1 then cfg\<lparr>plc_Tracer := Some (tracers ! 0)\<rparr>
         else if 1 < length tracers then cfg\<lparr>plc_Tracer := Some (multiTracer tracers)\<rparr>
         else cfg)"

definition setupMultitenancy :: "'e pool_config \<Rightarrow> 'e pool_config" where
  "setupMultitenancy cfg = cfg\<lparr>plc_Hooks := True\<rparr>"

section \<open>The manager\<close>

text \<open>\<open>px_Ping\<close> and \<open>px_Up\<close> reach the database: they answer by the number of the call.\<close>

record ('p, 'e) pgx_libs =
  px_ParseConfig :: "string \<Rightarrow> go_error + 'e pool_config"
  px_slogTracer :: "'e tracer"
  px_otelTracer :: "'e tracer"
  px_New :: "'e pool_config \<Rightarrow> go_error + 'p"
  px_Ping :: "nat \<Rightarrow> 'p \<Rightarrow> ctx \<Rightarrow> go_error option"
  px_SetDialect :: "string \<Rightarrow> go_error option"
  px_Up :: "nat \<Rightarrow> 'p \<Rightarrow> flat_fs \<Rightarrow> ctx \<Rightarrow> go_error option"

record 'p db_manager =
  dbm_cfg :: db_config
  dbm_pool :: "'p option"
  dbm_migrationFiles :: "migration_source list"

definition NewManager :: "db_config \<Rightarrow> 'p db_manager" where
  "NewManager cfg = \<lparr>dbm_cfg = cfg, dbm_pool = None, dbm_migrationFiles = []\<rparr>"

definition AddMigrationSource :: "migration_source \<Rightarrow> 'p db_manager \<Rightarrow> 'p db_manager" where
  "AddMigrationSource source m =
     (let s = (if ms_Dir source = '''' then source\<lparr>ms_Dir := ''.''\<rparr> else source)
      in m\<lparr>dbm_migrationFiles := dbm_migrationFiles m @ [s]\<rparr>)"

definition Ping :: "('p, 'e) pgx_libs \<Rightarrow> nat \<Rightarrow> ctx \<Rightarrow> 'p db_manager \<Rightarrow> go_error option" where
  "Ping L t x m =
     (case dbm_pool m of
        None \<Rightarrow> Some (ErrorString ''database pool is not initialized'')
      | Some p \<Rightarrow> px_Ping L t p x)"

definition poolConfig :: "('p, 'e) pgx_libs \<Rightarrow> db_config \<Rightarrow> 'e pool_config \<Rightarrow> 'e pool_config" where
  "poolConfig L cfg parsed =
     (let c1 = (if dbc_EnableSlogTracing cfg \<or> dbc_OTELTracing cfg
                then setupTracing (px_slogTracer L) (px_otelTracer L) parsed cfg else parsed);
          c2 = (if dbc_SearchPath cfg \<noteq> ''''
                then c1\<lparr>plc_RuntimeParams := AList.update ''search_path'' (dbc_SearchPath cfg) (plc_RuntimeParams c1)\<rparr>
                else c1)
      in setupMultitenancy c2)"

definition Connect ::
    "('p, 'e) pgx_libs \<Rightarrow> nat \<Rightarrow> ctx option \<Rightarrow> 'p db_manager \<Rightarrow> go_error option \<times> 'p db_manager" where
  "Connect L t x m =
     (case dbm_pool m of
        Some _ \<Rightarrow> (None, m)
      | None \<Rightarrow>
          (case px_ParseConfig L (dbc_DatabaseURL (dbm_cfg m)) of
             Inl err \<Rightarrow> (Some err, m)
           | Inr parsedCfg \<Rightarrow>
               (case px_New L (poolConfig L (dbm_cfg m) parsedCfg) of
                  Inl err \<Rightarrow> (Some err, m)
                | Inr pool \<Rightarrow>
                    (let m' = m\<lparr>dbm_pool := Some pool\<rparr>
                     in (Ping L t (AdminContext x) m', m')))))"

definition EnableOTELTracing :: "'p db_manager \<Rightarrow> 'p db_manager" where
  "EnableOTELTracing m = m\<lparr>dbm_cfg := (dbm_cfg m)\<lparr>dbc_OTELTracing := True\<rparr>\<rparr>"

text \<open>Closing releases the pool; the manager keeps the closed pool.\<close>

definition Close :: "'p db_manager \<Rightarrow> go_error option \<times> 'p db_manager" where
  "Close m = (None, m)"

definition Pool :: "'p db_manager \<Rightarrow> 'p option" where
  "Pool m = dbm_pool m"

definition RunMigrations ::
    "('p, 'e) pgx_libs \<Rightarrow> nat \<Rightarrow> ctx option \<Rightarrow> 'p db_manager \<Rightarrow> go_error option" where
  "RunMigrations L t x m =
     (case dbm_pool m of
        None \<Rightarrow> Some (ErrorString ''database pool is not initialized'')
      | Some pool \<Rightarrow>
          if dbm_migrationFiles m = [] then None
          else (case px_SetDialect L ''postgres'' of
                  Some err \<Rightarrow> Some err
                | None \<Rightarrow>
                    (case mergeMigrationSources (dbm_migrationFiles m) of
                       Inl err \<Rightarrow> Some (Wrapped ''merging migration sources'' err)
                     | Inr merged \<Rightarrow> px_Up L t pool merged (AdminContext x))))"

section \<open>Merging\<close>

definition entryPath :: "migration_source \<Rightarrow> string \<Rightarrow> string" where
  "entryPath src name =
     (if ms_Dir src \<noteq> ''.'' \<and> ms_Dir src \<noteq> '''' then ms_Dir src @ ''/'' @ name else name)"

definition fileAt :: "migration_source \<Rightarrow> string \<Rightarrow> go_error + string" where
  "fileAt src name = sf_ReadFile (ms_FS src) (entryPath src name)"

text \<open>The plain files of a directory listing, and of a source.\<close>

definition plainFiles :: "(string \<times> bool) list \<Rightarrow> string list" where
  "plainFiles es = map fst (filter (\<lambda>e. \<not> snd e) es)"

definition listing :: "migration_source \<Rightarrow> string list" where
  "listing src = (case sf_ReadDir (ms_FS src) (ms_Dir src) of Inl _ \<Rightarrow> [] | Inr es \<Rightarrow> plainFiles es)"

lemma plainFiles_simps [simp]:
  "plainFiles [] = []" "plainFiles ((n, d) # es) = (if d then plainFiles es else n # plainFiles es)"
  by (simp_all add: plainFiles_def)

lemma mergeEntry_eq:
  "mergeEntry src files (n, d) =
     (if d then Inr files
      else (case fileAt src n of
              Inl err \<Rightarrow> Inl (Wrapped (''reading migration '' @ n) err)
            | Inr data \<Rightarrow> if n \<in> set (map fst files) then Inl (ErrorString (''duplicate migration filename: '' @ n))
                         else Inr (files @ [(n, data)])))"
  by (auto simp: mergeEntry_def fileAt_def entryPath_def Let_def map_of_eq_None_iff split: sum.splits)

lemma mergeEntries_ok:
  "distinct (map fst files) \<Longrightarrow>
     isOk (mergeEntries src files es) \<longleftrightarrow>
       (\<forall>n\<in>set (plainFiles es). isOk (fileAt src n)) \<and> distinct (map fst files @ plainFiles es)"
proof (induction es arbitrary: files)
  case (Cons e es)
  obtain n d where e: "e = (n, d)" by (cases e)
  show ?case
    using Cons.IH [of files] Cons.IH [of "files @ [(n, projr (fileAt src n))]"] Cons.prems
    by (cases "fileAt src n") (auto simp: e mergeEntry_eq)
qed simp

lemma mergeEntries_files:
  "mergeEntries src files es = Inr files' \<Longrightarrow>
     files' = files @ map (\<lambda>n. (n, projr (fileAt src n))) (plainFiles es)"
proof (induction es arbitrary: files)
  case (Cons e es)
  obtain n d where e: "e = (n, d)" by (cases e)
  with Cons.prems show ?case
    by (auto simp: e mergeEntry_eq split: sum.splits if_splits dest!: Cons.IH)
qed simp

definition sourceReadable :: "migration_source \<Rightarrow> bool" where
  "sourceReadable src \<longleftrightarrow> isOk (sf_ReadDir (ms_FS src) (ms_Dir src)) \<and> (\<forall>n\<in>set (listing src). isOk (fileAt src n))"

definition sourceFiles :: "migration_source \<Rightarrow> file_map" where
  "sourceFiles src = map (\<lambda>n. (n, projr (fileAt src n))) (listing src)"

lemma map_fst_sourceFiles [simp]: "map fst (sourceFiles src) = listing src"
  by (simp add: sourceFiles_def comp_def)

lemma mergeSources_ok:
  "distinct (map fst files) \<Longrightarrow>
     isOk (mergeSources files srcs) \<longleftrightarrow>
       (\<forall>src\<in>set srcs. sourceReadable src) \<and> distinct (map fst files @ concat (map listing srcs))"
proof (induction srcs arbitrary: files)
  case (Cons src srcs)
  show ?case
  proof (cases "sf_ReadDir (ms_FS src) (ms_Dir src)")
    case (Inl e)
    then show ?thesis by (simp add: sourceReadable_def)
  next
    case (Inr es)
    have l: "listing src = plainFiles es" by (simp add: listing_def Inr)
    show ?thesis
    proof (cases "mergeEntries src files es")
      case (Inl e)
      with mergeEntries_ok [OF Cons.prems, of src es] show ?thesis
        by (auto simp: Inr sourceReadable_def l)
    next
      case inr2: (Inr files')
      note f = mergeEntries_files [OF inr2]
      have ok: "\<forall>n\<in>set (plainFiles es). isOk (fileAt src n)" "distinct (map fst files @ plainFiles es)"
        using mergeEntries_ok [OF Cons.prems, of src es] inr2 by simp_all
      have fst': "map fst files' = map fst files @ listing src" by (simp add: f l comp_def)
      with ok l have "distinct (map fst files')" by simp
      from Cons.IH [OF this] ok inr2 show ?thesis
        by (simp add: Inr sourceReadable_def fst' l)
    qed
  qed
qed simp

lemma mergeSources_files:
  "mergeSources files srcs = Inr files' \<Longrightarrow> files' = files @ concat (map sourceFiles srcs)"
proof (induction srcs arbitrary: files)
  case (Cons src srcs)
  then obtain es files1 where es: "sf_ReadDir (ms_FS src) (ms_Dir src) = Inr es"
    and f1: "mergeEntries src files es = Inr files1" and m: "mergeSources files1 srcs = Inr files'"
    by (auto split: sum.splits)
  from Cons.IH [OF m] mergeEntries_files [OF f1] es show ?case
    by (simp add: sourceFiles_def listing_def)
qed simp

lemma isOk_mergeMigrationSources: "isOk (mergeMigrationSources srcs) \<longleftrightarrow> isOk (mergeSources [] srcs)"
  by (simp add: mergeMigrationSources_def split: sum.split)

lemma merge_ok:
  "isOk (mergeMigrationSources srcs) \<longleftrightarrow>
     (\<forall>src\<in>set srcs. sourceReadable src) \<and> distinct (concat (map listing srcs))"
  using mergeSources_ok [of "[]" srcs] by (simp add: isOk_mergeMigrationSources)

text \<open>The files of a merged file system: their names, and each with its source's content.\<close>

lemma merged_files:
  assumes "mergeMigrationSources srcs = Inr f"
  shows "ff_files f = concat (map sourceFiles srcs)" and "map fst (ff_files f) = concat (map listing srcs)"
proof -
  show f: "ff_files f = concat (map sourceFiles srcs)"
    using assms mergeSources_files by (fastforce simp: mergeMigrationSources_def split: sum.splits)
  show "map fst (ff_files f) = concat (map listing srcs)"
    by (simp add: f map_concat comp_def)
qed

lemma merged_lookup:
  assumes "mergeMigrationSources srcs = Inr f"
  shows "map_of (ff_files f) n = Some d \<longleftrightarrow> (\<exists>src\<in>set srcs. n \<in> set (listing src) \<and> fileAt src n = Inr d)"
proof -
  have read: "\<forall>src\<in>set srcs. sourceReadable src" and dist: "distinct (concat (map listing srcs))"
    using merge_ok [of srcs] assms by simp_all
  have val: "fileAt src n = Inr d \<longleftrightarrow> d = projr (fileAt src n)" if "src \<in> set srcs" "n \<in> set (listing src)" for src
  proof -
    have "isOk (fileAt src n)" using read that by (simp add: sourceReadable_def)
    then show ?thesis by (cases "fileAt src n") auto
  qed
  have "map_of (ff_files f) n = Some d \<longleftrightarrow> (n, d) \<in> set (ff_files f)"
    using dist by (simp add: merged_files [OF assms] map_of_eq_Some_iff flip: merged_files(2) [OF assms])
  also have "\<dots> \<longleftrightarrow> (\<exists>src\<in>set srcs. n \<in> set (listing src) \<and> d = projr (fileAt src n))"
    by (auto simp: merged_files(1) [OF assms] sourceFiles_def)
  also have "\<dots> \<longleftrightarrow> (\<exists>src\<in>set srcs. n \<in> set (listing src) \<and> fileAt src n = Inr d)"
    using val by blast
  finally show ?thesis .
qed

text \<open>Listing the root to the end gives its entries, whose names are the merged ones in order.\<close>

lemma readDir_root:
  "readDir (openRoot f) (- 1) =
     (DirEntries (fd_entries (openRoot f)), (openRoot f)\<lparr>fd_pos := int (length (fd_entries (openRoot f)))\<rparr>)"
  by (auto simp: readDir_def openRoot_def Let_def)

lemma root_names:
  "mergeMigrationSources srcs = Inr f \<Longrightarrow> map fe_name (fd_entries (openRoot f)) = sort (concat (map listing srcs))"
  by (simp add: openRoot_def merged_files(2) comp_def)

text \<open>
  C26 Merging succeeds exactly when every source can be listed, every plain file in it read, and
  no file name occurs twice among all sources; then the flat file system opens exactly those
  files with their contents, and its root lists them once each, by name in strictly
  ascending order, with their sizes.
\<close>

theorem merge_migration_sources:
  "(isOk (mergeMigrationSources srcs) \<longleftrightarrow>
      (\<forall>src\<in>set srcs. sourceReadable src) \<and> distinct (concat (map listing srcs))) \<and>
   (\<forall>f. mergeMigrationSources srcs = Inr f \<longrightarrow>
      (\<forall>n d. n \<noteq> ''.'' \<longrightarrow>
         (flatOpen f n = Some (FlatFile \<lparr>fl_name = n, fl_data = d, fl_size = length d\<rparr>) \<longleftrightarrow>
          (\<exists>src\<in>set srcs. n \<in> set (listing src) \<and> fileAt src n = Inr d))) \<and>
      (\<exists>es d. readDir (openRoot f) (- 1) = (DirEntries es, d) \<and>
         sorted_wrt (<) (map fe_name es) \<and> set (map fe_name es) = set (concat (map listing srcs)) \<and>
         (\<forall>e\<in>set es. \<forall>src\<in>set srcs. \<forall>c. fe_name e \<in> set (listing src) \<and> fileAt src (fe_name e) = Inr c \<longrightarrow>
            fe_size e = length c)))"
  (is "?ok \<and> (\<forall>f. ?P f)")
proof (intro conjI allI impI)
  show ?ok by (rule merge_ok)
  fix f
  assume run: "mergeMigrationSources srcs = Inr f"
  note look = merged_lookup [OF run]
  show "flatOpen f n = Some (FlatFile \<lparr>fl_name = n, fl_data = d, fl_size = length d\<rparr>) \<longleftrightarrow>
      (\<exists>src\<in>set srcs. n \<in> set (listing src) \<and> fileAt src n = Inr d)" if "n \<noteq> ''.''" for n d
    using that by (auto simp: flatOpen_def simp flip: look split: option.splits)
  have "sorted_wrt (<) (sort (concat (map listing srcs)))"
    using merge_ok [of srcs] run by (simp add: strict_sorted_iff)
  moreover have "fe_size e = length c"
    if "e \<in> set (fd_entries (openRoot f))" "src \<in> set srcs" "fe_name e \<in> set (listing src)" "fileAt src (fe_name e) = Inr c"
    for e src c
  proof -
    have "map_of (ff_files f) (fe_name e) = Some c" using that look by blast
    with that(1) show ?thesis by (auto simp: openRoot_def)
  qed
  ultimately show "\<exists>es d. readDir (openRoot f) (- 1) = (DirEntries es, d) \<and>
         sorted_wrt (<) (map fe_name es) \<and> set (map fe_name es) = set (concat (map listing srcs)) \<and>
         (\<forall>e\<in>set es. \<forall>src\<in>set srcs. \<forall>c. fe_name e \<in> set (listing src) \<and> fileAt src (fe_name e) = Inr c \<longrightarrow>
            fe_size e = length c)"
    by (intro exI [of _ "fd_entries (openRoot f)"]) (auto simp: readDir_root root_names [OF run])
qed

section \<open>Reading the directory in pages\<close>

function chunksOf :: "nat \<Rightarrow> 'a list \<Rightarrow> 'a list list" where
  "chunksOf k xs = (if k = 0 \<or> xs = [] then [] else take k xs # chunksOf k (drop k xs))"
  by pat_completeness auto
termination by (relation "measure (\<lambda>(k, xs). length xs)") auto

declare chunksOf.simps [simp del]

lemma chunksOf_Nil [simp]: "chunksOf k [] = []"
  by (simp add: chunksOf.simps)

lemma concat_chunksOf: "0 < k \<Longrightarrow> concat (chunksOf k xs) = xs"
  by (induction k xs rule: chunksOf.induct) (subst chunksOf.simps, simp)

text \<open>The answers to \<open>k\<close> calls of \<open>ReadDir(n)\<close>.\<close>

fun readPages :: "nat \<Rightarrow> int \<Rightarrow> flat_dir \<Rightarrow> dir_result list" where
  "readPages 0 n d = []"
| "readPages (Suc k) n d = (case readDir d n of (r, d') \<Rightarrow> r # readPages k n d')"

lemma readDir_page:
  assumes "0 < n" and "0 \<le> fd_pos d" and "fd_pos d \<le> int (length (fd_entries d))"
    and "int (length (fd_entries d)) + n < 2 ^ 63"
  shows "readDir d n =
     (if drop (nat (fd_pos d)) (fd_entries d) = [] then (DirEOF, d)
      else (DirEntries (take (nat n) (drop (nat (fd_pos d)) (fd_entries d))),
            d\<lparr>fd_pos := min (int (length (fd_entries d))) (fd_pos d + n)\<rparr>))"
proof -
  have "wrap64 (fd_pos d + n) = fd_pos d + n"
    using assms by (intro wrap64_id) auto
  moreover have "nat (fd_pos d + n) = nat (fd_pos d) + nat n"
    using assms by (simp add: nat_add_distrib)
  ultimately show ?thesis
    using assms by (auto simp: readDir_def Let_def min_def)
qed

lemma readPages_from:
  assumes "0 < n" and "0 \<le> fd_pos d" and "fd_pos d \<le> int (length (fd_entries d))"
    and "int (length (fd_entries d)) + n < 2 ^ 63"
  shows "readPages k n d =
     (let pages = chunksOf (nat n) (drop (nat (fd_pos d)) (fd_entries d))
      in take k (map DirEntries pages) @ replicate (k - length pages) DirEOF)"
  using assms
proof (induction k arbitrary: d)
  case (Suc k)
  let ?rest = "drop (nat (fd_pos d)) (fd_entries d)"
  show ?case
  proof (cases "?rest = []")
    case True
    with Suc.IH [OF Suc.prems] readDir_page [OF Suc.prems] show ?thesis by simp
  next
    case False
    let ?d = "d\<lparr>fd_pos := min (int (length (fd_entries d))) (fd_pos d + n)\<rparr>"
    have "drop (nat (fd_pos ?d)) (fd_entries ?d) = drop (nat n) ?rest"
      using Suc.prems by (auto simp: min_def nat_add_distrib add.commute)
    moreover have "chunksOf (nat n) ?rest = take (nat n) ?rest # chunksOf (nat n) (drop (nat n) ?rest)"
      using False Suc.prems(1) by (subst chunksOf.simps) simp
    moreover have "readPages k n ?d =
        (let pages = chunksOf (nat n) (drop (nat (fd_pos ?d)) (fd_entries ?d))
         in take k (map DirEntries pages) @ replicate (k - length pages) DirEOF)"
      by (rule Suc.IH) (use Suc.prems in auto)
    ultimately show ?thesis
      using readDir_page [OF Suc.prems] False by (simp add: Let_def)
  qed
qed simp

text \<open>
  C27 Reading the root in pages of \<open>n > 0\<close> entries: as long as the number of entries plus \<open>n\<close>
  fits in 63 bits, the calls return the consecutive pages of the directory, then end of
  file for ever, and no call panics. The pages together are the directory.
\<close>

theorem read_dir_pages:
  assumes "0 < n" and "int (length (ff_files f)) + n < 2 ^ 63"
  shows "readPages k n (openRoot f) =
      take k (map DirEntries (chunksOf (nat n) (fd_entries (openRoot f)))) @
      replicate (k - length (chunksOf (nat n) (fd_entries (openRoot f)))) DirEOF \<and>
    concat (chunksOf (nat n) (fd_entries (openRoot f))) = fd_entries (openRoot f)"
  using readPages_from [of n "openRoot f" k] assms concat_chunksOf [of "nat n"]
  by (simp add: openRoot_def Let_def)

text \<open>Beyond that bound the position wraps and the second call panics.\<close>

lemma read_dir_panics:
  assumes "0 < fd_pos d" and "fd_pos d < int (length (fd_entries d))" and "int (length (fd_entries d)) < 2 ^ 63"
    and "2 ^ 63 - fd_pos d \<le> n" and "n < 2 ^ 63"
  shows "fst (readDir d n) = DirPanic"
  using assms wrap64_over [of "fd_pos d + n"] by (simp add: readDir_def Let_def)

section \<open>The pool\<close>

text \<open>
  The pool calls the hooks as pgxpool documents it: \<open>BeforeAcquire\<close> on the connection it is
  about to hand out, idle or new, which it destroys if the hook returns false; \<open>AfterRelease\<close> on
  a released connection, kept only if the hook returns true. \<open>pl_defined\<close> tells whether the
  database has the function \<open>set_tenant\<close>; a held connection comes with the context it was
  acquired for and the value of \<open>pl_defined\<close> then.
\<close>

record pool_state =
  pl_defined :: bool
  pl_idle :: "conn list"
  pl_held :: "(ctx \<times> bool \<times> conn) list"

text \<open>The possible answers to \<open>select set_tenant($1)\<close>.\<close>

definition answers :: "bool \<Rightarrow> go_error option \<Rightarrow> bool" where
  "answers defd res \<longleftrightarrow>
     (case res of None \<Rightarrow> defd | Some e \<Rightarrow> isUndefinedFunctionError e \<longrightarrow> \<not> defd)"

text \<open>\<open>drops\<close>: may the function disappear again (a down migration)?\<close>

inductive pool_step :: "bool \<Rightarrow> pool_state \<Rightarrow> pool_state \<Rightarrow> bool" for drops where
  acquire_new: "answers (pl_defined p) res \<Longrightarrow> beforeAcquire x res \<lparr>cn_tenant = ''''\<rparr> = (True, c) \<Longrightarrow>
     pool_step drops p (p\<lparr>pl_held := (x, pl_defined p, c) # pl_held p\<rparr>)"
| acquire_idle: "answers (pl_defined p) res \<Longrightarrow> pl_idle p = xs @ c0 # ys \<Longrightarrow> beforeAcquire x res c0 = (True, c) \<Longrightarrow>
     pool_step drops p (p\<lparr>pl_idle := xs @ ys, pl_held := (x, pl_defined p, c) # pl_held p\<rparr>)"
| acquire_destroy: "answers (pl_defined p) res \<Longrightarrow> pl_idle p = xs @ c0 # ys \<Longrightarrow> beforeAcquire x res c0 = (False, c) \<Longrightarrow>
     pool_step drops p (p\<lparr>pl_idle := xs @ ys\<rparr>)"
| release: "answers (pl_defined p) res \<Longrightarrow> pl_held p = xs @ h # ys \<Longrightarrow> afterRelease res (snd (snd h)) = (ok, c) \<Longrightarrow>
     pool_step drops p (p\<lparr>pl_held := xs @ ys, pl_idle := (if ok then [c] else []) @ pl_idle p\<rparr>)"
| create_function: "pool_step drops p (p\<lparr>pl_defined := True\<rparr>)"
| drop_function: "drops \<Longrightarrow> pool_step drops p (p\<lparr>pl_defined := False\<rparr>)"

inductive pool_reachable :: "bool \<Rightarrow> pool_state \<Rightarrow> bool" for drops where
  pool_empty: "pool_reachable drops \<lparr>pl_defined = defd, pl_idle = [], pl_held = []\<rparr>"
| pool_next: "pool_reachable drops p \<Longrightarrow> pool_step drops p q \<Longrightarrow> pool_reachable drops q"

inductive_cases pool_stepE: "pool_step drops p q"

definition wantedTenant :: "ctx \<Rightarrow> string" where
  "wantedTenant x =
     (case TenantIDString x of None \<Rightarrow> '''' | Some t \<Rightarrow> if t = SystemTenant then '''' else t)"

definition poolOk :: "pool_state \<Rightarrow> bool" where
  "poolOk p \<longleftrightarrow> (\<forall>c\<in>set (pl_idle p). cn_tenant c = '''') \<and>
     (\<forall>h\<in>set (pl_held p). cn_tenant (snd (snd h)) = (if fst (snd h) then wantedTenant (fst h) else '''') \<and>
        (fst (snd h) \<longrightarrow> pl_defined p))"

lemma beforeAcquire_tenant:
  "answers defd res \<Longrightarrow> beforeAcquire x res c0 = (True, c) \<Longrightarrow> cn_tenant c0 = '''' \<Longrightarrow>
     cn_tenant c = (if defd then wantedTenant x else '''')"
  by (auto simp: answers_def beforeAcquire_def wantedTenant_def execSetTenant_def split: option.splits if_splits)

lemma afterRelease_tenant:
  "answers defd res \<Longrightarrow> afterRelease res c0 = (True, c) \<Longrightarrow> (\<not> defd \<longrightarrow> cn_tenant c0 = '''') \<Longrightarrow> cn_tenant c = ''''"
  by (auto simp: answers_def afterRelease_def execSetTenant_def split: option.splits)

lemma pool_step_ok:
  assumes "pool_step False p q" and "poolOk p"
  shows "poolOk q"
  using assms
proof (induction rule: pool_step.induct)
  case (acquire_new p res x c)
  from beforeAcquire_tenant [OF acquire_new(1,2)] acquire_new(3) show ?case by (auto simp: poolOk_def)
next
  case (acquire_idle p res xs c0 ys x c)
  from beforeAcquire_tenant [OF acquire_idle(1,3)] acquire_idle(2,4) show ?case by (auto simp: poolOk_def)
next
  case (release p res xs h ys ok c)
  have "ok \<Longrightarrow> cn_tenant c = ''''"
    using afterRelease_tenant [OF release(1)] release(2-4) by (auto simp: poolOk_def)
  with release(2,4) show ?case by (auto simp: poolOk_def)
qed (auto simp: poolOk_def)

text \<open>
  C25 Tenant isolation of the pool: as long as \<open>set_tenant\<close>, once created, is not dropped,
  an idle connection has no tenant, and a connection handed out for a context has the
  context's tenant, or none for the system tenant and for a context without tenant (and none
  if the function did not exist yet), whatever statements fail.
\<close>

theorem pool_tenant_isolation:
  assumes "pool_reachable False p"
  shows "(\<forall>c\<in>set (pl_idle p). cn_tenant c = '''') \<and>
    (\<forall>x defd c. (x, defd, c) \<in> set (pl_held p) \<longrightarrow> cn_tenant c = (if defd then wantedTenant x else ''''))"
proof -
  have "poolOk p"
    using assms
  proof (induction rule: pool_reachable.induct)
    case (pool_next p q)
    then show ?case using pool_step_ok by blast
  qed (simp add: poolOk_def)
  then show ?thesis by (force simp: poolOk_def)
qed
text \<open>
  When the function is dropped while a connection with a tenant is out, \<open>AfterRelease\<close> keeps the
  connection although it could not clear the tenant, and the next context without a tenant gets
  it.
\<close>

theorem pool_keeps_tenant_after_drop:
  "\<exists>p c. pool_reachable True p \<and> ([], False, c) \<in> set (pl_held p) \<and> cn_tenant c = ''t''"
proof -
  let ?x = "WithTenantIDString [] ''t''" and ?c = "\<lparr>cn_tenant = ''t''\<rparr>"
  let ?p = "\<lambda>d i h. \<lparr>pl_defined = d, pl_idle = i, pl_held = h\<rparr>"
  have "pool_reachable True (?p True [] [])" by (rule pool_empty)
  moreover have "pool_step True (?p True [] []) (?p True [] [(?x, True, ?c)])"
    using acquire_new [of "?p True [] []" None ?x ?c]
    by (simp add: answers_def beforeAcquire_def execSetTenant_def SystemTenant_def)
  moreover have "pool_step True (?p True [] [(?x, True, ?c)]) (?p False [] [(?x, True, ?c)])"
    using drop_function [of True "?p True [] [(?x, True, ?c)]"] by simp
  moreover have "pool_step True (?p False [] [(?x, True, ?c)]) (?p False [?c] [])"
    using release [of "?p False [] [(?x, True, ?c)]" "Some (PgError ''42883'')" "[]" "(?x, True, ?c)" "[]" True ?c]
    by (simp add: answers_def afterRelease_def execSetTenant_def isUndefinedFunctionError_def)
  moreover have "pool_step True (?p False [?c] []) (?p False [] [([], False, ?c)])"
    using acquire_idle [of "?p False [?c] []" "Some (PgError ''42883'')" "[]" ?c "[]" "[]" ?c]
    by (simp add: answers_def beforeAcquire_def isUndefinedFunctionError_def TenantIDString_def)
  ultimately have "pool_reachable True (?p False [] [([], False, ?c)])"
    using pool_next by blast
  then show ?thesis by (intro exI [of _ "?p False [] [([], False, ?c)]"] exI [of _ ?c]) simp
qed

section \<open>Connecting\<close>

text \<open>
  The pool is stored before it is pinged: after a failed ping the next call of \<open>Connect\<close> finds it
  and returns nil without trying again.
\<close>

theorem connect_retry_silent:
  assumes "Connect L t x m = (Some e, m')" and "dbm_pool m' \<noteq> None"
  shows "Connect L t' x' m' = (None, m')"
  using assms by (auto simp: Connect_def)

text \<open>Queries are bracketed: the tracers start in order and end in the reverse order.\<close>

lemma multiTracer_nested:
  "tr_Start (multiTracer (t # ts)) x = tr_Start (multiTracer ts) (tr_Start t x)"
  "tr_End (multiTracer (t # ts)) x log = tr_End t x (tr_End (multiTracer ts) x log)"
  by (simp_all add: multiTracer_def)

section \<open>Witnesses\<close>

definition sampleSource :: "string \<Rightarrow> string list \<Rightarrow> migration_source" where
  "sampleSource dir names =
     \<lparr>ms_FS = \<lparr>sf_ReadDir = (\<lambda>d. if d = dir then Inr ((''sub'', True) # map (\<lambda>n. (n, False)) names)
                                else Inl (ErrorString ''no such directory'')),
              sf_ReadFile = (\<lambda>p. Inr (''-- '' @ p))\<rparr>,
      ms_Dir = dir\<rparr>"

lemma sampleSource_simps [simp]:
  "listing (sampleSource dir names) = names" "sourceReadable (sampleSource dir names)"
  "fileAt (sampleSource ''.'' names) n = Inr (''-- '' @ n)"
proof -
  have "plainFiles (map (\<lambda>n. (n, False)) names) = names" by (induction names) auto
  then show "listing (sampleSource dir names) = names" by (simp add: listing_def sampleSource_def)
  then show "sourceReadable (sampleSource dir names)"
    by (simp add: sourceReadable_def fileAt_def) (simp add: sampleSource_def)
  show "fileAt (sampleSource ''.'' names) n = Inr (''-- '' @ n)"
    by (simp add: fileAt_def entryPath_def sampleSource_def)
qed

theorem merge_migration_sources_witness:
  "\<exists>f es d. mergeMigrationSources [sampleSource ''.'' [''b''], sampleSource ''sql'' [''a'']] = Inr f \<and>
     flatOpen f ''b'' = Some (FlatFile \<lparr>fl_name = ''b'', fl_data = ''-- b'', fl_size = 4\<rparr>) \<and>
     readDir (openRoot f) (- 1) = (DirEntries es, d) \<and> set (map fe_name es) = {''a'', ''b''} \<and>
     \<not> isOk (mergeMigrationSources [sampleSource ''.'' [''b''], sampleSource ''sql'' [''b'']])"
proof -
  have ok: "isOk (mergeMigrationSources [sampleSource ''.'' [''b''], sampleSource ''sql'' [''a'']])"
    and dup: "\<not> isOk (mergeMigrationSources [sampleSource ''.'' [''b''], sampleSource ''sql'' [''b'']])"
    using merge_migration_sources [of "[sampleSource ''.'' [''b''], sampleSource ''sql'' [''a'']]"]
      merge_migration_sources [of "[sampleSource ''.'' [''b''], sampleSource ''sql'' [''b'']]"] by simp_all
  then obtain f where f: "mergeMigrationSources [sampleSource ''.'' [''b''], sampleSource ''sql'' [''a'']] = Inr f"
    by (auto simp: isOk_def split: sum.splits)
  from merge_migration_sources [of "[sampleSource ''.'' [''b''], sampleSource ''sql'' [''a'']]"] f
  obtain es d where "readDir (openRoot f) (- 1) = (DirEntries es, d)" "set (map fe_name es) = {''b'', ''a''}"
    and "\<And>n c. n \<noteq> ''.'' \<Longrightarrow> flatOpen f n = Some (FlatFile \<lparr>fl_name = n, fl_data = c, fl_size = length c\<rparr>) \<longleftrightarrow>
          (\<exists>src\<in>set [sampleSource ''.'' [''b''], sampleSource ''sql'' [''a'']]. n \<in> set (listing src) \<and> fileAt src n = Inr c)"
    by auto
  moreover from this(3) [of "''b''" "''-- b''"]
  have "flatOpen f ''b'' = Some (FlatFile \<lparr>fl_name = ''b'', fl_data = ''-- b'', fl_size = 4\<rparr>)" by simp
  ultimately show ?thesis using f dup by (intro exI [of _ f] exI [of _ es] exI [of _ d]) auto
qed

theorem read_dir_pages_witness:
  "map (\<lambda>r. case r of DirEntries es \<Rightarrow> map fe_name es | _ \<Rightarrow> [])
     (readPages 3 2 (openRoot \<lparr>ff_files = [(''c'', ''''), (''a'', ''x''), (''b'', '''')]\<rparr>)) = [[''a'', ''b''], [''c''], []]"
proof -
  have s: "sort [''c'', ''a'', ''b''] = [''a'', ''b'', ''c'']" by code_simp
  show ?thesis
    using read_dir_pages [of 2 "\<lparr>ff_files = [(''c'', ''''), (''a'', ''x''), (''b'', '''')]\<rparr>" 3]
    by (simp add: openRoot_def s chunksOf.simps del: readPages.simps)
qed

theorem pool_tenant_isolation_witness:
  "\<exists>p c. pool_reachable False p \<and> pl_held p = [(WithTenantIDString [] ''t'', True, c)] \<and> cn_tenant c = ''t'' \<and>
     (\<forall>i\<in>set (pl_idle p). cn_tenant i = '''')"
proof -
  let ?x = "WithTenantIDString [] ''t''" and ?c = "\<lparr>cn_tenant = ''t''\<rparr>"
  let ?p = "\<lambda>h. \<lparr>pl_defined = True, pl_idle = [], pl_held = h\<rparr>"
  have "pool_step False (?p []) (?p [(?x, True, ?c)])"
    using acquire_new [of "?p []" None ?x ?c]
    by (simp add: answers_def beforeAcquire_def execSetTenant_def SystemTenant_def)
  from pool_next [OF pool_empty this] have r: "pool_reachable False (?p [(?x, True, ?c)])" .
  from pool_tenant_isolation [OF r] r show ?thesis
    by (intro exI [of _ "?p [(?x, True, ?c)]"] exI [of _ ?c]) (simp add: wantedTenant_def SystemTenant_def)
qed

end
