(* ===== verification/Openapi.thy ===== *)
theory Openapi
  imports Http GoInt
begin

text \<open>
  \<open>openapi/openapi.go\<close>: reading a request body up to a limit, the middleware that validates
  requests and responses against an OpenAPI document, and mounting generated handlers.

  libopenapi and its validator are parameters (\<open>validator_libs\<close>); validating a request
  consumes its body and leaves one for the next handler. A handler here gets the body's bytes
  beside the request and runs in a state of any type. What the middleware writes to the log
  (the messages of response violations) is returned beside the response.
\<close>

section \<open>Types and configuration\<close>

record error_detail =
  ed_Type :: string
  ed_Reason :: string

record error_payload =
  ep_Message :: string
  ep_Errors :: "error_detail list"

type_synonym error_encoder = "nat \<Rightarrow> error_payload \<Rightarrow> http_response"

record openapi_config =
  oac_ErrorEncoder :: "error_encoder option"
  oac_MaxRequestBodyBytes :: int

definition DefaultMaxRequestBodyBytes :: int where
  "DefaultMaxRequestBodyBytes = 2 ^ 20"

definition detailJson :: "error_detail \<Rightarrow> json" where
  "detailJson d = JObject (omitEmpty ''type'' (ed_Type d) @ omitEmpty ''reason'' (ed_Reason d))"

definition payloadJson :: "error_payload \<Rightarrow> json" where
  "payloadJson p =
     JObject ((''message'', JString (ep_Message p)) #
       (if ep_Errors p = [] then [] else [(''errors'', JArray (map detailJson (ep_Errors p)))]))"

definition defaultErrorEncoder :: error_encoder where
  "defaultErrorEncoder statusCode payload = jsonResponse statusCode (payloadJson payload)"

definition openapiDefaults :: "openapi_config \<Rightarrow> openapi_config" where
  "openapiDefaults c = c\<lparr>
     oac_ErrorEncoder := Some (case oac_ErrorEncoder c of None \<Rightarrow> defaultErrorEncoder | Some e \<Rightarrow> e),
     oac_MaxRequestBodyBytes :=
       (if oac_MaxRequestBodyBytes c \<le> 0 then DefaultMaxRequestBodyBytes else oac_MaxRequestBodyBytes c)\<rparr>"

definition encodeError :: "openapi_config \<Rightarrow> error_encoder" where
  "encodeError conf = (case oac_ErrorEncoder conf of None \<Rightarrow> defaultErrorEncoder | Some e \<Rightarrow> e)"

section \<open>Reading the body\<close>

text \<open>A reader: the bytes it yields, and the error it ends with (None: end of file).\<close>

record body_reader =
  br_data :: string
  br_err :: "go_error option"

text \<open>\<open>io.LimitReader\<close> stops after \<open>n\<close> bytes, \<open>io.ReadAll\<close> reads to the end.\<close>

definition limitReader :: "body_reader \<Rightarrow> int \<Rightarrow> body_reader" where
  "limitReader b n =
     (if n \<le> 0 then \<lparr>br_data = '''', br_err = None\<rparr>
      else if int (length (br_data b)) < n then b
      else \<lparr>br_data = take (nat n) (br_data b), br_err = None\<rparr>)"

definition readAll :: "body_reader \<Rightarrow> go_error + string" where
  "readAll b = (case br_err b of Some err \<Rightarrow> Inl err | None \<Rightarrow> Inr (br_data b))"

datatype read_error = RequestBodyTooLarge | ReadError go_error

definition readRequestBody :: "body_reader option \<Rightarrow> int \<Rightarrow> read_error + string" where
  "readRequestBody body limit =
     (case body of
        None \<Rightarrow> Inr ''''
      | Some b \<Rightarrow>
          (case readAll (limitReader b (wrap64 (limit + 1))) of
             Inl err \<Rightarrow> Inl (ReadError err)
           | Inr bodyBytes \<Rightarrow>
               if limit < int (length bodyBytes) then Inl RequestBodyTooLarge else Inr bodyBytes))"

section \<open>The validator\<close>

record schema_failure =
  svf_Reason :: string
  svf_Location :: string

record validation_error =
  ve_Message :: string
  ve_ValidationType :: string
  ve_SchemaValidationErrors :: "schema_failure list"

record ('d, 'v) validator_libs =
  vl_NewDocument :: "string \<Rightarrow> go_error + 'd"
  vl_NewValidator :: "'d \<Rightarrow> go_error list + 'v"
  vl_ValidateDocument :: "'v \<Rightarrow> validation_error list option"
  vl_ValidateHttpRequest :: "'v \<Rightarrow> http_request \<Rightarrow> string \<Rightarrow> bool \<times> validation_error list \<times> string"
  vl_ValidateHttpResponse :: "'v \<Rightarrow> http_request \<Rightarrow> http_response \<Rightarrow> bool \<times> validation_error list"
  vl_failureText :: "schema_failure \<Rightarrow> string"

datatype validator_panic =
    DocumentPanic go_error
  | ValidatorPanic "go_error list"
  | SpecInvalid "validation_error list"

type_synonym 'w body_handler = "http_request \<Rightarrow> string \<Rightarrow> ('w, http_response) state"
type_synonym 'w validating_handler =
  "http_request \<Rightarrow> body_reader option \<Rightarrow> ('w, http_response \<times> string list) state"

definition mapSchemaValidationErrors :: "('d, 'v) validator_libs \<Rightarrow> schema_failure list \<Rightarrow> string list" where
  "mapSchemaValidationErrors L errs = map (vl_failureText L) errs"

fun joinWith :: "string \<Rightarrow> string list \<Rightarrow> string" where
  "joinWith sep [] = ''''"
| "joinWith sep [x] = x"
| "joinWith sep (x # xs) = x @ sep @ joinWith sep xs"

definition errorDetails :: "('d, 'v) validator_libs \<Rightarrow> validation_error list \<Rightarrow> error_detail list" where
  "errorDetails L errs =
     map (\<lambda>e. \<lparr>ed_Type = ve_ValidationType e,
               ed_Reason = (if ve_SchemaValidationErrors e = [] then ve_Message e
                            else joinWith ''; '' (mapSchemaValidationErrors L (ve_SchemaValidationErrors e)))\<rparr>) errs"

text \<open>The one violation of the OpenAPI schema that is tolerated.\<close>

definition knownWarning :: "validation_error list \<Rightarrow> bool" where
  "knownWarning specErrs \<longleftrightarrow>
     (case specErrs of
        [e] \<Rightarrow> ve_ValidationType e = ''schema'' \<and>
               (case ve_SchemaValidationErrors e of
                  [s] \<Rightarrow> svf_Reason s = ''additional properties '' @ [CHR 0x27] @ ''responses'' @ [CHR 0x27] @ '' not allowed''
                | _ \<Rightarrow> False)
      | _ \<Rightarrow> False)"

definition validatorHandler ::
    "('d, 'v) validator_libs \<Rightarrow> 'v \<Rightarrow> openapi_config \<Rightarrow> 'w body_handler \<Rightarrow> 'w validating_handler" where
  "validatorHandler L v conf next r body =
     (case readRequestBody body (oac_MaxRequestBodyBytes conf) of
        Inl RequestBodyTooLarge \<Rightarrow>
          State_Monad.return (encodeError conf 413 \<lparr>ep_Message = ''Request body too large'', ep_Errors = []\<rparr>, [])
      | Inl (ReadError err) \<Rightarrow>
          State_Monad.return (encodeError conf 400 \<lparr>ep_Message = ''Invalid request body'', ep_Errors = []\<rparr>, [])
      | Inr bodyBytes \<Rightarrow>
          (let (valid, errs, rest) = vl_ValidateHttpRequest L v r bodyBytes
           in if \<not> valid
              then State_Monad.return
                     (encodeError conf 400 \<lparr>ep_Message = ''Invalid request'', ep_Errors = errorDetails L errs\<rparr>, [])
              else do {
                resp \<leftarrow> next r rest;
                let statusCode = (if rs_Status resp = 0 then 200 else rs_Status resp);
                let (ok, responseErrs) = vl_ValidateHttpResponse L v r (resp\<lparr>rs_Status := statusCode\<rparr>);
                State_Monad.return (resp, if ok then [] else map ve_Message responseErrs) }))"

definition Validator ::
    "('d, 'v) validator_libs \<Rightarrow> string \<Rightarrow> openapi_config \<Rightarrow>
     validator_panic + ('w body_handler \<Rightarrow> 'w validating_handler)" where
  "Validator L spec cfg =
     (let conf = openapiDefaults cfg
      in case vl_NewDocument L spec of
           Inl err \<Rightarrow> Inl (DocumentPanic err)
         | Inr document \<Rightarrow>
             (case vl_NewValidator L document of
                Inl errs \<Rightarrow> Inl (ValidatorPanic errs)
              | Inr v \<Rightarrow>
                  (case vl_ValidateDocument L v of
                     None \<Rightarrow> Inr (validatorHandler L v conf)
                   | Some specErrs \<Rightarrow>
                       if knownWarning specErrs then Inr (validatorHandler L v conf)
                       else Inl (SpecInvalid specErrs))))"

section \<open>Mounting\<close>

text \<open>
  A chi router as the list of its routes, each with the handler that serves it; a middleware
  that a group uses wraps the handlers registered in the group, the first one outermost.
\<close>

type_synonym 'h routes = "((string \<times> string) \<times> 'h) list"

definition wrapAll :: "('h \<Rightarrow> 'h) list \<Rightarrow> 'h \<Rightarrow> 'h" where
  "wrapAll mws h = foldr (\<lambda>mw k. mw k) mws h"

definition MountChi :: "'h routes \<Rightarrow> 'a \<Rightarrow> ('a \<Rightarrow> 'h routes) \<Rightarrow> ('h \<Rightarrow> 'h) list \<Rightarrow> 'h routes" where
  "MountChi r handler register middlewares =
     (if middlewares = [] then r @ register handler
      else r @ map (\<lambda>(p, h). (p, wrapAll middlewares h)) (register handler))"

section \<open>The limit\<close>

lemma readRequestBody_nil [simp]: "readRequestBody None limit = Inr ''''"
  by (simp add: readRequestBody_def)

lemma readRequestBody_limit:
  assumes "0 < limit" and "limit < maxInt64"
  shows "readRequestBody (Some b) limit =
     (if limit < int (length (br_data b)) then Inl RequestBodyTooLarge
      else case br_err b of Some err \<Rightarrow> Inl (ReadError err) | None \<Rightarrow> Inr (br_data b))"
proof -
  have "wrap64 (limit + 1) = limit + 1"
    by (rule wrap64_id) (use assms in \<open>simp_all add: maxInt64_def\<close>)
  with assms show ?thesis
    by (cases "br_err b") (auto simp: readRequestBody_def limitReader_def readAll_def)
qed

text \<open>With the greatest limit, \<open>limit + 1\<close> wraps and nothing is read.\<close>

lemma readRequestBody_max: "readRequestBody (Some b) maxInt64 = Inr ''''"
proof -
  have "wrap64 (maxInt64 + 1) = - (2 ^ 63)"
    by (simp add: wrap64_def maxInt64_def)
  then show ?thesis
    by (simp add: readRequestBody_def limitReader_def readAll_def maxInt64_def)
qed

lemma readRequestBody_bound: "0 \<le> limit \<Longrightarrow> readRequestBody body limit = Inr s \<Longrightarrow> int (length s) \<le> limit"
  by (auto simp: readRequestBody_def split: option.splits sum.splits if_splits)

text \<open>
  C28 Reading a request body of a server whose limit is positive and below the greatest 64-bit
  integer: a body of at most \<open>limit\<close> bytes that is read without error is returned whole; a
  longer one is refused as too large, whatever follows the first \<open>limit + 1\<close> bytes; a read
  error within the limit is reported. No more than \<open>limit\<close> bytes are ever returned, for any
  limit. With the greatest limit the body is silently read as empty.
\<close>

theorem read_request_body:
  "(0 < limit \<and> limit < maxInt64 \<longrightarrow>
      (readRequestBody (Some b) limit = Inr s \<longleftrightarrow> s = br_data b \<and> int (length s) \<le> limit \<and> br_err b = None) \<and>
      (readRequestBody (Some b) limit = Inl RequestBodyTooLarge \<longleftrightarrow> limit < int (length (br_data b))) \<and>
      (readRequestBody (Some b) limit = Inl (ReadError e) \<longleftrightarrow> int (length (br_data b)) \<le> limit \<and> br_err b = Some e)) \<and>
   (0 \<le> limit \<and> readRequestBody body limit = Inr s \<longrightarrow> int (length s) \<le> limit) \<and>
   readRequestBody (Some b) maxInt64 = Inr ''''"
  using readRequestBody_bound [of limit body s] readRequestBody_max [of b]
  by (cases "br_err b") (auto simp: readRequestBody_limit)

theorem read_request_body_witness:
  "readRequestBody (Some \<lparr>br_data = ''hello'', br_err = None\<rparr>) 5 = Inr ''hello'' \<and>
   readRequestBody (Some \<lparr>br_data = ''hello!'', br_err = None\<rparr>) 5 = Inl RequestBodyTooLarge"
  using read_request_body [of 5 "\<lparr>br_data = ''hello'', br_err = None\<rparr>" "''hello''" undefined]
    read_request_body [of 5 "\<lparr>br_data = ''hello!'', br_err = None\<rparr>" "''hello''" undefined]
  by (simp add: maxInt64_def)

section \<open>The middleware\<close>

lemma openapiDefaults_encode: "oac_ErrorEncoder (openapiDefaults cfg) = Some (encodeError cfg)"
  by (simp add: openapiDefaults_def encodeError_def split: option.split)

lemma encodeError_defaults [simp]: "encodeError (openapiDefaults cfg) = encodeError cfg"
  by (simp add: openapiDefaults_encode encodeError_def)

text \<open>A limit of the configuration is positive after the defaults.\<close>

lemma openapiDefaults_limit: "0 < oac_MaxRequestBodyBytes (openapiDefaults cfg)"
  by (simp add: openapiDefaults_def DefaultMaxRequestBodyBytes_def)

lemma Validator_cases:
  assumes "Validator L spec cfg = Inr mw"
  obtains d v where "vl_NewDocument L spec = Inr d" and "vl_NewValidator L d = Inr v"
    and "case vl_ValidateDocument L v of None \<Rightarrow> True | Some errs \<Rightarrow> knownWarning errs"
    and "mw = validatorHandler L v (openapiDefaults cfg)"
  using assms by (auto simp: Validator_def Let_def split: sum.splits option.splits if_splits)

text \<open>
  What the middleware relies on of the validator: validating a request leaves a body that
  reads the same bytes.
\<close>

definition validator_contract :: "('d, 'v) validator_libs \<Rightarrow> bool" where
  "validator_contract L \<longleftrightarrow> (\<forall>v r b. snd (snd (vl_ValidateHttpRequest L v r b)) = b)"

text \<open>What is refused, with the status and the payload of the answer.\<close>

definition refusal ::
    "('d, 'v) validator_libs \<Rightarrow> 'v \<Rightarrow> int \<Rightarrow> http_request \<Rightarrow> body_reader \<Rightarrow> (nat \<times> error_payload) option" where
  "refusal L v limit r b =
     (if limit < int (length (br_data b)) then Some (413, \<lparr>ep_Message = ''Request body too large'', ep_Errors = []\<rparr>)
      else if br_err b \<noteq> None then Some (400, \<lparr>ep_Message = ''Invalid request body'', ep_Errors = []\<rparr>)
      else (case vl_ValidateHttpRequest L v r (br_data b) of
              (False, errs, _) \<Rightarrow> Some (400, \<lparr>ep_Message = ''Invalid request'', ep_Errors = errorDetails L errs\<rparr>)
            | (True, _) \<Rightarrow> None))"

text \<open>
  C29 The validating middleware, built for a document that the library accepts and a limit
  below the greatest 64-bit integer: a request whose body is within the limit, is read without
  error and is accepted by the validator reaches the next handler with its body unchanged, and
  the client gets the next handler's response even if it violates the document (that is only
  logged); every other request is answered by the encoder with 413 or 400, the next handler
  has no influence, and nothing changes.
\<close>

theorem validator_gate:
  assumes "validator_contract L" and "Validator L spec cfg = Inr mw"
    and "oac_MaxRequestBodyBytes cfg < maxInt64"
  shows "\<exists>v. (\<exists>d. vl_NewDocument L spec = Inr d \<and> vl_NewValidator L d = Inr v) \<and>
     (let limit = oac_MaxRequestBodyBytes (openapiDefaults cfg) in
      case refusal L v limit r b of
        None \<Rightarrow> (\<exists>logged. run_state (mw next r (Some b)) w =
                  (let (resp, w') = run_state (next r (br_data b)) w in ((resp, logged resp), w')))
      | Some (status, payload) \<Rightarrow> status \<in> {400, 413} \<and>
          (\<forall>next'. run_state (mw next' r (Some b)) w = ((encodeError cfg status payload, []), w)))"
  using assms(2)
proof (rule Validator_cases)
  fix d v
  assume v: "vl_NewDocument L spec = Inr d" "vl_NewValidator L d = Inr v"
    and mw: "mw = validatorHandler L v (openapiDefaults cfg)"
  define limit where "limit = oac_MaxRequestBodyBytes (openapiDefaults cfg)"
  have "limit < maxInt64"
    using assms(3) by (simp add: limit_def openapiDefaults_def DefaultMaxRequestBodyBytes_def maxInt64_def)
  moreover have "0 < limit" by (simp add: limit_def openapiDefaults_limit)
  ultimately have read: "readRequestBody (Some b) limit =
     (if limit < int (length (br_data b)) then Inl RequestBodyTooLarge
      else case br_err b of Some err \<Rightarrow> Inl (ReadError err) | None \<Rightarrow> Inr (br_data b))"
    by (simp add: readRequestBody_limit)
  let ?req = "vl_ValidateHttpRequest L v r (br_data b)"
  have rest: "snd (snd ?req) = br_data b"
    using assms(1) by (simp add: validator_contract_def)
  have "case refusal L v limit r b of
        None \<Rightarrow> (\<exists>logged. run_state (mw next r (Some b)) w =
                  (let (resp, w') = run_state (next r (br_data b)) w in ((resp, logged resp), w')))
      | Some (status, payload) \<Rightarrow> status \<in> {400, 413} \<and>
          (\<forall>next'. run_state (mw next' r (Some b)) w = ((encodeError cfg status payload, []), w))"
  proof (cases "refusal L v limit r b")
    case None
    then obtain errs where ok: "\<not> limit < int (length (br_data b))" "br_err b = None" "?req = (True, errs, br_data b)"
      using rest by (auto simp: refusal_def split: if_splits prod.splits bool.splits)
    define logged where "logged resp =
       (let (ok, errs) = vl_ValidateHttpResponse L v r
              (resp\<lparr>rs_Status := if rs_Status resp = 0 then 200 else rs_Status resp\<rparr>)
        in if ok then [] else map ve_Message errs)" for resp
    have "run_state (mw next r (Some b)) w =
        (let (resp, w') = run_state (next r (br_data b)) w in ((resp, logged resp), w'))"
      by (simp add: mw validatorHandler_def read ok logged_def Let_def flip: limit_def split: prod.split)
    then show ?thesis using None by auto
  next
    case (Some p)
    then show ?thesis
      by (auto simp: refusal_def mw validatorHandler_def read simp flip: limit_def split: if_splits prod.splits bool.splits)
  qed
  with v show ?thesis by (auto simp: limit_def Let_def)
qed

text \<open>A validator that accepts the documents with a title and the requests with a body.\<close>

definition sampleValidator :: "(string, string) validator_libs" where
  "sampleValidator =
     \<lparr>vl_NewDocument = Inr, vl_NewValidator = Inr, vl_ValidateDocument = (\<lambda>_. None),
      vl_ValidateHttpRequest = (\<lambda>v r b. (b \<noteq> '''', [], b)), vl_ValidateHttpResponse = (\<lambda>v r resp. (True, [])),
      vl_failureText = svf_Reason\<rparr>"

lemma sample_validator_contract: "validator_contract sampleValidator"
  by (simp add: validator_contract_def sampleValidator_def)

definition sampleUpload :: http_request where
  "sampleUpload = \<lparr>rq_Method = ''POST'', rq_Path = ''/upload'', rq_Query = (\<lambda>_. ''''),
     rq_Header = (\<lambda>_. ''''), rq_Cookies = [], rq_RemoteAddr = '''', rq_Host = '''', rq_Context = []\<rparr>"

theorem validator_gate_witness:
  "\<exists>mw resp. Validator sampleValidator ''openapi'' \<lparr>oac_ErrorEncoder = None, oac_MaxRequestBodyBytes = 3\<rparr> = Inr mw \<and>
     fst (run_state (mw (\<lambda>r b. State_Monad.return (respond 204 NoBody))
         sampleUpload (Some \<lparr>br_data = ''hello'', br_err = None\<rparr>)) ()) =
       (resp, []) \<and> rs_Status resp = 413"
proof -
  let ?cfg = "\<lparr>oac_ErrorEncoder = None, oac_MaxRequestBodyBytes = 3\<rparr>"
  let ?mw = "validatorHandler sampleValidator ''openapi'' (openapiDefaults ?cfg)"
  have mw: "Validator sampleValidator ''openapi'' ?cfg = Inr ?mw"
    by (simp add: Validator_def sampleValidator_def Let_def)
  then show ?thesis
    using validator_gate [OF sample_validator_contract mw, of "\<lambda>r b. State_Monad.return (respond 204 NoBody)" sampleUpload
        "\<lparr>br_data = ''hello'', br_err = None\<rparr>" "()"]
    by (auto simp: maxInt64_def openapiDefaults_def refusal_def encodeError_def defaultErrorEncoder_def Let_def)
qed

end
