(* ===== verification/Observability.thy ===== *)
theory Observability
  imports Session GoInt
begin

text \<open>
  \<open>observability/otel.go\<close> and \<open>observability/middleware.go\<close>: the OpenTelemetry configuration
  and set-up, the tracing and metrics middleware, request ids, and the correlation and audit
  middleware.

  Telemetry is a list of what was recorded, beside the world of the request: a handler under
  observation runs in the state \<open>'s web \<times> telemetry\<close>. The OpenTelemetry SDK and chi's route
  context are parameters (\<open>otel_libs\<close>). A float64 is its IEEE 754 bit pattern. Creating an
  exporter is a call that succeeds or fails; a provider is what it was built from.
\<close>

section \<open>Configuration\<close>

record otel_config =
  otc_Enabled :: bool
  otc_EnableTracing :: "bool option"
  otc_EnableMetrics :: "bool option"
  otc_ServiceName :: string
  otc_ExporterURL :: string
  otc_SampleRate :: "64 word option"
  otc_Insecure :: bool
  otc_ShutdownTimeout :: int

text \<open>\<open>1.0\<close> as a float64.\<close>

definition floatOne :: "64 word" where
  "floatOne = 0x3FF0000000000000"

definition otelDefaults :: "otel_config \<Rightarrow> otel_config" where
  "otelDefaults c = c\<lparr>
     otc_ServiceName := orDefault (otc_ServiceName c) ''gotchi'',
     otc_ExporterURL := orDefault (otc_ExporterURL c) ''localhost:4317'',
     otc_SampleRate := (case otc_SampleRate c of None \<Rightarrow> Some floatOne | Some x \<Rightarrow> Some x),
     otc_ShutdownTimeout := (if otc_ShutdownTimeout c = 0 then 5 * second else otc_ShutdownTimeout c),
     otc_EnableTracing := (case otc_EnableTracing c of None \<Rightarrow> Some True | Some b \<Rightarrow> Some b),
     otc_EnableMetrics := (case otc_EnableMetrics c of None \<Rightarrow> Some True | Some b \<Rightarrow> Some b)\<rparr>"

definition TracingEnabled :: "otel_config \<Rightarrow> bool" where
  "TracingEnabled c \<longleftrightarrow> otc_Enabled c \<and> otc_EnableTracing c \<noteq> None \<and> the (otc_EnableTracing c)"

definition MetricsEnabled :: "otel_config \<Rightarrow> bool" where
  "MetricsEnabled c \<longleftrightarrow> otc_Enabled c \<and> otc_EnableMetrics c \<noteq> None \<and> the (otc_EnableMetrics c)"

section \<open>Set-up\<close>

record otel_libs =
  tl_NewResource :: "string \<Rightarrow> go_error option"
  tl_NewTraceExporter :: "string \<Rightarrow> bool \<Rightarrow> go_error option"
  tl_NewMetricExporter :: "string \<Rightarrow> bool \<Rightarrow> go_error option"
  tl_ShutdownTracer :: "ctx \<Rightarrow> go_error option"
  tl_ShutdownMeter :: "ctx \<Rightarrow> go_error option"
  tl_Extract :: "(string \<Rightarrow> string) \<Rightarrow> ctx \<Rightarrow> ctx"
  tl_Start :: "ctx \<Rightarrow> string \<Rightarrow> ctx"
  tl_RoutePattern :: "http_request \<Rightarrow> string option"
  tl_NewHistogram :: "string \<Rightarrow> go_error option"
  tl_NewCounter :: "string \<Rightarrow> go_error option"

record tracer_provider =
  tp_Service :: string
  tp_Sampler :: "64 word"
  tp_Endpoint :: string
  tp_Insecure :: bool

record meter_provider =
  mp_Service :: string
  mp_Endpoint :: string
  mp_Insecure :: bool

text \<open>The SDK's global providers and propagator.\<close>

record otel_globals =
  og_TracerProvider :: "tracer_provider option"
  og_MeterProvider :: "meter_provider option"
  og_Propagators :: "string list"

text \<open>The joined errors of both shutdowns; the empty list is nil.\<close>

definition otelShutdown :: "otel_libs \<Rightarrow> ctx \<Rightarrow> go_error list" where
  "otelShutdown L c = List.map_filter id [tl_ShutdownTracer L c, tl_ShutdownMeter L c]"

definition SetupOTEL ::
    "otel_libs \<Rightarrow> otel_config \<Rightarrow> otel_globals \<Rightarrow> (go_error + (ctx \<Rightarrow> go_error list)) \<times> otel_globals" where
  "SetupOTEL L config g =
     (let cfg = otelDefaults config
      in case tl_NewResource L (otc_ServiceName cfg) of
           Some err \<Rightarrow> (Inl (Wrapped ''creating OTEL resource'' err), g)
         | None \<Rightarrow>
             (case tl_NewTraceExporter L (otc_ExporterURL cfg) (otc_Insecure cfg) of
                Some err \<Rightarrow> (Inl (Wrapped ''creating OTLP trace exporter'' err), g)
              | None \<Rightarrow>
                  (let g1 = g\<lparr>og_TracerProvider := Some
                         \<lparr>tp_Service = otc_ServiceName cfg, tp_Sampler = the (otc_SampleRate cfg),
                          tp_Endpoint = otc_ExporterURL cfg, tp_Insecure = otc_Insecure cfg\<rparr>\<rparr>
                   in case tl_NewMetricExporter L (otc_ExporterURL cfg) (otc_Insecure cfg) of
                        Some err \<Rightarrow> (Inl (Wrapped ''creating OTLP metric exporter'' err), g1)
                      | None \<Rightarrow>
                          (Inr (otelShutdown L),
                           g1\<lparr>og_MeterProvider := Some
                                \<lparr>mp_Service = otc_ServiceName cfg, mp_Endpoint = otc_ExporterURL cfg,
                                 mp_Insecure = otc_Insecure cfg\<rparr>,
                              og_Propagators := [''tracecontext'', ''baggage'']\<rparr>))))"

section \<open>Request ids\<close>

definition RequestID :: "ctx \<Rightarrow> string option" where
  "RequestID c =
     (case ctxValue c RequestIDContextKey of
        Some (CtxString v) \<Rightarrow> if v = '''' then None else Some v
      | _ \<Rightarrow> None)"

definition WithRequestID :: "ctx \<Rightarrow> string \<Rightarrow> ctx" where
  "WithRequestID c requestID = withValue c RequestIDContextKey (CtxString requestID)"

section \<open>Recording\<close>

record audit_entry =
  au_RequestID :: string
  au_Method :: string
  au_Path :: string
  au_Status :: nat
  au_DurationMs :: int
  au_UserID :: "string option"
  au_TenantID :: "string option"

record span =
  sp_Name :: string
  sp_Parent :: ctx
  sp_Method :: string
  sp_Path :: string
  sp_Host :: string
  sp_Route :: "string option"
  sp_Status :: nat
  sp_Error :: bool

datatype metric =
    DurationMetric int string nat "string option"
  | CountMetric int string nat "string option"

record telemetry =
  tm_audit :: "audit_entry list"
  tm_spans :: "span list"
  tm_metrics :: "metric list"

type_synonym ('s, 'a) observed_io = "('s web \<times> telemetry, 'a) state"
type_synonym 's observed_handler = "http_request \<Rightarrow> ('s, http_response) observed_io"

text \<open>An action of the request's world, and one that records.\<close>

definition observed :: "('s, 'a) web_io \<Rightarrow> ('s, 'a) observed_io" where
  "observed m = State_Monad.State (\<lambda>(w, t). case run_state m w of (x, w') \<Rightarrow> (x, (w', t)))"

definition emit :: "(telemetry \<Rightarrow> telemetry) \<Rightarrow> ('s, unit) observed_io" where
  "emit f = State_Monad.update (\<lambda>(w, t). (w, f t))"

lemma run_observed [simp]:
  "run_state (observed m) (w, t) = (case run_state m w of (x, w') \<Rightarrow> (x, (w', t)))"
  by (simp add: observed_def)

lemma run_emit [simp]: "run_state (emit f) (w, t) = ((), (w, f t))"
  by (simp add: emit_def)

text \<open>
  \<open>statusRecorder\<close>: the last status written through it, and the status that the connection
  sends: the first one that is not informational.
\<close>

record status_recorder =
  sr_status :: nat
  sr_sent :: "nat option"

definition newRecorder :: status_recorder where
  "newRecorder = \<lparr>sr_status = 200, sr_sent = None\<rparr>"

definition recorderWriteHeader :: "nat \<Rightarrow> status_recorder \<Rightarrow> status_recorder" where
  "recorderWriteHeader statusCode sr =
     sr\<lparr>sr_status := statusCode,
        sr_sent := (if sr_sent sr \<noteq> None \<or> (100 \<le> statusCode \<and> statusCode \<le> 199 \<and> statusCode \<noteq> 101)
                    then sr_sent sr else Some statusCode)\<rparr>"

text \<open>A response was written with one \<open>WriteHeader\<close>, or with none when its status is 0.\<close>

definition recordedStatus :: "http_response \<Rightarrow> nat" where
  "recordedStatus resp =
     sr_status (if rs_Status resp = 0 then newRecorder else recorderWriteHeader (rs_Status resp) newRecorder)"

text \<open>A header set before the handler runs stays, unless the handler sets it itself.\<close>

definition presetHeader :: "string \<Rightarrow> string \<Rightarrow> http_response \<Rightarrow> http_response" where
  "presetHeader k v resp =
     (if k \<in> set (map fst (rs_Headers resp)) then resp else resp\<lparr>rs_Headers := (k, v) # rs_Headers resp\<rparr>)"

definition milliseconds :: "int \<Rightarrow> int" where
  "milliseconds d = quotient d 1000000"

section \<open>Middleware\<close>

definition auditEntry ::
    "env \<Rightarrow> string \<Rightarrow> http_request \<Rightarrow> nat \<Rightarrow> int \<Rightarrow> session_value option \<Rightarrow> audit_entry" where
  "auditEntry E requestID r status duration v =
     (let claims = claimsIn v
      in \<lparr>au_RequestID = requestID, au_Method = rq_Method r, au_Path = rq_Path r, au_Status = status,
          au_DurationMs = milliseconds duration,
          au_UserID = (case claims of
             Some c \<Rightarrow> if sc_UserID c \<noteq> 0 then Some (uuid_string E (sc_UserID c)) else None
           | None \<Rightarrow> None),
          au_TenantID = (case claims of
             Some c \<Rightarrow> (case sc_ActiveTenantID c of Some t \<Rightarrow> Some (uuid_string E t) | None \<Rightarrow> None)
           | None \<Rightarrow> None)\<rparr>)"

definition CorrelationAndAudit ::
    "env \<Rightarrow> 's session_manager option \<Rightarrow> string \<Rightarrow> 's observed_handler \<Rightarrow> 's observed_handler" where
  "CorrelationAndAudit E sessionManager sessionKey next r =
     (let key = orDefault sessionKey DefaultSessionKey in do {
        start \<leftarrow> observed (timeNow E);
        requestID \<leftarrow> (if rq_Header r ''X-Request-ID'' = ''''
                      then do { t \<leftarrow> observed nextTick; State_Monad.return (uuid_string E (uuid_new E t)) }
                      else State_Monad.return (rq_Header r ''X-Request-ID''));
        resp \<leftarrow> next (r\<lparr>rq_Context := WithRequestID (rq_Context r) requestID\<rparr>);
        now \<leftarrow> observed (timeNow E);
        v \<leftarrow> (case sessionManager of
               None \<Rightarrow> State_Monad.return None
             | Some m \<Rightarrow> observed (sessGet m key));
        _ \<leftarrow> emit (\<lambda>t. t\<lparr>tm_audit := tm_audit t @ [auditEntry E requestID r (recordedStatus resp) (now - start) v]\<rparr>);
        State_Monad.return (presetHeader ''X-Request-ID'' requestID resp) })"

definition routePattern :: "otel_libs \<Rightarrow> http_request \<Rightarrow> string" where
  "routePattern L r =
     (case tl_RoutePattern L r of
        None \<Rightarrow> ''''
      | Some pat \<Rightarrow> if pat \<noteq> '''' \<and> pat \<noteq> ''/*'' then pat else '''')"

text \<open>An optional attribute: absent when empty.\<close>

definition routeAttribute :: "string \<Rightarrow> string option" where
  "routeAttribute route = (if route = '''' then None else Some route)"

definition OTELTracingMiddleware :: "otel_libs \<Rightarrow> 's observed_handler \<Rightarrow> 's observed_handler" where
  "OTELTracingMiddleware L next r =
     (let parent = tl_Extract L (rq_Header r) (rq_Context r);
          r' = r\<lparr>rq_Context := tl_Start L parent (rq_Method r)\<rparr>
      in do {
        resp \<leftarrow> next r';
        let route = routePattern L r';
        let statusCode = recordedStatus resp;
        _ \<leftarrow> emit (\<lambda>t. t\<lparr>tm_spans := tm_spans t @
               [\<lparr>sp_Name = (if route \<noteq> '''' then rq_Method r' @ '' '' @ route else rq_Method r'), sp_Parent = parent,
                 sp_Method = rq_Method r', sp_Path = rq_Path r', sp_Host = rq_Host r', sp_Route = routeAttribute route,
                 sp_Status = statusCode, sp_Error = (500 \<le> statusCode)\<rparr>]\<rparr>);
        State_Monad.return resp })"

text \<open>An instrument that cannot be created records nothing.\<close>

definition OTELMetricsMiddleware :: "env \<Rightarrow> otel_libs \<Rightarrow> 's observed_handler \<Rightarrow> 's observed_handler" where
  "OTELMetricsMiddleware E L next r = do {
     start \<leftarrow> observed (timeNow E);
     resp \<leftarrow> next r;
     let statusCode = recordedStatus resp;
     let route = routeAttribute (routePattern L r);
     now \<leftarrow> observed (timeNow E);
     _ \<leftarrow> emit (\<lambda>t. t\<lparr>tm_metrics := tm_metrics t @
            (if tl_NewHistogram L ''http.server.request.duration'' = None
             then [DurationMetric (milliseconds (now - start)) (rq_Method r) statusCode route] else []) @
            (if tl_NewCounter L ''http.server.request.count'' = None
             then [CountMetric 1 (rq_Method r) statusCode route] else [])\<rparr>);
     State_Monad.return resp }"

section \<open>Lemmas\<close>

lemma RequestID_with [simp]: "RequestID (WithRequestID c i) = (if i = '''' then None else Some i)"
  by (simp add: RequestID_def WithRequestID_def)

lemma RequestID_other [simp]:
  "k \<noteq> RequestIDContextKey \<Longrightarrow> RequestID (withValue c k v) = RequestID c"
  by (simp add: RequestID_def)

lemma TenantIDString_requestID [simp]: "TenantIDString (WithRequestID c i) = TenantIDString c"
  by (simp add: WithRequestID_def)

lemma SessionClaims_requestID [simp]: "SessionClaimsFromContext (WithRequestID c i) = SessionClaimsFromContext c"
  by (simp add: WithRequestID_def)

lemma recordedStatus_eq: "recordedStatus resp = (if rs_Status resp = 0 then 200 else rs_Status resp)"
  by (simp add: recordedStatus_def newRecorder_def recorderWriteHeader_def)

text \<open>
  The recorder reports what was sent as long as at most one final status is written, after any
  number of informational ones; a second final status is ignored by the connection but recorded.
\<close>

definition informational :: "nat \<Rightarrow> bool" where
  "informational c \<longleftrightarrow> 100 \<le> c \<and> c \<le> 199 \<and> c \<noteq> 101"

lemma recorder_informational:
  "\<forall>c\<in>set cs. informational c \<Longrightarrow> sr_sent (fold recorderWriteHeader cs sr) = sr_sent sr"
  by (induction cs arbitrary: sr) (auto simp: recorderWriteHeader_def informational_def)

lemma recorder_faithful:
  assumes "\<forall>c\<in>set cs. informational c" and "\<not> informational c"
  shows "sr_sent (fold recorderWriteHeader (cs @ [c]) newRecorder) = Some c"
    and "sr_status (fold recorderWriteHeader (cs @ [c]) newRecorder) = c"
  using recorder_informational [OF assms(1), of newRecorder] assms(2)
  by (auto simp: recorderWriteHeader_def newRecorder_def informational_def)

lemma recorder_superfluous:
  "sr_sent (fold recorderWriteHeader [201, 500] newRecorder) = Some 201 \<and>
   sr_status (fold recorderWriteHeader [201, 500] newRecorder) = 500"
  by (simp add: recorderWriteHeader_def newRecorder_def)

lemma presetHeader_simps [simp]:
  "rs_Status (presetHeader k v resp) = rs_Status resp" "rs_Body (presetHeader k v resp) = rs_Body resp"
  "rs_Cookies (presetHeader k v resp) = rs_Cookies resp"
  by (simp_all add: presetHeader_def)

lemma presetHeader_fresh:
  "k \<notin> set (map fst (rs_Headers resp)) \<Longrightarrow> map_of (rs_Headers (presetHeader k v resp)) k = Some v"
  by (auto simp: presetHeader_def)

text \<open>Setting up with defaults is the same, and a failure of the metric exporter leaves the tracer provider in place.\<close>

lemma otelDefaults_idem: "otelDefaults (otelDefaults c) = otelDefaults c"
  by (simp add: otelDefaults_def orDefault_def second_def split: option.splits)

lemma SetupOTEL_defaults: "SetupOTEL L (otelDefaults c) g = SetupOTEL L c g"
  by (simp add: SetupOTEL_def otelDefaults_idem)

lemma SetupOTEL_ignores_enabled: "SetupOTEL L (c\<lparr>otc_Enabled := b\<rparr>) g = SetupOTEL L c g"
  by (simp add: SetupOTEL_def otelDefaults_def Let_def cong: option.case_cong)

lemma SetupOTEL_leaks_tracer:
  assumes "\<And>s. tl_NewResource L s = None" and "\<And>u i. tl_NewTraceExporter L u i = None"
    and "\<And>u i. tl_NewMetricExporter L u i = Some err"
  shows "\<not> isOk (fst (SetupOTEL L c g)) \<and> og_TracerProvider (snd (SetupOTEL L c g)) \<noteq> None"
  using assms by (simp add: SetupOTEL_def Let_def)

section \<open>Properties\<close>

lemma run_CorrelationAndAudit:
  "run_state (CorrelationAndAudit E sm key next r) (w, t) =
     (let hdr = rq_Header r ''X-Request-ID'';
          rid = (if hdr = '''' then uuid_string E (uuid_new E (Suc (w_tick w))) else hdr);
          w1 = w\<lparr>w_tick := (if hdr = '''' then Suc (Suc (w_tick w)) else Suc (w_tick w))\<rparr>;
          (resp, w', t') = run_state (next (r\<lparr>rq_Context := WithRequestID (rq_Context r) rid\<rparr>)) (w1, t);
          v = (case sm of None \<Rightarrow> None | Some m \<Rightarrow> managerGet m (w_sess w') (orDefault key DefaultSessionKey));
          e = auditEntry E rid r (recordedStatus resp) (app_now E (w_tick w') - app_now E (w_tick w)) v
      in (presetHeader ''X-Request-ID'' rid resp,
          w'\<lparr>w_tick := Suc (w_tick w')\<rparr>, t'\<lparr>tm_audit := tm_audit t' @ [e]\<rparr>))"
  by (cases sm)
    (auto simp: CorrelationAndAudit_def timeNow_def nextTick_def Let_def split: prod.split)

text \<open>What an audit entry says of a request, its response and the claims in the session.\<close>

definition audits :: "env \<Rightarrow> http_request \<Rightarrow> string \<Rightarrow> http_response \<Rightarrow> session_claims option \<Rightarrow> audit_entry \<Rightarrow> bool" where
  "audits E r rid resp claims e \<longleftrightarrow>
     au_RequestID e = rid \<and> au_Method e = rq_Method r \<and> au_Path e = rq_Path r \<and>
     au_Status e = (if rs_Status resp = 0 then 200 else rs_Status resp) \<and>
     (\<forall>u. au_UserID e = Some u \<longleftrightarrow>
        (\<exists>cl. claims = Some cl \<and> sc_UserID cl \<noteq> 0 \<and> u = uuid_string E (sc_UserID cl))) \<and>
     (\<forall>u. au_TenantID e = Some u \<longleftrightarrow>
        (\<exists>cl i. claims = Some cl \<and> sc_ActiveTenantID cl = Some i \<and> u = uuid_string E i))"

lemma audits_auditEntry: "audits E r rid resp (claimsIn v) (auditEntry E rid r (recordedStatus resp) d v)"
  by (auto simp: audits_def auditEntry_def recordedStatus_eq Let_def split: option.splits)

text \<open>The response carries the id, unless the handler set that header itself.\<close>

definition carriesID :: "string \<Rightarrow> http_response \<Rightarrow> http_response \<Rightarrow> bool" where
  "carriesID rid resp resp' \<longleftrightarrow>
     rs_Status resp' = rs_Status resp \<and> rs_Body resp' = rs_Body resp \<and> rs_Cookies resp' = rs_Cookies resp \<and>
     (''X-Request-ID'' \<in> set (map fst (rs_Headers resp)) \<and> rs_Headers resp' = rs_Headers resp \<or>
      map_of (rs_Headers resp') ''X-Request-ID'' = Some rid)"

lemma carriesID_preset: "carriesID rid resp (presetHeader ''X-Request-ID'' rid resp)"
  by (auto simp: carriesID_def presetHeader_def)

text \<open>
  C30 The correlation and audit middleware, around any handler: the request id is the client's
  \<open>X-Request-ID\<close>, or a new UUID; the handler finds it in its context, with the tenant and
  the claims as they were; the client gets the handler's status, body and cookies, with the id
  as header unless the handler set that header itself; and exactly one audit entry is added,
  with that id, the request's method and path, the status that was sent, and the user and the
  tenant of the claims that the session holds after the handler. Of the world, only the
  counter of outside calls moves.
\<close>

theorem correlation_audit:
  "\<exists>rid n. (rid = rq_Header r ''X-Request-ID'' \<and> rid \<noteq> '''' \<or>
            rq_Header r ''X-Request-ID'' = '''' \<and> (\<exists>k. rid = uuid_string E (uuid_new E k))) \<and>
     (let c = WithRequestID (rq_Context r) rid;
          (resp, w', t') = run_state (next (r\<lparr>rq_Context := c\<rparr>)) (w\<lparr>w_tick := n\<rparr>, t);
          claims = (case sm of None \<Rightarrow> None
                    | Some m \<Rightarrow> claimsIn (managerGet m (w_sess w') (orDefault key DefaultSessionKey)))
      in RequestID c = (if rid = '''' then None else Some rid) \<and>
         TenantIDString c = TenantIDString (rq_Context r) \<and>
         SessionClaimsFromContext c = SessionClaimsFromContext (rq_Context r) \<and>
         (\<exists>resp' n' e. run_state (CorrelationAndAudit E sm key next r) (w, t) =
              (resp', w'\<lparr>w_tick := n'\<rparr>, t'\<lparr>tm_audit := tm_audit t' @ [e]\<rparr>) \<and>
            carriesID rid resp resp' \<and> audits E r rid resp claims e))"
proof -
  define hdr where "hdr = rq_Header r ''X-Request-ID''"
  define rid where "rid = (if hdr = '''' then uuid_string E (uuid_new E (Suc (w_tick w))) else hdr)"
  define n where "n = (if hdr = '''' then Suc (Suc (w_tick w)) else Suc (w_tick w))"
  obtain resp w' t' where run:
      "run_state (next (r\<lparr>rq_Context := WithRequestID (rq_Context r) rid\<rparr>)) (w\<lparr>w_tick := n\<rparr>, t) = (resp, w', t')"
    by (cases "run_state (next (r\<lparr>rq_Context := WithRequestID (rq_Context r) rid\<rparr>)) (w\<lparr>w_tick := n\<rparr>, t)") auto
  define v where "v = (case sm of None \<Rightarrow> None | Some m \<Rightarrow> managerGet m (w_sess w') (orDefault key DefaultSessionKey))"
  define e where "e = auditEntry E rid r (recordedStatus resp) (app_now E (w_tick w') - app_now E (w_tick w)) v"
  have all: "run_state (CorrelationAndAudit E sm key next r) (w, t) =
      (presetHeader ''X-Request-ID'' rid resp,
       w'\<lparr>w_tick := Suc (w_tick w')\<rparr>, t'\<lparr>tm_audit := tm_audit t' @ [e]\<rparr>)"
    using run by (simp add: run_CorrelationAndAudit Let_def e_def v_def rid_def n_def flip: hdr_def)
  have claims: "(case sm of None \<Rightarrow> None
      | Some m \<Rightarrow> claimsIn (managerGet m (w_sess w') (orDefault key DefaultSessionKey))) = claimsIn v"
    by (simp add: v_def claimsIn_def split: option.split)
  have entry: "audits E r rid resp (claimsIn v) e"
    unfolding e_def by (rule audits_auditEntry)
  have rid: "rid = hdr \<and> rid \<noteq> '''' \<or> hdr = '''' \<and> (\<exists>k. rid = uuid_string E (uuid_new E k))"
    by (auto simp: rid_def)
  have "\<exists>resp' n' e. run_state (CorrelationAndAudit E sm key next r) (w, t) =
              (resp', w'\<lparr>w_tick := n'\<rparr>, t'\<lparr>tm_audit := tm_audit t' @ [e]\<rparr>) \<and>
            carriesID rid resp resp' \<and> audits E r rid resp (claimsIn v) e"
    using all entry carriesID_preset by blast
  with rid show ?thesis
    unfolding hdr_def [symmetric]
    by (intro exI [of _ rid] exI [of _ n] conjI) (simp_all only: run Let_def claims prod.case, simp_all)
qed

text \<open>A request with an id, served by a handler that answers 204, in the session of user 5.\<close>

definition emptyTelemetry :: telemetry where
  "emptyTelemetry = \<lparr>tm_audit = [], tm_spans = [], tm_metrics = []\<rparr>"

definition sampleTraced :: http_request where
  "sampleTraced = \<lparr>rq_Method = ''GET'', rq_Path = ''/home'', rq_Query = (\<lambda>_. ''''),
     rq_Header = (\<lambda>h. if h = ''X-Request-ID'' then ''r1'' else ''''), rq_Cookies = [],
     rq_RemoteAddr = '''', rq_Host = '''', rq_Context = []\<rparr>"

theorem correlation_audit_witness:
  "\<exists>resp w t e. run_state (CorrelationAndAudit sampleEnv (Some sampleManager) ''''
         (\<lambda>r. State_Monad.return (respond 204 NoBody)) sampleTraced)
       (sampleWeb empty_db [''auth'' \<mapsto> SVClaims \<lparr>sc_Authenticated = True, sc_UserID = 5, sc_Issuer = '''', sc_Subject = '''',
          sc_ActiveTenantID = None\<rparr>], emptyTelemetry) = (resp, w, t) \<and>
     tm_audit t = [e] \<and> au_RequestID e = ''r1'' \<and> au_Status e = 204 \<and> au_UserID e = Some (showNat 5) \<and>
     rs_Status resp = 204 \<and> map_of (rs_Headers resp) ''X-Request-ID'' = Some ''r1''"
  using correlation_audit [of sampleTraced sampleEnv "\<lambda>r. State_Monad.return (respond 204 NoBody)"
      "sampleWeb empty_db [''auth'' \<mapsto> SVClaims \<lparr>sc_Authenticated = True, sc_UserID = 5, sc_Issuer = '''', sc_Subject = '''',
          sc_ActiveTenantID = None\<rparr>]" emptyTelemetry "''''" "Some sampleManager"]
  by (auto simp: sampleTraced_def emptyTelemetry_def audits_def carriesID_def respond_def claimsIn_def
      orDefault_def auth_constants Let_def)

end
