(* ===== verification/AppConfig.thy ===== *)
theory AppConfig
  imports Server DbManager Openapi Observability
begin

text \<open>
  \<open>app/option.go\<close> and the types of \<open>app/app.go\<close>: the builder that options fill, every
  option, the CORS defaults and their validation, and the builder's defaults and validation.

  A handler of the router is an observed handler, a middleware a function on them. A custom
  identity store is its interface; the PostgreSQL one is recognised, as the type assertion of
  the code does. Options are functions on the builder that may return an error.
\<close>

section \<open>Types\<close>

type_synonym 's middleware = "'s observed_handler \<Rightarrow> 's observed_handler"

datatype 's identity_store =
    PostgresStore pg_identity_store
  | OtherStore "'s web identity_store_api"

text \<open>The clock and the logger: the default one, or one the caller names.\<close>

datatype clock = RealClock | OtherClock "nat \<Rightarrow> int"
datatype logger = DefaultLogger | OtherLogger string

text \<open>\<open>cors.Options\<close> of go-chi/cors, as far as the code sets it.\<close>

record cors_config =
  cc_AllowedOrigins :: "string list"
  cc_AllowedMethods :: "string list"
  cc_AllowedHeaders :: "string list"
  cc_ExposedHeaders :: "string list"
  cc_AllowCredentials :: bool
  cc_MaxAge :: int

record ('s, 'p) dependencies =
  dep_DB :: "'p db_manager"
  dep_Pool :: "'p option"
  dep_Session :: "'s session_manager option"
  dep_Auth :: "'s oidc_handler option"
  dep_Password :: "'s password_handler option"
  dep_IdentityStore :: "'s identity_store option"
  dep_OpenAPI :: openapi_config
  dep_Logger :: logger
  dep_Clock :: clock

text \<open>A module registers routes, or fails.\<close>

type_synonym ('s, 'p) module = "('s, 'p) dependencies \<Rightarrow> go_error + 's observed_handler routes"

record ('s, 'p) builder =
  b_port :: string
  b_shutdownTimeout :: int
  b_dbConfig :: "db_config option"
  b_sessionConfig :: "session_config option"
  b_authConfig :: "config option"
  b_identityStore :: "'s identity_store option"
  b_loginHandler :: "'s observed_handler option"
  b_passwordConfig :: "password_config option"
  b_otelConfig :: "otel_config option"
  b_corsConfig :: "cors_config option"
  b_openAPIConfig :: "openapi_config option"
  b_migrationSources :: "migration_source list"
  b_enableCoreMigrations :: bool
  b_enableAuthMigrations :: bool
  b_enablePasswordMigrations :: bool
  b_middleware :: "'s middleware list"
  b_disableDefaultMiddleware :: bool
  b_modules :: "('s, 'p) module list"
  b_clock :: "clock option"
  b_logger :: "logger option"

definition emptyBuilder :: "('s, 'p) builder" where
  "emptyBuilder =
     \<lparr>b_port = '''', b_shutdownTimeout = 0, b_dbConfig = None, b_sessionConfig = None, b_authConfig = None,
      b_identityStore = None, b_loginHandler = None, b_passwordConfig = None, b_otelConfig = None,
      b_corsConfig = None, b_openAPIConfig = None, b_migrationSources = [], b_enableCoreMigrations = False,
      b_enableAuthMigrations = False, b_enablePasswordMigrations = False, b_middleware = [],
      b_disableDefaultMiddleware = False, b_modules = [], b_clock = None, b_logger = None\<rparr>"

type_synonym ('s, 'p) app_option = "('s, 'p) builder \<Rightarrow> go_error + ('s, 'p) builder"

section \<open>CORS\<close>

definition corsDefaults :: "string \<Rightarrow> string list \<Rightarrow> cors_config" where
  "corsDefaults first rest =
     \<lparr>cc_AllowedOrigins = first # rest,
      cc_AllowedMethods = [''GET'', ''POST'', ''PUT'', ''PATCH'', ''DELETE'', ''OPTIONS''],
      cc_AllowedHeaders = [''Accept'', ''Authorization'', ''Content-Type'', ''X-CSRF-Token'', ''X-Request-ID''],
      cc_ExposedHeaders = [''Link'', ''X-Request-ID''],
      cc_AllowCredentials = True,
      cc_MaxAge = 300\<rparr>"

fun corsOrigins :: "bool \<Rightarrow> string list \<Rightarrow> go_error option" where
  "corsOrigins creds [] = None"
| "corsOrigins creds (x # xs) =
     (if x = ''*'' \<and> creds
      then Some (ErrorString ''CORS wildcard origin (*) is incompatible with AllowCredentials: true; use specific origins or set AllowCredentials to false'')
      else corsOrigins creds xs)"

definition corsValidate :: "cors_config \<Rightarrow> go_error option" where
  "corsValidate c =
     (if cc_AllowedOrigins c = [] then Some (ErrorString ''CORS requires at least one allowed origin'')
      else corsOrigins (cc_AllowCredentials c) (cc_AllowedOrigins c))"

section \<open>The builder\<close>

definition builderValidate :: "('s, 'p) builder \<Rightarrow> go_error option" where
  "builderValidate b =
     (case b_dbConfig b of
        None \<Rightarrow> Some (ErrorString ''database is required: use WithDatabase or WithDatabaseConfig'')
      | Some d \<Rightarrow>
          if dbc_DatabaseURL d = '''' then Some (ErrorString ''database URL is required'')
          else (case b_authConfig b of
                  None \<Rightarrow> None
                | Some c \<Rightarrow>
                    if cfg_IssuerURL c = '''' \<or> cfg_ClientID c = '''' \<or> cfg_ClientSecret c = '''' \<or> cfg_RedirectURL c = ''''
                    then Some (ErrorString ''OIDC issuer/client credentials/redirect URL are required when auth is enabled'')
                    else None))"

definition zeroSession :: session_config where
  "zeroSession = \<lparr>ses_ExpiryInterval = 0, ses_Lifetime = 0, ses_CookieName = '''', ses_CookieSecure = False,
     ses_CookieSameSite = None\<rparr>"

definition defaultShutdownTimeout :: int where
  "defaultShutdownTimeout = 5 * second"

definition autoSession :: "('s, 'p) builder \<Rightarrow> ('s, 'p) builder" where
  "autoSession b = (case b_sessionConfig b of None \<Rightarrow> b\<lparr>b_sessionConfig := Some zeroSession\<rparr> | Some _ \<Rightarrow> b)"

text \<open>The blocks of \<open>applyDefaults\<close>.\<close>

definition serverDefaults :: "('s, 'p) builder \<Rightarrow> ('s, 'p) builder" where
  "serverDefaults b =
     (let b1 = b\<lparr>b_port := orDefault (b_port b) ''3000''\<rparr>
      in if b_shutdownTimeout b1 = 0 then b1\<lparr>b_shutdownTimeout := defaultShutdownTimeout\<rparr> else b1)"

definition authDefaults :: "('s, 'p) builder \<Rightarrow> ('s, 'p) builder" where
  "authDefaults b =
     (case b_authConfig b of
        None \<Rightarrow> b
      | Some c \<Rightarrow> autoSession (b\<lparr>b_authConfig := Some (withDefaults c)\<rparr>))"

definition passwordAuthDefaults :: "('s, 'p) builder \<Rightarrow> ('s, 'p) builder" where
  "passwordAuthDefaults b =
     (case b_passwordConfig b of
        None \<Rightarrow> b
      | Some c \<Rightarrow> autoSession (b\<lparr>b_passwordConfig := Some (passwordDefaults c)\<rparr>))"

definition advancedDefaults :: "('s, 'p) builder \<Rightarrow> ('s, 'p) builder" where
  "advancedDefaults b =
     (let b1 = (case b_logger b of None \<Rightarrow> b\<lparr>b_logger := Some DefaultLogger\<rparr> | Some _ \<Rightarrow> b)
      in case b_clock b1 of None \<Rightarrow> b1\<lparr>b_clock := Some RealClock\<rparr> | Some _ \<Rightarrow> b1)"

definition applyDefaults :: "('s, 'p) builder \<Rightarrow> ('s, 'p) builder" where
  "applyDefaults b = advancedDefaults (passwordAuthDefaults (authDefaults (serverDefaults b)))"

section \<open>Options\<close>

definition WithDatabase :: "string \<Rightarrow> ('s, 'p) app_option" where
  "WithDatabase url b =
     Inr (b\<lparr>b_dbConfig := Some \<lparr>dbc_DatabaseURL = url, dbc_SearchPath = '''', dbc_EnableSlogTracing = False,
                               dbc_OTELTracing = False\<rparr>\<rparr>)"

definition WithDatabaseConfig :: "db_config \<Rightarrow> ('s, 'p) app_option" where
  "WithDatabaseConfig cfg b = Inr (b\<lparr>b_dbConfig := Some cfg\<rparr>)"

definition WithPort :: "string \<Rightarrow> ('s, 'p) app_option" where
  "WithPort port b = Inr (b\<lparr>b_port := port\<rparr>)"

definition WithShutdownTimeout :: "int \<Rightarrow> ('s, 'p) app_option" where
  "WithShutdownTimeout timeout b =
     (if timeout \<le> 0 then Inl (ErrorString ''shutdown timeout must be positive'')
      else Inr (b\<lparr>b_shutdownTimeout := timeout\<rparr>))"

definition WithAuth :: "config \<Rightarrow> ('s, 'p) app_option" where
  "WithAuth cfg b = Inr (b\<lparr>b_authConfig := Some cfg\<rparr>)"

definition WithIdentityStore :: "'s identity_store option \<Rightarrow> ('s, 'p) app_option" where
  "WithIdentityStore store b = Inr (b\<lparr>b_identityStore := store\<rparr>)"

definition WithPasswordAuth :: "password_config \<Rightarrow> ('s, 'p) app_option" where
  "WithPasswordAuth cfg b = Inr (b\<lparr>b_passwordConfig := Some cfg\<rparr>)"

definition WithLoginHandler :: "'s observed_handler option \<Rightarrow> ('s, 'p) app_option" where
  "WithLoginHandler h b = Inr (b\<lparr>b_loginHandler := h\<rparr>)"

definition WithSessions :: "session_config \<Rightarrow> ('s, 'p) app_option" where
  "WithSessions cfg b = Inr (b\<lparr>b_sessionConfig := Some cfg\<rparr>)"

definition WithOTEL :: "otel_config \<Rightarrow> ('s, 'p) app_option" where
  "WithOTEL cfg b = Inr (b\<lparr>b_otelConfig := Some cfg\<rparr>)"

definition WithCORSConfig :: "cors_config \<Rightarrow> ('s, 'p) app_option" where
  "WithCORSConfig cfg b =
     (case corsValidate cfg of Some err \<Rightarrow> Inl err | None \<Rightarrow> Inr (b\<lparr>b_corsConfig := Some cfg\<rparr>))"

definition WithCORS :: "string \<Rightarrow> string list \<Rightarrow> ('s, 'p) app_option" where
  "WithCORS first rest b =
     (let cfg = corsDefaults first rest
      in case corsValidate cfg of Some err \<Rightarrow> Inl err | None \<Rightarrow> Inr (b\<lparr>b_corsConfig := Some cfg\<rparr>))"

definition WithOpenAPI :: "openapi_config \<Rightarrow> ('s, 'p) app_option" where
  "WithOpenAPI cfg b = Inr (b\<lparr>b_openAPIConfig := Some cfg\<rparr>)"

definition WithCoreMigrations :: "('s, 'p) app_option" where
  "WithCoreMigrations b = Inr (b\<lparr>b_enableCoreMigrations := True\<rparr>)"

definition WithAuthMigrations :: "('s, 'p) app_option" where
  "WithAuthMigrations b = Inr (b\<lparr>b_enableAuthMigrations := True\<rparr>)"

definition WithPasswordMigrations :: "('s, 'p) app_option" where
  "WithPasswordMigrations b = Inr (b\<lparr>b_enablePasswordMigrations := True\<rparr>)"

definition WithMigrations :: "migration_source list \<Rightarrow> ('s, 'p) app_option" where
  "WithMigrations sources b = Inr (b\<lparr>b_migrationSources := b_migrationSources b @ sources\<rparr>)"

definition WithMiddleware :: "'s middleware list \<Rightarrow> ('s, 'p) app_option" where
  "WithMiddleware mw b = Inr (b\<lparr>b_middleware := b_middleware b @ mw\<rparr>)"

definition WithNoDefaultMiddleware :: "('s, 'p) app_option" where
  "WithNoDefaultMiddleware b = Inr (b\<lparr>b_disableDefaultMiddleware := True\<rparr>)"

definition WithModule :: "('s, 'p) module list \<Rightarrow> ('s, 'p) app_option" where
  "WithModule modules b = Inr (b\<lparr>b_modules := b_modules b @ modules\<rparr>)"

definition WithClock :: "clock option \<Rightarrow> ('s, 'p) app_option" where
  "WithClock c b = Inr (b\<lparr>b_clock := c\<rparr>)"

definition WithLogger :: "logger option \<Rightarrow> ('s, 'p) app_option" where
  "WithLogger l b = Inr (b\<lparr>b_logger := l\<rparr>)"

text \<open>The options the package offers; no other can be written outside it, as the builder is not exported.\<close>

inductive offeredOption :: "('s, 'p) app_option \<Rightarrow> bool" where
  "offeredOption (WithDatabase url)"
| "offeredOption (WithDatabaseConfig db)"
| "offeredOption (WithPort port)"
| "offeredOption (WithShutdownTimeout timeout)"
| "offeredOption (WithAuth auth)"
| "offeredOption (WithIdentityStore store)"
| "offeredOption (WithPasswordAuth pw)"
| "offeredOption (WithLoginHandler h)"
| "offeredOption (WithSessions ses)"
| "offeredOption (WithOTEL ot)"
| "offeredOption (WithCORS first rest)"
| "offeredOption (WithCORSConfig cors)"
| "offeredOption (WithOpenAPI oa)"
| "offeredOption WithCoreMigrations"
| "offeredOption WithAuthMigrations"
| "offeredOption WithPasswordMigrations"
| "offeredOption (WithMigrations sources)"
| "offeredOption (WithMiddleware mws)"
| "offeredOption WithNoDefaultMiddleware"
| "offeredOption (WithModule modules)"
| "offeredOption (WithClock clk)"
| "offeredOption (WithLogger l)"

lemmas option_defs = WithDatabase_def WithDatabaseConfig_def WithPort_def WithShutdownTimeout_def WithAuth_def
  WithIdentityStore_def WithPasswordAuth_def WithLoginHandler_def WithSessions_def WithOTEL_def WithCORS_def
  WithCORSConfig_def WithOpenAPI_def WithCoreMigrations_def WithAuthMigrations_def WithPasswordMigrations_def
  WithMigrations_def WithMiddleware_def WithNoDefaultMiddleware_def WithModule_def WithClock_def WithLogger_def

section \<open>What options keep\<close>

text \<open>Settings that the options themselves check.\<close>

definition corsSafe :: "cors_config \<Rightarrow> bool" where
  "corsSafe c \<longleftrightarrow> cc_AllowedOrigins c \<noteq> [] \<and> \<not> (cc_AllowCredentials c \<and> ''*'' \<in> set (cc_AllowedOrigins c))"

lemma corsOrigins_None: "corsOrigins creds xs = None \<longleftrightarrow> \<not> (creds \<and> ''*'' \<in> set xs)"
  by (induction xs) auto

lemma corsValidate_None: "corsValidate c = None \<longleftrightarrow> corsSafe c"
  by (auto simp: corsValidate_def corsSafe_def corsOrigins_None)

definition settingsOk :: "('s, 'p) builder \<Rightarrow> bool" where
  "settingsOk b \<longleftrightarrow> 0 \<le> b_shutdownTimeout b \<and> (\<forall>c. b_corsConfig b = Some c \<longrightarrow> corsSafe c)"

lemma settingsOk_empty [simp]: "settingsOk emptyBuilder"
  by (simp add: settingsOk_def emptyBuilder_def)

lemma offeredOption_keeps:
  "offeredOption opt \<Longrightarrow> settingsOk b \<Longrightarrow> opt b = Inr b' \<Longrightarrow> settingsOk b'"
  by (induction opt arbitrary: b' rule: offeredOption.induct)
    (auto simp: option_defs settingsOk_def Let_def corsValidate_None split: if_splits option.splits)

lemma autoSession_simps [simp]:
  "b_sessionConfig (autoSession b) \<noteq> None"
  "b_port (autoSession b) = b_port b" "b_shutdownTimeout (autoSession b) = b_shutdownTimeout b"
  "b_dbConfig (autoSession b) = b_dbConfig b" "b_authConfig (autoSession b) = b_authConfig b"
  "b_passwordConfig (autoSession b) = b_passwordConfig b" "b_corsConfig (autoSession b) = b_corsConfig b"
  "b_identityStore (autoSession b) = b_identityStore b" "b_clock (autoSession b) = b_clock b"
  "b_logger (autoSession b) = b_logger b" "b_middleware (autoSession b) = b_middleware b"
  "b_modules (autoSession b) = b_modules b" "b_otelConfig (autoSession b) = b_otelConfig b"
  by (auto simp: autoSession_def split: option.split)

lemma serverDefaults_simps [simp]:
  "b_port (serverDefaults b) = orDefault (b_port b) ''3000''"
  "b_shutdownTimeout (serverDefaults b) =
     (if b_shutdownTimeout b = 0 then defaultShutdownTimeout else b_shutdownTimeout b)"
  "b_dbConfig (serverDefaults b) = b_dbConfig b" "b_authConfig (serverDefaults b) = b_authConfig b"
  "b_passwordConfig (serverDefaults b) = b_passwordConfig b" "b_corsConfig (serverDefaults b) = b_corsConfig b"
  "b_identityStore (serverDefaults b) = b_identityStore b" "b_sessionConfig (serverDefaults b) = b_sessionConfig b"
  "b_middleware (serverDefaults b) = b_middleware b" "b_modules (serverDefaults b) = b_modules b"
  by (simp_all add: serverDefaults_def Let_def)

lemma authDefaults_simps [simp]:
  "b_authConfig (authDefaults b) = map_option withDefaults (b_authConfig b)"
  "b_authConfig b \<noteq> None \<Longrightarrow> b_sessionConfig (authDefaults b) \<noteq> None"
  "b_port (authDefaults b) = b_port b" "b_shutdownTimeout (authDefaults b) = b_shutdownTimeout b"
  "b_dbConfig (authDefaults b) = b_dbConfig b" "b_passwordConfig (authDefaults b) = b_passwordConfig b"
  "b_corsConfig (authDefaults b) = b_corsConfig b" "b_identityStore (authDefaults b) = b_identityStore b"
  "b_middleware (authDefaults b) = b_middleware b" "b_modules (authDefaults b) = b_modules b"
  by (cases "b_authConfig b"; simp add: authDefaults_def)+

lemma passwordAuthDefaults_simps [simp]:
  "b_passwordConfig (passwordAuthDefaults b) = map_option passwordDefaults (b_passwordConfig b)"
  "b_passwordConfig b \<noteq> None \<or> b_sessionConfig b \<noteq> None \<Longrightarrow> b_sessionConfig (passwordAuthDefaults b) \<noteq> None"
  "b_port (passwordAuthDefaults b) = b_port b"
  "b_shutdownTimeout (passwordAuthDefaults b) = b_shutdownTimeout b"
  "b_dbConfig (passwordAuthDefaults b) = b_dbConfig b" "b_authConfig (passwordAuthDefaults b) = b_authConfig b"
  "b_corsConfig (passwordAuthDefaults b) = b_corsConfig b"
  "b_identityStore (passwordAuthDefaults b) = b_identityStore b"
  "b_middleware (passwordAuthDefaults b) = b_middleware b" "b_modules (passwordAuthDefaults b) = b_modules b"
  by (cases "b_passwordConfig b"; simp add: passwordAuthDefaults_def)+

lemma advancedDefaults_simps [simp]:
  "b_clock (advancedDefaults b) \<noteq> None" "b_logger (advancedDefaults b) \<noteq> None"
  "b_port (advancedDefaults b) = b_port b" "b_shutdownTimeout (advancedDefaults b) = b_shutdownTimeout b"
  "b_dbConfig (advancedDefaults b) = b_dbConfig b" "b_authConfig (advancedDefaults b) = b_authConfig b"
  "b_passwordConfig (advancedDefaults b) = b_passwordConfig b" "b_corsConfig (advancedDefaults b) = b_corsConfig b"
  "b_identityStore (advancedDefaults b) = b_identityStore b" "b_sessionConfig (advancedDefaults b) = b_sessionConfig b"
  "b_middleware (advancedDefaults b) = b_middleware b" "b_modules (advancedDefaults b) = b_modules b"
  by (cases "b_logger b"; cases "b_clock b"; simp add: advancedDefaults_def)+

lemma applyDefaults_simps:
  "b_port (applyDefaults b) = orDefault (b_port b) ''3000''"
  "b_shutdownTimeout (applyDefaults b) =
     (if b_shutdownTimeout b = 0 then defaultShutdownTimeout else b_shutdownTimeout b)"
  "b_dbConfig (applyDefaults b) = b_dbConfig b"
  "b_authConfig (applyDefaults b) = map_option withDefaults (b_authConfig b)"
  "b_passwordConfig (applyDefaults b) = map_option passwordDefaults (b_passwordConfig b)"
  "b_corsConfig (applyDefaults b) = b_corsConfig b"
  "b_identityStore (applyDefaults b) = b_identityStore b"
  "b_clock (applyDefaults b) \<noteq> None" "b_logger (applyDefaults b) \<noteq> None"
  "b_middleware (applyDefaults b) = b_middleware b" "b_modules (applyDefaults b) = b_modules b"
  by (simp_all only: applyDefaults_def serverDefaults_simps authDefaults_simps passwordAuthDefaults_simps
      advancedDefaults_simps simp_thms)

lemma applyDefaults_session:
  "b_authConfig b \<noteq> None \<or> b_passwordConfig b \<noteq> None \<Longrightarrow> b_sessionConfig (applyDefaults b) \<noteq> None"
  by (cases "b_passwordConfig b") (auto simp: applyDefaults_def simp del: not_None_eq)

lemma defaultShutdownTimeout_pos: "0 < defaultShutdownTimeout"
  by (simp add: defaultShutdownTimeout_def second_def)

lemma builderValidate_None:
  "builderValidate b = None \<longleftrightarrow>
     (\<exists>d. b_dbConfig b = Some d \<and> dbc_DatabaseURL d \<noteq> '''') \<and>
     (\<forall>c. b_authConfig b = Some c \<longrightarrow>
        cfg_IssuerURL c \<noteq> '''' \<and> cfg_ClientID c \<noteq> '''' \<and> cfg_ClientSecret c \<noteq> '''' \<and> cfg_RedirectURL c \<noteq> '''')"
  by (auto simp: builderValidate_def split: option.splits)

end
