(* ===== verification/Migrations.thy ===== *)
theory Migrations
  imports DbManager
begin

text \<open>
  \<open>migrations/migrations.go\<close>: the embedded SQL files and the three migration sets. The names of
  the files are those under \<open>src/migrations/\<close> that the \<open>go:embed\<close> directive selects; what is
  in a file is a parameter, a function of directory and name.
\<close>

section \<open>The embedded files\<close>

definition embeddedNames :: "string \<Rightarrow> string list" where
  "embeddedNames dir =
     (if dir = ''core'' then [''20260221160000_core.sql'']
      else if dir = ''auth'' then
        [''20260221161000_auth.sql'', ''20260330043700_remove_tenant_id_from_users.sql'',
         ''20260422000000_unique_email_issuer.sql'']
      else if dir = ''password'' then [''20260410000000_password_credentials.sql'']
      else [])"

text \<open>
  \<open>fs.Sub(migrationFS, dir)\<close> on one of the three directories; the code only lists \<open>"."\<close> and
  reads the files listed.
\<close>

definition subFS :: "(string \<Rightarrow> string \<Rightarrow> string) \<Rightarrow> string \<Rightarrow> source_fs" where
  "subFS content dir =
     \<lparr>sf_ReadDir = (\<lambda>name. if name = ''.'' then Inr (map (\<lambda>n. (n, False)) (embeddedNames dir))
                           else Inl (ErrorString (''open '' @ name @ '': file does not exist''))),
      sf_ReadFile = (\<lambda>name. if name \<in> set (embeddedNames dir) then Inr (content dir name)
                            else Inl (ErrorString (''open '' @ name @ '': file does not exist'')))\<rparr>"

definition Core :: "(string \<Rightarrow> string \<Rightarrow> string) \<Rightarrow> source_fs" where
  "Core content = subFS content ''core''"

definition Auth :: "(string \<Rightarrow> string \<Rightarrow> string) \<Rightarrow> source_fs" where
  "Auth content = subFS content ''auth''"

definition Password :: "(string \<Rightarrow> string \<Rightarrow> string) \<Rightarrow> source_fs" where
  "Password content = subFS content ''password''"

text \<open>The sources that \<open>AddMigrationSource\<close> registers for them, any of the three.\<close>

definition coreSource :: "(string \<Rightarrow> string \<Rightarrow> string) \<Rightarrow> migration_source" where
  "coreSource content = \<lparr>ms_FS = Core content, ms_Dir = ''.''\<rparr>"

definition authSource :: "(string \<Rightarrow> string \<Rightarrow> string) \<Rightarrow> migration_source" where
  "authSource content = \<lparr>ms_FS = Auth content, ms_Dir = ''.''\<rparr>"

definition passwordSource :: "(string \<Rightarrow> string \<Rightarrow> string) \<Rightarrow> migration_source" where
  "passwordSource content = \<lparr>ms_FS = Password content, ms_Dir = ''.''\<rparr>"

lemma source_simps [simp]:
  "ms_Dir (coreSource c) = ''.''" "ms_Dir (authSource c) = ''.''" "ms_Dir (passwordSource c) = ''.''"
  "sf_ReadDir (ms_FS (coreSource c)) ''.'' = Inr (map (\<lambda>n. (n, False)) (embeddedNames ''core''))"
  "sf_ReadDir (ms_FS (authSource c)) ''.'' = Inr (map (\<lambda>n. (n, False)) (embeddedNames ''auth''))"
  "sf_ReadDir (ms_FS (passwordSource c)) ''.'' = Inr (map (\<lambda>n. (n, False)) (embeddedNames ''password''))"
  by (simp_all add: coreSource_def authSource_def passwordSource_def Core_def Auth_def Password_def subFS_def)

lemma listing_embedded [simp]:
  "listing (coreSource c) = embeddedNames ''core''" "listing (authSource c) = embeddedNames ''auth''"
  "listing (passwordSource c) = embeddedNames ''password''"
  by (simp_all add: listing_def plainFiles_def comp_def)

lemma fileAt_embedded:
  "n \<in> set (embeddedNames ''core'') \<Longrightarrow> fileAt (coreSource c) n = Inr (c ''core'' n)"
  "n \<in> set (embeddedNames ''auth'') \<Longrightarrow> fileAt (authSource c) n = Inr (c ''auth'' n)"
  "n \<in> set (embeddedNames ''password'') \<Longrightarrow> fileAt (passwordSource c) n = Inr (c ''password'' n)"
  by (simp_all add: fileAt_def entryPath_def coreSource_def authSource_def passwordSource_def
      Core_def Auth_def Password_def subFS_def)

section \<open>Properties\<close>

definition builtinSources :: "(string \<Rightarrow> string \<Rightarrow> string) \<Rightarrow> migration_source list" where
  "builtinSources content = [coreSource content, authSource content, passwordSource content]"

text \<open>All five files, by version.\<close>

definition builtinNames :: "string list" where
  "builtinNames =
     [''20260221160000_core.sql'', ''20260221161000_auth.sql'', ''20260330043700_remove_tenant_id_from_users.sql'',
      ''20260410000000_password_credentials.sql'', ''20260422000000_unique_email_issuer.sql'']"

lemma builtin_listing:
  "distinct (concat (map listing (builtinSources c)))"
  "set (concat (map listing (builtinSources c))) = set builtinNames"
  "sort (concat (map listing (builtinSources c))) = builtinNames"
  by (auto simp: builtinSources_def embeddedNames_def builtinNames_def)

lemma builtin_readable: "src \<in> set (builtinSources c) \<Longrightarrow> sourceReadable src"
  by (auto simp: builtinSources_def sourceReadable_def fileAt_embedded)

text \<open>
  The three built-in migration sets can be merged with any further sources exactly when those
  can be read, have no file name twice and none of the five built-in names. The three sets
  alone always merge, whatever their files contain, and the directory that goose is given
  lists the five files by version, core before auth before password, except that the last
  auth migration comes after the password one.
\<close>

theorem builtin_migrations:
  "(isOk (mergeMigrationSources (builtinSources content @ srcs)) \<longleftrightarrow>
      (\<forall>src\<in>set srcs. sourceReadable src) \<and> distinct (concat (map listing srcs)) \<and>
      set (concat (map listing srcs)) \<inter> set builtinNames = {}) \<and>
   (\<exists>f es d. mergeMigrationSources (builtinSources content) = Inr f \<and>
      readDir (openRoot f) (- 1) = (DirEntries es, d) \<and> map fe_name es = builtinNames)"
proof (rule conjI)
  show "isOk (mergeMigrationSources (builtinSources content @ srcs)) \<longleftrightarrow>
      (\<forall>src\<in>set srcs. sourceReadable src) \<and> distinct (concat (map listing srcs)) \<and>
      set (concat (map listing srcs)) \<inter> set builtinNames = {}"
    using merge_ok [of "builtinSources content @ srcs"] builtin_listing [of content] builtin_readable [of _ content]
    by (auto simp del: set_concat)
next
  have "isOk (mergeMigrationSources (builtinSources content))"
    using merge_ok builtin_listing(1) builtin_readable by blast
  then obtain f where f: "mergeMigrationSources (builtinSources content) = Inr f"
    by (auto simp: isOk_def split: sum.splits)
  show "\<exists>f es d. mergeMigrationSources (builtinSources content) = Inr f \<and>
      readDir (openRoot f) (- 1) = (DirEntries es, d) \<and> map fe_name es = builtinNames"
    using f root_names [OF f] builtin_listing(3) readDir_root by metis
qed

text \<open>Registering the core migrations a second time makes the merge fail.\<close>

theorem builtin_migrations_witness:
  "isOk (mergeMigrationSources (builtinSources (\<lambda>dir n. n) @ [])) \<and>
   \<not> isOk (mergeMigrationSources (builtinSources (\<lambda>dir n. n) @ [coreSource (\<lambda>dir n. n)]))"
  using builtin_migrations [of "\<lambda>dir n. n" "[]"] builtin_migrations [of "\<lambda>dir n. n" "[coreSource (\<lambda>dir n. n)]"]
  by (auto simp: embeddedNames_def builtinNames_def)

end
