(* ===== verification/App.thy ===== *)
theory App
  imports AppConfig Migrations
begin

text \<open>
  \<open>app/app.go\<close>: constructing an application from options, the initialisation that \<open>Run\<close>
  performs before it serves (OpenTelemetry, database, migrations, sessions, identity store,
  handlers, middleware, routes, modules), closing it, and the select loop of \<open>runHTTPServer\<close>.

  chi and its middleware, go-chi/cors and the session middleware of SCS are parameters
  (\<open>app_libs\<close>), as are the libraries of the other components. A router is its middleware,
  the patterns mounted on it and its routes; \<open>Use\<close> after a route was registered and mounting
  on a taken pattern panic, as chi documents.
\<close>

section \<open>State\<close>

record ('s, 'p, 'e) app_libs =
  al_env :: env
  al_pgx :: "('p, 'e) pgx_libs"
  al_otel :: otel_libs
  al_oidc :: oidc_libs
  al_scs :: "'s scs"
  al_migrations :: "string \<Rightarrow> string \<Rightarrow> string"
  al_RealIP :: "'s middleware"
  al_Logger :: "'s middleware"
  al_Recoverer :: "'s middleware"
  al_Cors :: "cors_config \<Rightarrow> 's middleware"
  al_LoadAndSave :: "'s session_manager \<Rightarrow> 's middleware"
  al_Taken :: "string list \<Rightarrow> string \<Rightarrow> bool"

text \<open>What a route leads to: a handler, or an endpoint of one of the two authentication handlers.\<close>

datatype 's target =
    PlainTarget "'s observed_handler"
  | AuthTarget "request_body \<Rightarrow> endpoint"

record 's router =
  rt_middleware :: "'s middleware list"
  rt_mounts :: "string list"
  rt_routes :: "((string \<times> string) \<times> 's target) list"

record ('s, 'p) gotchi_app =
  app_config :: "('s, 'p) builder"
  app_router :: "'s router"
  app_db :: "'p db_manager"
  app_dependencies :: "('s, 'p) dependencies option"
  app_resolvedOTEL :: "otel_config option"
  app_otelShutdown :: "(ctx \<Rightarrow> go_error list) option"

definition emptyRouter :: "'s router" where
  "emptyRouter = \<lparr>rt_middleware = [], rt_mounts = [], rt_routes = []\<rparr>"

section \<open>Construction\<close>

fun applyOptions :: "('s, 'p) app_option list \<Rightarrow> ('s, 'p) builder \<Rightarrow> go_error + ('s, 'p) builder" where
  "applyOptions [] b = Inr b"
| "applyOptions (opt # opts) b = (case opt b of Inl err \<Rightarrow> Inl err | Inr b' \<Rightarrow> applyOptions opts b')"

definition New :: "('s, 'p) app_option list \<Rightarrow> go_error + ('s, 'p) gotchi_app" where
  "New opts =
     (case applyOptions opts emptyBuilder of
        Inl err \<Rightarrow> Inl err
      | Inr b0 \<Rightarrow>
          (let b = applyDefaults b0
           in case builderValidate b of
                Some err \<Rightarrow> Inl err
              | None \<Rightarrow>
                  Inr \<lparr>app_config = b, app_router = emptyRouter, app_db = NewManager (the (b_dbConfig b)),
                       app_dependencies = None, app_resolvedOTEL = None, app_otelShutdown = None\<rparr>))"

section \<open>The router\<close>

text \<open>None is a panic.\<close>

definition routerUse :: "'s middleware list \<Rightarrow> 's router \<Rightarrow> 's router option" where
  "routerUse mws rt =
     (if mws \<noteq> [] \<and> rt_routes rt \<noteq> [] then None else Some (rt\<lparr>rt_middleware := rt_middleware rt @ mws\<rparr>))"

definition prefixRoutes :: "string \<Rightarrow> ((string \<times> string) \<times> 'h) list \<Rightarrow> ((string \<times> string) \<times> 'h) list" where
  "prefixRoutes pat rs = map (\<lambda>((m, p), h). ((m, pat @ p), h)) rs"

definition routerMount ::
    "(string list \<Rightarrow> string \<Rightarrow> bool) \<Rightarrow> string \<Rightarrow> ((string \<times> string) \<times> 's target) list \<Rightarrow> 's router \<Rightarrow> 's router option" where
  "routerMount taken pat rs rt =
     (if taken (rt_mounts rt) pat then None
      else Some (rt\<lparr>rt_mounts := rt_mounts rt @ [pat],
                    rt_routes := rt_routes rt @ prefixRoutes pat rs\<rparr>))"

definition routerAdd :: "'s observed_handler routes \<Rightarrow> 's router \<Rightarrow> 's router" where
  "routerAdd rs rt = rt\<lparr>rt_routes := rt_routes rt @ map (\<lambda>(p, h). (p, PlainTarget h)) rs\<rparr>"

definition authTargets :: "route list \<Rightarrow> ((string \<times> string) \<times> 's target) list" where
  "authTargets rs = map (\<lambda>(p, q). (p, AuthTarget q)) rs"

definition defaultLoginHandler :: "'s observed_handler" where
  "defaultLoginHandler r =
     State_Monad.return ((respond 200 (TextBody ''login endpoint''))
       \<lparr>rs_Headers := [(''Content-Type'', ''text/plain; charset=utf-8'')]\<rparr>)"

section \<open>Services\<close>

definition setupAppOTEL ::
    "('s, 'p, 'e) app_libs \<Rightarrow> ('s, 'p) gotchi_app \<Rightarrow> otel_globals \<Rightarrow>
     go_error option \<times> ('s, 'p) gotchi_app \<times> otel_globals" where
  "setupAppOTEL L a g =
     (case b_otelConfig (app_config a) of
        None \<Rightarrow> (None, a, g)
      | Some c \<Rightarrow>
          (let otelCfg = (otelDefaults c)\<lparr>otc_Enabled := True\<rparr>;
               a1 = a\<lparr>app_resolvedOTEL := Some otelCfg\<rparr>
           in case SetupOTEL (al_otel L) otelCfg g of
                (Inl err, g') \<Rightarrow> (Some (Wrapped ''setting up OTEL'' err), a1, g')
              | (Inr shutdown, g') \<Rightarrow>
                  (let a2 = a1\<lparr>app_otelShutdown := Some shutdown\<rparr>
                   in (None,
                       (if TracingEnabled otelCfg then a2\<lparr>app_db := EnableOTELTracing (app_db a2)\<rparr> else a2), g'))))"

definition migrationSources :: "('s, 'p, 'e) app_libs \<Rightarrow> ('s, 'p) builder \<Rightarrow> migration_source list" where
  "migrationSources L cfg =
     (if b_enableCoreMigrations cfg then [coreSource (al_migrations L)] else []) @
     (if b_enableAuthMigrations cfg then [authSource (al_migrations L)] else []) @
     (if b_enablePasswordMigrations cfg then [passwordSource (al_migrations L)] else []) @
     b_migrationSources cfg"

definition sessionManagerOf :: "('s, 'p, 'e) app_libs \<Rightarrow> ('s, 'p) builder \<Rightarrow> 's session_manager option" where
  "sessionManagerOf L cfg = map_option (\<lambda>c. NewPostgres c ''sessions'' (al_scs L)) (b_sessionConfig cfg)"

fun storeApi :: "env \<Rightarrow> 's identity_store \<Rightarrow> 's web identity_store_api" where
  "storeApi E (PostgresStore s) = identityApi E s"
| "storeApi E (OtherStore api) = api"

definition defaultStore :: "'p db_manager \<Rightarrow> 's identity_store" where
  "defaultStore m = PostgresStore (NewPostgresIdentityStore (Pool m \<noteq> None) '''')"

text \<open>The identity store after the block for OIDC, and after the one for passwords.\<close>

definition oidcIdentityStore :: "('s, 'p) builder \<Rightarrow> 'p db_manager \<Rightarrow> 's identity_store option" where
  "oidcIdentityStore cfg m =
     (if b_authConfig cfg \<noteq> None \<and> b_identityStore cfg = None then Some (defaultStore m) else b_identityStore cfg)"

text \<open>
  The handlers take the session manager as it is; it is nil only when neither kind of
  authentication is configured.
\<close>

definition buildOidc ::
    "('s, 'p, 'e) app_libs \<Rightarrow> ('s, 'p) builder \<Rightarrow> 's session_manager option \<Rightarrow> 's identity_store option \<Rightarrow>
     go_error + 's oidc_handler option" where
  "buildOidc L cfg sm store =
     (case b_authConfig cfg of
        None \<Rightarrow> Inr None
      | Some c \<Rightarrow>
          (case NewOIDCHandler (al_oidc L) (c\<lparr>cfg_Enabled := True\<rparr>) (the sm)
                  (map_option (storeApi (al_env L)) store) of
             Inl err \<Rightarrow> Inl err
           | Inr h \<Rightarrow> Inr (Some h)))"

definition buildPassword ::
    "('s, 'p, 'e) app_libs \<Rightarrow> ('s, 'p) builder \<Rightarrow> 'p db_manager \<Rightarrow> 's session_manager option \<Rightarrow>
     's identity_store option \<Rightarrow> go_error + ('s password_handler option \<times> 's identity_store option)" where
  "buildPassword L cfg m sm store =
     (case b_passwordConfig cfg of
        None \<Rightarrow> Inr (None, store)
      | Some c \<Rightarrow>
          (let store' = (case store of None \<Rightarrow> defaultStore m | Some s \<Rightarrow> s)
           in case store' of
                OtherStore _ \<Rightarrow> Inl (ErrorString ''password auth requires a PostgresIdentityStore'')
              | PostgresStore pg \<Rightarrow>
                  (case NewPasswordIdentityStore (al_env L) (Pool m \<noteq> None) (Some pg) c of
                     Inl err \<Rightarrow> Inl (Wrapped ''failed to create password identity store'' err)
                   | Inr s \<Rightarrow> Inr (Some (NewPasswordHandler c s (the sm)), Some store'))))"

definition zeroOpenAPI :: openapi_config where
  "zeroOpenAPI = \<lparr>oac_ErrorEncoder = None, oac_MaxRequestBodyBytes = 0\<rparr>"

definition buildServices ::
    "('s, 'p, 'e) app_libs \<Rightarrow> ('s, 'p) builder \<Rightarrow> 'p db_manager \<Rightarrow> go_error + ('s, 'p) dependencies" where
  "buildServices L cfg m =
     (let sm = sessionManagerOf L cfg;
          store1 = oidcIdentityStore cfg m
      in case buildOidc L cfg sm store1 of
           Inl err \<Rightarrow> Inl err
         | Inr oidc \<Rightarrow>
             (case buildPassword L cfg m sm store1 of
                Inl err \<Rightarrow> Inl err
              | Inr (pw, store2) \<Rightarrow>
                  Inr \<lparr>dep_DB = m, dep_Pool = Pool m, dep_Session = sm, dep_Auth = oidc, dep_Password = pw,
                       dep_IdentityStore = store2,
                       dep_OpenAPI = (case b_openAPIConfig cfg of None \<Rightarrow> zeroOpenAPI | Some c \<Rightarrow> c),
                       dep_Logger = the (b_logger cfg), dep_Clock = the (b_clock cfg)\<rparr>))"

section \<open>Middleware and routes\<close>

definition auditKey :: "('s, 'p) builder \<Rightarrow> string" where
  "auditKey cfg =
     (case b_authConfig cfg of
        None \<Rightarrow> DefaultSessionKey
      | Some c \<Rightarrow> if cfg_SessionKey c \<noteq> '''' then cfg_SessionKey c else DefaultSessionKey)"

definition middlewareChain ::
    "('s, 'p, 'e) app_libs \<Rightarrow> ('s, 'p) builder \<Rightarrow> otel_config option \<Rightarrow> 's session_manager option \<Rightarrow> 's middleware list" where
  "middlewareChain L cfg otelCfg sm =
     (if \<not> b_disableDefaultMiddleware cfg then [al_RealIP L, al_Logger L, al_Recoverer L] else []) @
     (case b_corsConfig cfg of None \<Rightarrow> [] | Some c \<Rightarrow> [al_Cors L c]) @
     (case otelCfg of
        None \<Rightarrow> []
      | Some o' \<Rightarrow>
          (if TracingEnabled o' then [OTELTracingMiddleware (al_otel L)] else []) @
          (if MetricsEnabled o' then [OTELMetricsMiddleware (al_env L) (al_otel L)] else [])) @
     (case sm of
        None \<Rightarrow> []
      | Some m \<Rightarrow> [al_LoadAndSave L m, CorrelationAndAudit (al_env L) (Some m) (auditKey cfg)]) @
     b_middleware cfg"

definition setupMiddleware :: "('s, 'p, 'e) app_libs \<Rightarrow> ('s, 'p) gotchi_app \<Rightarrow> 's session_manager option \<Rightarrow> 's router option" where
  "setupMiddleware L a sm =
     routerUse (middlewareChain L (app_config a) (app_resolvedOTEL a) sm) (app_router a)"

definition mountOidc ::
    "('s, 'p, 'e) app_libs \<Rightarrow> ('s, 'p) builder \<Rightarrow> 's oidc_handler option \<Rightarrow> 's router \<Rightarrow> 's router option" where
  "mountOidc L cfg oidc rt =
     (case oidc of
        None \<Rightarrow> Some rt
      | Some h \<Rightarrow>
          routerMount (al_Taken L) ''/auth''
            (((''GET'', ''/login''), PlainTarget (case b_loginHandler cfg of Some l \<Rightarrow> l | None \<Rightarrow> defaultLoginHandler)) #
             authTargets (oidcRoutes (oh_cfg h))) rt)"

definition mountPassword ::
    "('s, 'p, 'e) app_libs \<Rightarrow> ('s, 'p) builder \<Rightarrow> 's password_handler option \<Rightarrow> 's router \<Rightarrow> 's router option" where
  "mountPassword L cfg pw rt =
     (case pw of
        None \<Rightarrow> Some rt
      | Some _ \<Rightarrow>
          routerMount (al_Taken L) (pcfg_PathPrefix (the (b_passwordConfig cfg))) (authTargets passwordRoutes) rt)"

fun registerModules ::
    "('s, 'p) module list \<Rightarrow> ('s, 'p) dependencies \<Rightarrow> 's router \<Rightarrow> go_error option \<times> 's router" where
  "registerModules [] deps rt = (None, rt)"
| "registerModules (m # ms) deps rt =
     (case m deps of
        Inl err \<Rightarrow> (Some err, rt)
      | Inr rs \<Rightarrow> registerModules ms deps (routerAdd rs rt))"

section \<open>Initialisation\<close>

datatype startup_failure = StartupError go_error | StartupPanic

text \<open>The part of \<open>Run\<close> up to the server; \<open>t\<close> numbers the calls to the database.\<close>

definition buildRouter ::
    "('s, 'p, 'e) app_libs \<Rightarrow> ('s, 'p) gotchi_app \<Rightarrow> ('s, 'p) dependencies \<Rightarrow>
     startup_failure option \<times> 's router" where
  "buildRouter L a deps =
     (case setupMiddleware L a (dep_Session deps) of
        None \<Rightarrow> (Some StartupPanic, app_router a)
      | Some rt1 \<Rightarrow>
          (case mountOidc L (app_config a) (dep_Auth deps) rt1 of
             None \<Rightarrow> (Some StartupPanic, rt1)
           | Some rt2 \<Rightarrow>
               (case mountPassword L (app_config a) (dep_Password deps) rt2 of
                  None \<Rightarrow> (Some StartupPanic, rt2)
                | Some rt3 \<Rightarrow>
                    (case registerModules (b_modules (app_config a)) deps rt3 of
                       (err, rt4) \<Rightarrow> (map_option StartupError err, rt4)))))"

definition initialize ::
    "('s, 'p, 'e) app_libs \<Rightarrow> nat \<Rightarrow> ctx option \<Rightarrow> ('s, 'p) gotchi_app \<Rightarrow> otel_globals \<Rightarrow>
     startup_failure option \<times> ('s, 'p) gotchi_app \<times> otel_globals" where
  "initialize L t x a g =
     (case setupAppOTEL L a g of
        (Some err, a1, g1) \<Rightarrow> (Some (StartupError err), a1, g1)
      | (None, a1, g1) \<Rightarrow>
          (case Connect (al_pgx L) t x (app_db a1) of
             (Some err, m) \<Rightarrow> (Some (StartupError err), a1\<lparr>app_db := m\<rparr>, g1)
           | (None, m) \<Rightarrow>
               (let m' = fold AddMigrationSource (migrationSources L (app_config a1)) m;
                    a2 = a1\<lparr>app_db := m'\<rparr>
                in case RunMigrations (al_pgx L) (Suc t) x m' of
                     Some err \<Rightarrow> (Some (StartupError err), a2, g1)
                   | None \<Rightarrow>
                       (case buildServices L (app_config a2) m' of
                          Inl err \<Rightarrow> (Some (StartupError err), a2, g1)
                        | Inr deps \<Rightarrow>
                            (case buildRouter L a2 deps of
                               (failure, rt) \<Rightarrow>
                                 (failure, a2\<lparr>app_dependencies := Some deps, app_router := rt\<rparr>, g1))))))"

definition closeApp :: "('s, 'p) gotchi_app \<Rightarrow> go_error list \<times> ('s, 'p) gotchi_app" where
  "closeApp a =
     (let (err, m) = Close (app_db a);
          errs = (case err of None \<Rightarrow> [] | Some e \<Rightarrow> [e])
      in (errs @ (case app_otelShutdown a of None \<Rightarrow> [] | Some shutdown \<Rightarrow> shutdown []), a\<lparr>app_db := m\<rparr>))"

section \<open>Construction: lemmas\<close>

lemma applyOptions_keeps:
  "applyOptions opts b = Inr b' \<Longrightarrow> \<forall>opt\<in>set opts. offeredOption opt \<Longrightarrow> settingsOk b \<Longrightarrow> settingsOk b'"
proof (induction opts arbitrary: b)
  case (Cons opt opts)
  then obtain b1 where "opt b = Inr b1" "applyOptions opts b1 = Inr b'"
    by (auto split: sum.splits)
  with Cons show ?case using offeredOption_keeps [of opt b b1] by auto
qed simp

lemma New_cases:
  assumes "New opts = Inr a"
  obtains b0 where "applyOptions opts emptyBuilder = Inr b0" and "builderValidate (applyDefaults b0) = None"
    and "a = \<lparr>app_config = applyDefaults b0, app_router = emptyRouter,
              app_db = NewManager (the (b_dbConfig (applyDefaults b0))), app_dependencies = None,
              app_resolvedOTEL = None, app_otelShutdown = None\<rparr>"
  using assms by (auto simp: New_def Let_def split: sum.splits option.splits)

lemma New_session:
  assumes "New opts = Inr a" and "b_authConfig (app_config a) \<noteq> None \<or> b_passwordConfig (app_config a) \<noteq> None"
  shows "b_sessionConfig (app_config a) \<noteq> None"
  using assms(1)
proof (rule New_cases)
  fix b0
  assume a: "a = \<lparr>app_config = applyDefaults b0, app_router = emptyRouter,
              app_db = NewManager (the (b_dbConfig (applyDefaults b0))), app_dependencies = None,
              app_resolvedOTEL = None, app_otelShutdown = None\<rparr>"
  with assms(2) show ?thesis
    using applyDefaults_session [of b0] by (auto simp: applyDefaults_simps simp del: not_None_eq)
qed

text \<open>
  C31 An application that \<open>New\<close> builds from the package's options has a database URL; the
  issuer, client id, secret and redirect URL when OIDC is configured, with every path and key
  of the configuration filled; sessions whenever some authentication is configured; a CORS
  configuration only with an origin, and never a wildcard origin together with credentials; a
  positive shutdown timeout and a port; a clock and a logger. Nothing is connected and no
  route exists yet.
\<close>

theorem new_application:
  assumes "\<forall>opt\<in>set opts. offeredOption opt" and "New opts = Inr a"
  shows "(\<exists>d. b_dbConfig (app_config a) = Some d \<and> dbc_DatabaseURL d \<noteq> '''' \<and> app_db a = NewManager d) \<and>
    (\<forall>c. b_authConfig (app_config a) = Some c \<longrightarrow>
       cfg_IssuerURL c \<noteq> '''' \<and> cfg_ClientID c \<noteq> '''' \<and> cfg_ClientSecret c \<noteq> '''' \<and> cfg_RedirectURL c \<noteq> '''' \<and>
       withDefaults c = c) \<and>
    (b_authConfig (app_config a) \<noteq> None \<or> b_passwordConfig (app_config a) \<noteq> None \<longrightarrow>
       b_sessionConfig (app_config a) \<noteq> None) \<and>
    (\<forall>c. b_corsConfig (app_config a) = Some c \<longrightarrow>
       cc_AllowedOrigins c \<noteq> [] \<and> \<not> (cc_AllowCredentials c \<and> ''*'' \<in> set (cc_AllowedOrigins c))) \<and>
    0 < b_shutdownTimeout (app_config a) \<and> b_port (app_config a) \<noteq> '''' \<and>
    b_clock (app_config a) \<noteq> None \<and> b_logger (app_config a) \<noteq> None \<and>
    rt_routes (app_router a) = [] \<and> Pool (app_db a) = None"
  using assms(2)
proof (rule New_cases)
  fix b0
  assume b0: "applyOptions opts emptyBuilder = Inr b0" "builderValidate (applyDefaults b0) = None"
    and a: "a = \<lparr>app_config = applyDefaults b0, app_router = emptyRouter,
              app_db = NewManager (the (b_dbConfig (applyDefaults b0))), app_dependencies = None,
              app_resolvedOTEL = None, app_otelShutdown = None\<rparr>"
  have ok: "settingsOk b0"
    using applyOptions_keeps [OF b0(1) assms(1)] by simp
  have "b_port (applyDefaults b0) \<noteq> ''''"
    by (simp add: applyDefaults_simps orDefault_def)
  moreover have "0 < b_shutdownTimeout (applyDefaults b0)"
    using ok defaultShutdownTimeout_pos by (simp add: applyDefaults_simps settingsOk_def)
  moreover have "\<forall>c. b_corsConfig (applyDefaults b0) = Some c \<longrightarrow>
       cc_AllowedOrigins c \<noteq> [] \<and> \<not> (cc_AllowCredentials c \<and> ''*'' \<in> set (cc_AllowedOrigins c))"
    using ok by (simp add: applyDefaults_simps settingsOk_def corsSafe_def)
  moreover have "\<forall>c. b_authConfig (applyDefaults b0) = Some c \<longrightarrow> withDefaults c = c"
    by (auto simp: applyDefaults_simps withDefaults_idem)
  moreover note b0(2) [unfolded builderValidate_None] New_session [OF assms(2)]
    applyDefaults_simps(8,9) [of b0]
  ultimately show ?thesis
    by (auto simp: a emptyRouter_def NewManager_def Pool_def)
qed

text \<open>Options that build an application, and two that do not.\<close>

definition sampleOptions :: "(string \<Rightarrow> session_value option, unit) app_option list" where
  "sampleOptions = [WithDatabase ''postgres://db'', WithPasswordAuth samplePasswordConfig,
     WithCORS ''https://example.com'' [], WithNoDefaultMiddleware]"

lemma sampleOptions_offered: "\<forall>opt\<in>set sampleOptions. offeredOption opt"
  by (auto simp: sampleOptions_def intro: offeredOption.intros)

lemma sampleOptions_builder:
  "\<exists>b0. applyOptions sampleOptions emptyBuilder = Inr b0 \<and> builderValidate (applyDefaults b0) = None \<and>
     b_passwordConfig b0 = Some samplePasswordConfig \<and> b_authConfig b0 = None \<and> b_identityStore b0 = None \<and>
     b_middleware b0 = [] \<and> b_modules b0 = [] \<and> b_sessionConfig b0 = None"
  by (simp add: sampleOptions_def option_defs corsValidate_def corsDefaults_def Let_def builderValidate_None
      applyDefaults_simps emptyBuilder_def)

lemma sampleOptions_new:
  "\<exists>a. New sampleOptions = Inr a \<and> b_passwordConfig (app_config a) = Some (passwordDefaults samplePasswordConfig)"
  using sampleOptions_builder by (auto simp: New_def Let_def applyDefaults_simps)

theorem new_application_witness:
  "\<exists>a. New sampleOptions = Inr a \<and> b_sessionConfig (app_config a) \<noteq> None \<and> b_port (app_config a) \<noteq> ''''"
proof -
  obtain a where a: "New sampleOptions = Inr a"
    and pw: "b_passwordConfig (app_config a) = Some (passwordDefaults samplePasswordConfig)"
    using sampleOptions_new by blast
  from new_application [OF sampleOptions_offered a] pw a show ?thesis by auto
qed

section \<open>Initialisation: lemmas\<close>

lemma setupAppOTEL_keeps:
  "setupAppOTEL L a g = (err, a1, g1) \<Longrightarrow>
     app_config a1 = app_config a \<and> app_router a1 = app_router a \<and> app_dependencies a1 = app_dependencies a \<and>
     Pool (app_db a1) = Pool (app_db a) \<and> dbm_migrationFiles (app_db a1) = dbm_migrationFiles (app_db a)"
  by (auto simp: setupAppOTEL_def Let_def EnableOTELTracing_def Pool_def split: option.splits prod.splits sum.splits)

lemma Connect_pool:
  "Connect L t x m = (None, m') \<Longrightarrow> Pool m' \<noteq> None \<and> dbm_migrationFiles m' = dbm_migrationFiles m"
  by (auto simp: Connect_def Pool_def Let_def split: option.splits sum.splits)

lemma fold_AddMigrationSource [simp]:
  "Pool (fold AddMigrationSource srcs m) = Pool m"
  "dbm_migrationFiles (fold AddMigrationSource srcs m) =
     dbm_migrationFiles m @ map (\<lambda>s. if ms_Dir s = '''' then s\<lparr>ms_Dir := ''.''\<rparr> else s) srcs"
  by (induction srcs arbitrary: m) (auto simp: AddMigrationSource_def Pool_def Let_def)

lemma RunMigrations_merged:
  "RunMigrations L t x m = None \<Longrightarrow> isOk (mergeMigrationSources (dbm_migrationFiles m))"
  by (auto simp: RunMigrations_def isOk_def mergeMigrationSources_def
      split: option.splits if_splits sum.splits)

text \<open>A run of the initialisation that reaches the server.\<close>

lemma initialize_ok:
  assumes "initialize L t x a g = (None, a', g')"
  obtains a2 m deps rt where
    "app_config a2 = app_config a" "app_router a2 = app_router a" "app_db a2 = m"
    "Pool m \<noteq> None"
    "dbm_migrationFiles m = dbm_migrationFiles (app_db a) @
       map (\<lambda>s. if ms_Dir s = '''' then s\<lparr>ms_Dir := ''.''\<rparr> else s) (migrationSources L (app_config a))"
    "isOk (mergeMigrationSources (dbm_migrationFiles m))"
    "buildServices L (app_config a) m = Inr deps" "buildRouter L a2 deps = (None, rt)"
    "a' = a2\<lparr>app_dependencies := Some deps, app_router := rt\<rparr>"
proof -
  from assms obtain a1 g1 m0 where s: "setupAppOTEL L a g = (None, a1, g1)"
    and c: "Connect (al_pgx L) t x (app_db a1) = (None, m0)"
    by (auto simp: initialize_def Let_def split: prod.splits option.splits)
  let ?m = "fold AddMigrationSource (migrationSources L (app_config a1)) m0"
  let ?a2 = "a1\<lparr>app_db := ?m\<rparr>"
  from assms s c obtain deps rt where r: "RunMigrations (al_pgx L) (Suc t) x ?m = None"
    and b: "buildServices L (app_config a1) ?m = Inr deps" "buildRouter L ?a2 deps = (None, rt)"
    and a': "a' = ?a2\<lparr>app_dependencies := Some deps, app_router := rt\<rparr>"
    by (auto simp: initialize_def Let_def split: prod.splits option.splits sum.splits)
  show ?thesis
    by (rule that [OF _ _ _ _ _ _ _ b(2) a'])
      (use setupAppOTEL_keeps [OF s] Connect_pool [OF c] RunMigrations_merged [OF r] b(1) in simp_all)
qed

lemma NewOIDCHandler_ok:
  "NewOIDCHandler L cfg sm (Some st) = Inr h \<Longrightarrow>
     oh_session h = sm \<and> oh_store h = st \<and> oh_cfg h = withDefaults (withDefaults cfg)"
  by (auto simp: NewOIDCHandler_def NewOIDCHandlerWithAuthenticator_def Let_def split: sum.splits)

lemma NewOIDCHandler_store: "NewOIDCHandler L cfg sm st = Inr h \<Longrightarrow> st \<noteq> None"
  by (auto simp: NewOIDCHandler_def Let_def split: option.splits)

text \<open>What the services are.\<close>

lemma buildServices_ok:
  assumes "buildServices L cfg m = Inr deps"
  shows "dep_Pool deps = Pool m \<and> dep_DB deps = m \<and> dep_Session deps = sessionManagerOf L cfg \<and>
     (case b_authConfig cfg of
        None \<Rightarrow> dep_Auth deps = None
      | Some c \<Rightarrow> \<exists>h st. dep_Auth deps = Some h \<and> dep_IdentityStore deps = Some st \<and>
          oh_session h = the (dep_Session deps) \<and> oh_store h = storeApi (al_env L) st) \<and>
     (case b_passwordConfig cfg of
        None \<Rightarrow> dep_Password deps = None
      | Some c \<Rightarrow> \<exists>pg s. dep_IdentityStore deps = Some (PostgresStore pg) \<and>
          NewPasswordIdentityStore (al_env L) (Pool m \<noteq> None) (Some pg) c = Inr s \<and>
          dep_Password deps = Some (NewPasswordHandler c s (the (dep_Session deps)))) \<and>
     (dep_IdentityStore deps =
        (if b_identityStore cfg = None \<and> (b_authConfig cfg \<noteq> None \<or> b_passwordConfig cfg \<noteq> None)
         then Some (defaultStore m) else b_identityStore cfg))"
proof -
  let ?store1 = "oidcIdentityStore cfg m" and ?sm = "sessionManagerOf L cfg"
  from assms obtain oidc pw store2 where o: "buildOidc L cfg ?sm ?store1 = Inr oidc"
    and p: "buildPassword L cfg m ?sm ?store1 = Inr (pw, store2)"
    and d: "dep_DB deps = m" "dep_Pool deps = Pool m" "dep_Session deps = ?sm" "dep_Auth deps = oidc"
      "dep_Password deps = pw" "dep_IdentityStore deps = store2"
    by (auto simp: buildServices_def Let_def split: sum.splits prod.splits)
  have store2: "store2 = (case b_passwordConfig cfg of None \<Rightarrow> ?store1
      | Some _ \<Rightarrow> Some (case ?store1 of None \<Rightarrow> defaultStore m | Some s \<Rightarrow> s))"
    using p by (auto simp: buildPassword_def Let_def split: option.splits sum.splits identity_store.splits)
  have auth: "case b_authConfig cfg of None \<Rightarrow> oidc = None
      | Some c \<Rightarrow> \<exists>h st. oidc = Some h \<and> store2 = Some st \<and> oh_session h = the ?sm \<and> oh_store h = storeApi (al_env L) st"
  proof (cases "b_authConfig cfg")
    case None
    with o show ?thesis by (simp add: buildOidc_def)
  next
    case (Some c)
    then obtain st where st: "?store1 = Some st"
      by (cases "b_identityStore cfg") (auto simp: oidcIdentityStore_def)
    with o Some obtain h where "oidc = Some h"
      and h: "NewOIDCHandler (al_oidc L) (c\<lparr>cfg_Enabled := True\<rparr>) (the ?sm) (Some (storeApi (al_env L) st)) = Inr h"
      by (auto simp: buildOidc_def split: sum.splits)
    with NewOIDCHandler_ok [OF h] st store2 Some show ?thesis by (auto split: option.split)
  qed
  have password: "case b_passwordConfig cfg of None \<Rightarrow> pw = None
      | Some c \<Rightarrow> \<exists>pg s. store2 = Some (PostgresStore pg) \<and>
          NewPasswordIdentityStore (al_env L) (Pool m \<noteq> None) (Some pg) c = Inr s \<and>
          pw = Some (NewPasswordHandler c s (the ?sm))"
  proof (cases "b_passwordConfig cfg")
    case None
    with p show ?thesis by (simp add: buildPassword_def)
  next
    case (Some c)
    define st where "st = (case ?store1 of None \<Rightarrow> defaultStore m | Some s \<Rightarrow> s)"
    from p Some show ?thesis
      by (cases st) (auto simp: buildPassword_def Let_def simp flip: st_def split: sum.splits)
  qed
  have "store2 = (if b_identityStore cfg = None \<and> (b_authConfig cfg \<noteq> None \<or> b_passwordConfig cfg \<noteq> None)
         then Some (defaultStore m) else b_identityStore cfg)"
    by (auto simp: store2 oidcIdentityStore_def split: option.split)
  with auth password show ?thesis
    unfolding d by (intro conjI refl)
qed

lemma routerUse_ok: "routerUse mws rt = Some rt' \<Longrightarrow> rt_middleware rt' = rt_middleware rt @ mws \<and> rt_routes rt' = rt_routes rt"
  by (auto simp: routerUse_def split: if_splits)

lemma routerMount_ok:
  "routerMount taken pat rs rt = Some rt' \<Longrightarrow> rt_middleware rt' = rt_middleware rt \<and>
     rt_routes rt' = rt_routes rt @ prefixRoutes pat rs"
  by (auto simp: routerMount_def split: if_splits)

lemma registerModules_ok:
  "registerModules ms deps rt = (err, rt') \<Longrightarrow> rt_middleware rt' = rt_middleware rt \<and>
     (\<exists>rs. rt_routes rt' = rt_routes rt @ map (\<lambda>(p, h). (p, PlainTarget h)) rs)"
proof (induction ms arbitrary: rt)
  case (Cons m ms)
  show ?case
  proof (cases "m deps")
    case (Inl e)
    with Cons.prems show ?thesis by (auto intro: exI [of _ "[]"])
  next
    case (Inr rs)
    with Cons.prems have "registerModules ms deps (routerAdd rs rt) = (err, rt')" by simp
    from Cons.IH [OF this] show ?thesis
      by (auto simp: routerAdd_def simp flip: map_append)
  qed
qed (auto intro: exI [of _ "[]"])

text \<open>The routes under a prefix that lead to the endpoints of a handler.\<close>

definition mountedRoutes :: "string \<Rightarrow> route list \<Rightarrow> ((string \<times> string) \<times> 's target) list" where
  "mountedRoutes pat rs = prefixRoutes pat (authTargets rs)"

lemma prefixRoutes_Cons [simp]: "prefixRoutes pat (((m, p), h) # rs) = ((m, pat @ p), h) # prefixRoutes pat rs"
  by (simp add: prefixRoutes_def)

lemma buildRouter_ok:
  assumes "buildRouter L a deps = (None, rt)" and "app_router a = emptyRouter"
  shows "rt_middleware rt = middlewareChain L (app_config a) (app_resolvedOTEL a) (dep_Session deps) \<and>
     (\<exists>rs. rt_routes rt =
        (case dep_Auth deps of
           None \<Rightarrow> []
         | Some h \<Rightarrow> ((''GET'', ''/auth/login''), PlainTarget (case b_loginHandler (app_config a) of Some l \<Rightarrow> l | None \<Rightarrow> defaultLoginHandler)) #
             mountedRoutes ''/auth'' (oidcRoutes (oh_cfg h))) @
        (case dep_Password deps of
           None \<Rightarrow> []
         | Some _ \<Rightarrow> mountedRoutes (pcfg_PathPrefix (the (b_passwordConfig (app_config a)))) passwordRoutes) @
        map (\<lambda>(p, h). (p, PlainTarget h)) rs)"
proof -
  from assms(1) obtain rt1 rt2 rt3 where 1: "setupMiddleware L a (dep_Session deps) = Some rt1"
    and 2: "mountOidc L (app_config a) (dep_Auth deps) rt1 = Some rt2"
    and 3: "mountPassword L (app_config a) (dep_Password deps) rt2 = Some rt3"
    and 4: "registerModules (b_modules (app_config a)) deps rt3 = (None, rt)"
    by (auto simp: buildRouter_def split: option.splits prod.splits)
  have r1: "rt_middleware rt1 = middlewareChain L (app_config a) (app_resolvedOTEL a) (dep_Session deps) \<and> rt_routes rt1 = []"
    using routerUse_ok [OF 1 [unfolded setupMiddleware_def]] assms(2) by (simp add: emptyRouter_def)
  have r2: "rt_middleware rt2 = rt_middleware rt1 \<and> rt_routes rt2 = rt_routes rt1 @
      (case dep_Auth deps of
           None \<Rightarrow> []
         | Some h \<Rightarrow> ((''GET'', ''/auth/login''), PlainTarget (case b_loginHandler (app_config a) of Some l \<Rightarrow> l | None \<Rightarrow> defaultLoginHandler)) #
             mountedRoutes ''/auth'' (oidcRoutes (oh_cfg h)))"
    using 2 by (auto simp: mountOidc_def mountedRoutes_def split: option.splits dest!: routerMount_ok)
  have r3: "rt_middleware rt3 = rt_middleware rt2 \<and> rt_routes rt3 = rt_routes rt2 @
      (case dep_Password deps of
           None \<Rightarrow> []
         | Some _ \<Rightarrow> mountedRoutes (pcfg_PathPrefix (the (b_passwordConfig (app_config a)))) passwordRoutes)"
    using 3 by (auto simp: mountPassword_def mountedRoutes_def split: option.splits dest!: routerMount_ok)
  from registerModules_ok [OF 4] r1 r2 r3 show ?thesis by auto
qed

section \<open>Properties of the initialisation\<close>

text \<open>
  C32 When the initialisation of an application built by \<open>New\<close> reaches the server, the pool is
  open and all migrations could be merged: the built-in sets that were enabled, then the
  application's own. There is an OIDC handler exactly when OIDC is configured and a password
  handler exactly when password authentication is; both use the application's one session
  manager and its one identity store, which with passwords is a PostgreSQL store, so with a
  custom identity store and passwords no application starts. The router has the middleware in
  the order of the code and serves the login page and the OIDC endpoints under \<open>/auth\<close>, the
  password endpoints under the configured prefix, and what the modules registered.
\<close>

theorem startup_services:
  assumes "New opts = Inr a" and "initialize L t x a g = (None, a', g')"
  shows "\<exists>deps rs. app_dependencies a' = Some deps \<and> dep_Pool deps \<noteq> None \<and>
    dbm_migrationFiles (dep_DB deps) =
      map (\<lambda>s. if ms_Dir s = '''' then s\<lparr>ms_Dir := ''.''\<rparr> else s) (migrationSources L (app_config a)) \<and>
    isOk (mergeMigrationSources (dbm_migrationFiles (dep_DB deps))) \<and>
    (dep_Auth deps = None \<longleftrightarrow> b_authConfig (app_config a) = None) \<and>
    (dep_Password deps = None \<longleftrightarrow> b_passwordConfig (app_config a) = None) \<and>
    (\<forall>h. dep_Auth deps = Some h \<longrightarrow> Some (oh_session h) = dep_Session deps \<and>
       (\<exists>st. dep_IdentityStore deps = Some st \<and> oh_store h = storeApi (al_env L) st)) \<and>
    (\<forall>h. dep_Password deps = Some h \<longrightarrow> Some (ph_Session h) = dep_Session deps \<and>
       dep_IdentityStore deps = Some (PostgresStore (ps_Inner (ph_Store h)))) \<and>
    rt_middleware (app_router a') = middlewareChain L (app_config a) (app_resolvedOTEL a') (dep_Session deps) \<and>
    rt_routes (app_router a') =
      (case dep_Auth deps of
         None \<Rightarrow> []
       | Some h \<Rightarrow> ((''GET'', ''/auth/login''), PlainTarget (case b_loginHandler (app_config a) of Some l \<Rightarrow> l | None \<Rightarrow> defaultLoginHandler)) #
           mountedRoutes ''/auth'' (oidcRoutes (oh_cfg h))) @
      (case dep_Password deps of
         None \<Rightarrow> []
       | Some _ \<Rightarrow> mountedRoutes (pcfg_PathPrefix (the (b_passwordConfig (app_config a)))) passwordRoutes) @
      map (\<lambda>(p, h). (p, PlainTarget h)) rs"
  using assms(2)
proof (rule initialize_ok)
  fix a2 m deps rt
  assume a2: "app_config a2 = app_config a" "app_router a2 = app_router a" "app_db a2 = m" and m: "Pool m \<noteq> None"
    and files: "dbm_migrationFiles m = dbm_migrationFiles (app_db a) @
       map (\<lambda>s. if ms_Dir s = '''' then s\<lparr>ms_Dir := ''.''\<rparr> else s) (migrationSources L (app_config a))"
    and merged: "isOk (mergeMigrationSources (dbm_migrationFiles m))"
    and b: "buildServices L (app_config a) m = Inr deps" and rt: "buildRouter L a2 deps = (None, rt)"
    and a': "a' = a2\<lparr>app_dependencies := Some deps, app_router := rt\<rparr>"
  have fresh: "app_router a = emptyRouter" "dbm_migrationFiles (app_db a) = []"
    using assms(1) by (auto elim!: New_cases simp: NewManager_def)
  have "dep_Session deps \<noteq> None" if "b_authConfig (app_config a) \<noteq> None \<or> b_passwordConfig (app_config a) \<noteq> None"
    using New_session [OF assms(1) that] buildServices_ok [OF b] by (auto simp: sessionManagerOf_def)
  moreover obtain rs where rs: "rt_middleware rt = middlewareChain L (app_config a) (app_resolvedOTEL a2) (dep_Session deps)"
    "rt_routes rt = (case dep_Auth deps of
         None \<Rightarrow> []
       | Some h \<Rightarrow> ((''GET'', ''/auth/login''), PlainTarget (case b_loginHandler (app_config a) of Some l \<Rightarrow> l | None \<Rightarrow> defaultLoginHandler)) #
           mountedRoutes ''/auth'' (oidcRoutes (oh_cfg h))) @
      (case dep_Password deps of
         None \<Rightarrow> []
       | Some _ \<Rightarrow> mountedRoutes (pcfg_PathPrefix (the (b_passwordConfig (app_config a)))) passwordRoutes) @
      map (\<lambda>(p, h). (p, PlainTarget h)) rs"
    using buildRouter_ok [OF rt, unfolded a2] fresh(1) by blast
  moreover note buildServices_ok [OF b] m files merged fresh(2)
  ultimately show ?thesis
    by (intro exI [of _ deps] exI [of _ rs])
      (auto simp: a' NewPasswordHandler_def NewPasswordIdentityStore_def Let_def split: option.splits if_splits)
qed

end
