(* ===== verification/AppServer.thy ===== *)
theory AppServer
  imports App
begin

text \<open>
  A started application (\<open>app/app.go\<close>) serving its authentication routes through its whole
  middleware chain: what is assumed of middleware that is not the program's own, the step
  relation over the tables and all clients' sessions, and the tenant isolation of the
  program as \<open>New\<close> and \<open>Run\<close> put it together.
\<close>

section \<open>Serving through the middleware\<close>

text \<open>
  What the application relies on of a middleware it does not model: it calls the next handler
  at most once and changes the world only by that. For predicates that no clock tick affects,
  whatever holds after the next handler, and held before, holds after the middleware.
\<close>

definition tickless :: "('s web \<Rightarrow> bool) \<Rightarrow> bool" where
  "tickless P \<longleftrightarrow> (\<forall>w n. P (w\<lparr>w_tick := n\<rparr>) = P w)"

definition leads :: "('s web \<Rightarrow> bool) \<Rightarrow> 's observed_handler \<Rightarrow> ('s web \<Rightarrow> bool) \<Rightarrow> bool" where
  "leads P h Q \<longleftrightarrow> (\<forall>r w t resp w' t'. P w \<longrightarrow> run_state (h r) (w, t) = (resp, w', t') \<longrightarrow> Q w')"

definition harmless :: "'s middleware \<Rightarrow> bool" where
  "harmless mw \<longleftrightarrow>
     (\<forall>P Q h. tickless P \<longrightarrow> tickless Q \<longrightarrow> (\<forall>w. P w \<longrightarrow> Q w) \<longrightarrow> leads P h Q \<longrightarrow> leads P (mw h) Q)"

lemma leadsI:
  "(\<And>r w t resp w' t'. P w \<Longrightarrow> run_state (h r) (w, t) = (resp, w', t') \<Longrightarrow> Q w') \<Longrightarrow> leads P h Q"
  unfolding leads_def by blast

lemma leadsD: "leads P h Q \<Longrightarrow> run_state (h r) (w, t) = (resp, w', t') \<Longrightarrow> P w \<Longrightarrow> Q w'"
  unfolding leads_def by blast

lemma ticklessD: "tickless P \<Longrightarrow> P (w\<lparr>w_tick := n\<rparr>) = P w"
  by (simp add: tickless_def)

lemma harmlessI:
  "(\<And>P Q h. tickless P \<Longrightarrow> tickless Q \<Longrightarrow> leads P h Q \<Longrightarrow> leads P (mw h) Q) \<Longrightarrow> harmless mw"
  by (simp add: harmless_def)

lemma harmlessD:
  "harmless mw \<Longrightarrow> tickless P \<Longrightarrow> tickless Q \<Longrightarrow> \<forall>w. P w \<longrightarrow> Q w \<Longrightarrow> leads P h Q \<Longrightarrow> leads P (mw h) Q"
  by (simp add: harmless_def)

lemma harmless_id [simp]: "harmless id"
  by (simp add: harmless_def)

lemma harmless_audit: "harmless (CorrelationAndAudit E sm key)"
proof (rule harmlessI, rule leadsI)
  fix P Q :: "'a web \<Rightarrow> bool" and h r w t resp w' t'
  assume tick: "tickless P" "tickless Q" and h: "leads P h Q" and P: "P w"
    and run: "run_state (CorrelationAndAudit E sm key h r) (w, t) = (resp, w', t')"
  from run obtain r' n resp1 w1 t1 where "run_state (h r') (w\<lparr>w_tick := n\<rparr>, t) = (resp1, w1, t1)"
    and "w' = w1\<lparr>w_tick := Suc (w_tick w1)\<rparr>"
    by (auto simp: run_CorrelationAndAudit Let_def split: prod.splits)
  with leadsD [OF h] P tick show "Q w'" by (auto simp: ticklessD)
qed

lemma harmless_tracing: "harmless (OTELTracingMiddleware L)"
proof (rule harmlessI, rule leadsI)
  fix P Q :: "'a web \<Rightarrow> bool" and h r w t resp w' t'
  assume h: "leads P h Q" and P: "P w"
    and run: "run_state (OTELTracingMiddleware L h r) (w, t) = (resp, w', t')"
  from run obtain r' resp1 t1 where "run_state (h r') (w, t) = (resp1, w', t1)"
    by (auto simp: OTELTracingMiddleware_def Let_def split: prod.splits)
  with leadsD [OF h] P show "Q w'" by blast
qed

lemma harmless_metrics: "harmless (OTELMetricsMiddleware E L)"
proof (rule harmlessI, rule leadsI)
  fix P Q :: "'a web \<Rightarrow> bool" and h r w t resp w' t'
  assume tick: "tickless P" "tickless Q" and h: "leads P h Q" and P: "P w"
    and run: "run_state (OTELMetricsMiddleware E L h r) (w, t) = (resp, w', t')"
  from run obtain n resp1 w1 t1 where "run_state (h r) (w\<lparr>w_tick := n\<rparr>, t) = (resp1, w1, t1)"
    and "w' = w1\<lparr>w_tick := Suc (w_tick w1)\<rparr>"
    by (auto simp: OTELMetricsMiddleware_def timeNow_def nextTick_def Let_def split: prod.splits)
  with leadsD [OF h] P tick show "Q w'" by (auto simp: ticklessD)
qed

lemma wrapAll_simps [simp]: "wrapAll [] h = h" "wrapAll (mw # mws) h = mw (wrapAll mws h)"
  by (simp_all add: wrapAll_def)

lemma wrapAll_leads:
  assumes "tickless P" and "tickless Q" and "\<forall>w. P w \<longrightarrow> Q w" and "leads P h Q"
  shows "\<forall>mw\<in>set mws. harmless mw \<Longrightarrow> leads P (wrapAll mws h) Q"
proof (induction mws)
  case Nil
  from assms(4) show ?case by simp
next
  case (Cons mw mws)
  then have "leads P (wrapAll mws h) Q" by simp
  from harmlessD [OF _ assms(1-3) this] Cons.prems show ?case by simp
qed

text \<open>The middleware that is not the application's own.\<close>

definition foreignMiddleware :: "('s, 'p, 'e) app_libs \<Rightarrow> ('s, 'p) builder \<Rightarrow> 's session_manager option \<Rightarrow> 's middleware set" where
  "foreignMiddleware L cfg sm =
     {al_RealIP L, al_Logger L, al_Recoverer L} \<union>
     (case b_corsConfig cfg of None \<Rightarrow> {} | Some c \<Rightarrow> {al_Cors L c}) \<union>
     (case sm of None \<Rightarrow> {} | Some m \<Rightarrow> {al_LoadAndSave L m}) \<union> set (b_middleware cfg)"

lemma middlewareChain_harmless:
  assumes "\<forall>mw\<in>foreignMiddleware L cfg sm. harmless mw"
  shows "\<forall>mw\<in>set (middlewareChain L cfg otelCfg sm). harmless mw"
  using assms harmless_audit harmless_tracing harmless_metrics
  by (auto simp: middlewareChain_def foreignMiddleware_def split: option.splits if_splits)

section \<open>The application as a server\<close>

definition handlersOf :: "('s, 'p, 'e) app_libs \<Rightarrow> ('s, 'p) dependencies \<Rightarrow> 's application" where
  "handlersOf L deps = \<lparr>ap_env = al_env L, ap_libs = al_oidc L, ap_password = the (dep_Password deps),
     ap_oidc = the (dep_Auth deps)\<rparr>"

text \<open>The router serving an authentication route, for a request with the given body.\<close>

definition serveAuth ::
    "('s, 'p, 'e) app_libs \<Rightarrow> ('s, 'p) gotchi_app \<Rightarrow> (request_body \<Rightarrow> endpoint) \<Rightarrow> request_body \<Rightarrow> 's observed_handler" where
  "serveAuth L a q body =
     wrapAll (rt_middleware (app_router a))
       (\<lambda>r. observed (dispatch (handlersOf L (the (app_dependencies a))) (q body) r))"

inductive app_step :: "('s, 'p, 'e) app_libs \<Rightarrow> ('s, 'p) gotchi_app \<Rightarrow> 's server \<Rightarrow> 's server \<Rightarrow> bool" for L a where
  app_request: "(p, AuthTarget q) \<in> set (rt_routes (app_router a)) \<Longrightarrow>
     run_state (serveAuth L a q body r) (requestWorld sv c, t) = (resp, w, t') \<Longrightarrow>
     app_step L a sv (afterRequest sv c w)"
| app_unsaved: "(p, AuthTarget q) \<in> set (rt_routes (app_router a)) \<Longrightarrow>
     run_state (serveAuth L a q body r) (requestWorld sv c, t) = (resp, w, t') \<Longrightarrow>
     app_step L a sv (unsavedRequest sv w)"
| app_others: "outside (sv_db sv) d \<Longrightarrow> app_step L a sv (sv\<lparr>sv_db := d\<rparr>)"

inductive app_reachable :: "('s, 'p, 'e) app_libs \<Rightarrow> ('s, 'p) gotchi_app \<Rightarrow> 's session_manager \<Rightarrow> 's server \<Rightarrow> bool"
  for L a m where
  app_start: "db_ok (sv_db sv) \<Longrightarrow> (\<And>c k. managerGet m (sv_sessions sv c) k = None) \<Longrightarrow> app_reachable L a m sv"
| app_next: "app_reachable L a m sv \<Longrightarrow> app_step L a sv sv' \<Longrightarrow> app_reachable L a m sv'"

inductive_cases app_stepE: "app_step L a sv sv'"

section \<open>A sample application\<close>

text \<open>Libraries that always succeed, and middleware that calls the next handler.\<close>

definition sampleOtelLibs :: otel_libs where
  "sampleOtelLibs = \<lparr>tl_NewResource = (\<lambda>_. None), tl_NewTraceExporter = (\<lambda>_ _. None),
     tl_NewMetricExporter = (\<lambda>_ _. None), tl_ShutdownTracer = (\<lambda>_. None), tl_ShutdownMeter = (\<lambda>_. None),
     tl_Extract = (\<lambda>_ c. c), tl_Start = (\<lambda>c _. c), tl_RoutePattern = (\<lambda>_. None),
     tl_NewHistogram = (\<lambda>_. None), tl_NewCounter = (\<lambda>_. None)\<rparr>"

definition samplePgx :: "(unit, unit) pgx_libs" where
  "samplePgx = \<lparr>px_ParseConfig = (\<lambda>_. Inr \<lparr>plc_RuntimeParams = [], plc_Tracer = None, plc_Hooks = False\<rparr>),
     px_slogTracer = \<lparr>tr_Start = (\<lambda>x. x), tr_End = (\<lambda>_ es. es)\<rparr>,
     px_otelTracer = \<lparr>tr_Start = (\<lambda>x. x), tr_End = (\<lambda>_ es. es)\<rparr>,
     px_New = (\<lambda>_. Inr ()), px_Ping = (\<lambda>_ _ _. None), px_SetDialect = (\<lambda>_. None), px_Up = (\<lambda>_ _ _ _. None)\<rparr>"

definition sampleAppLibs :: "(string \<Rightarrow> session_value option, unit, unit) app_libs" where
  "sampleAppLibs = \<lparr>al_env = sampleEnv, al_pgx = samplePgx, al_otel = sampleOtelLibs, al_oidc = sampleLibs,
     al_scs = sampleScs, al_migrations = (\<lambda>dir n. n), al_RealIP = id, al_Logger = id, al_Recoverer = id,
     al_Cors = (\<lambda>_. id), al_LoadAndSave = (\<lambda>_. id), al_Taken = (\<lambda>ps p. p \<in> set ps)\<rparr>"

definition noGlobals :: otel_globals where
  "noGlobals = \<lparr>og_TracerProvider = None, og_MeterProvider = None, og_Propagators = []\<rparr>"

definition sampleAppManager :: "(string \<Rightarrow> session_value option) session_manager" where
  "sampleAppManager = NewPostgres zeroSession ''sessions'' sampleScs"

text \<open>The builder that the sample options fill.\<close>

lemma sampleOptions_config:
  "\<exists>a. New sampleOptions = Inr a \<and> app_router a = emptyRouter \<and> app_resolvedOTEL a = None \<and> Pool (app_db a) = None \<and>
     dbm_migrationFiles (app_db a) = [] \<and> dbc_EnableSlogTracing (dbm_cfg (app_db a)) = False \<and>
     dbc_OTELTracing (dbm_cfg (app_db a)) = False \<and> dbc_SearchPath (dbm_cfg (app_db a)) = '''' \<and>
     (let b = app_config a in b_identityStore b = None \<and> b_authConfig b = None \<and>
       b_passwordConfig b = Some (passwordDefaults samplePasswordConfig) \<and> b_sessionConfig b = Some zeroSession \<and>
       b_otelConfig b = None \<and> b_enableCoreMigrations b = False \<and> b_enableAuthMigrations b = False \<and>
       b_enablePasswordMigrations b = False \<and> b_migrationSources b = [] \<and> b_modules b = [] \<and> b_middleware b = [] \<and>
       b_disableDefaultMiddleware b = True \<and> b_corsConfig b \<noteq> None)"
  by (simp add: New_def sampleOptions_def option_defs corsValidate_def corsDefaults_def Let_def builderValidate_def
      applyDefaults_def serverDefaults_def authDefaults_def passwordAuthDefaults_def advancedDefaults_def autoSession_def
      emptyBuilder_def NewManager_def Pool_def)

definition sampleDeps :: "unit db_manager \<Rightarrow> logger \<Rightarrow> clock \<Rightarrow> openapi_config \<Rightarrow> (string \<Rightarrow> session_value option, unit) dependencies" where
  "sampleDeps m l c oa = \<lparr>dep_DB = m, dep_Pool = Some (), dep_Session = Some sampleAppManager, dep_Auth = None,
     dep_Password = Some (NewPasswordHandler (passwordDefaults samplePasswordConfig) webPS sampleAppManager),
     dep_IdentityStore = Some (PostgresStore sampleStore), dep_OpenAPI = oa, dep_Logger = l, dep_Clock = c\<rparr>"

lemma sample_startup:
  "\<exists>a a' g' m l c oa. New sampleOptions = Inr a \<and> b_identityStore (app_config a) = None \<and>
     b_passwordConfig (app_config a) = Some (passwordDefaults samplePasswordConfig) \<and>
     initialize sampleAppLibs 0 None a noGlobals = (None, a', g') \<and>
     app_dependencies a' = Some (sampleDeps m l c oa) \<and> app_config a' = app_config a \<and>
     rt_routes (app_router a') = mountedRoutes ''/auth/password'' passwordRoutes \<and>
     rt_middleware (app_router a') = [id, id, CorrelationAndAudit sampleEnv (Some sampleAppManager) DefaultSessionKey] \<and>
     foreignMiddleware sampleAppLibs (app_config a) (Some sampleAppManager) = {id}"
proof -
  obtain a where a: "New sampleOptions = Inr a" "app_router a = emptyRouter" "app_resolvedOTEL a = None"
    "Pool (app_db a) = None" "dbm_migrationFiles (app_db a) = []" "dbc_EnableSlogTracing (dbm_cfg (app_db a)) = False"
    "dbc_OTELTracing (dbm_cfg (app_db a)) = False" "dbc_SearchPath (dbm_cfg (app_db a)) = ''''"
    and b: "b_identityStore (app_config a) = None" "b_authConfig (app_config a) = None"
    "b_passwordConfig (app_config a) = Some (passwordDefaults samplePasswordConfig)"
    "b_sessionConfig (app_config a) = Some zeroSession" "b_otelConfig (app_config a) = None"
    "\<not> b_enableCoreMigrations (app_config a)" "\<not> b_enableAuthMigrations (app_config a)"
    "\<not> b_enablePasswordMigrations (app_config a)" "b_migrationSources (app_config a) = []"
    "b_modules (app_config a) = []" "b_middleware (app_config a) = []" "b_disableDefaultMiddleware (app_config a)"
    and cors: "b_corsConfig (app_config a) \<noteq> None"
    using sampleOptions_config by (auto simp: Let_def)
  define m where "m = (app_db a)\<lparr>dbm_pool := Some ()\<rparr>"
  have otel: "setupAppOTEL sampleAppLibs a noGlobals = (None, a, noGlobals)"
    using b by (simp add: setupAppOTEL_def)
  have conn: "Connect samplePgx 0 None (app_db a) = (None, m)"
    using a(4,6-8) by (simp add: Connect_def Pool_def m_def samplePgx_def poolConfig_def Ping_def Let_def)
  have srcs: "migrationSources sampleAppLibs (app_config a) = []"
    using b by (simp add: migrationSources_def)
  have run: "RunMigrations samplePgx (Suc 0) None m = None"
    using a(5) by (simp add: RunMigrations_def m_def)
  define l where "l = the (b_logger (app_config a))"
  define c where "c = the (b_clock (app_config a))"
  define oa where "oa = (case b_openAPIConfig (app_config a) of None \<Rightarrow> zeroOpenAPI | Some c \<Rightarrow> c)"
  have store: "NewPasswordIdentityStore sampleEnv True (Some sampleStore) (passwordDefaults samplePasswordConfig) =
      Inr webPS"
    by (simp add: NewPasswordIdentityStore_def samplePasswordStore_def passwordDefaults_idem)
  have deps: "buildServices sampleAppLibs (app_config a) m = Inr (sampleDeps m l c oa)"
    using b store by (simp add: buildServices_def buildOidc_def buildPassword_def oidcIdentityStore_def Let_def
        sampleDeps_def sampleAppLibs_def sessionManagerOf_def sampleAppManager_def Pool_def m_def l_def c_def oa_def
        defaultStore_def flip: inner_sample)
  have router: "buildRouter sampleAppLibs (a\<lparr>app_db := m\<rparr>) (sampleDeps m l c oa) =
      (None, \<lparr>rt_middleware = middlewareChain sampleAppLibs (app_config a) None (Some sampleAppManager),
              rt_mounts = [''/auth/password''], rt_routes = mountedRoutes ''/auth/password'' passwordRoutes\<rparr>)"
    using a(2,3) b by (simp add: buildRouter_def setupMiddleware_def routerUse_def emptyRouter_def mountOidc_def mountPassword_def
        routerMount_def mountedRoutes_def sampleDeps_def sampleAppLibs_def)
      (simp add: samplePasswordConfig_def passwordDefaults_def orDefault_def DefaultPathPrefix_def)
  have chain: "middlewareChain sampleAppLibs (app_config a) None (Some sampleAppManager) =
      [id, id, CorrelationAndAudit sampleEnv (Some sampleAppManager) DefaultSessionKey]"
    "foreignMiddleware sampleAppLibs (app_config a) (Some sampleAppManager) = {id}"
    using b cors by (auto simp: middlewareChain_def foreignMiddleware_def sampleAppLibs_def auditKey_def split: option.splits)
  have pgx: "al_pgx sampleAppLibs = samplePgx" by (simp add: sampleAppLibs_def)
  obtain a' where "initialize sampleAppLibs 0 None a noGlobals = (None, a', noGlobals)"
    and "a' = (a\<lparr>app_db := m\<rparr>)\<lparr>app_dependencies := Some (sampleDeps m l c oa),
       app_router := snd (buildRouter sampleAppLibs (a\<lparr>app_db := m\<rparr>) (sampleDeps m l c oa))\<rparr>"
    using conn run deps router by (simp add: initialize_def Let_def otel pgx srcs)
  then show ?thesis
    using a(1) b(1,3) router chain by (intro exI [of _ a] exI [of _ a'] exI conjI) auto
qed

theorem startup_services_witness:
  "\<exists>a a' g' deps h. New sampleOptions = Inr a \<and> initialize sampleAppLibs 0 None a noGlobals = (None, a', g') \<and>
     app_dependencies a' = Some deps \<and> dep_Auth deps = None \<and> dep_Password deps = Some h \<and>
     Some (ph_Session h) = dep_Session deps"
proof -
  obtain a a' g' where a: "New sampleOptions = Inr a" "initialize sampleAppLibs 0 None a noGlobals = (None, a', g')"
    and deps: "\<exists>m l c oa. app_dependencies a' = Some (sampleDeps m l c oa)"
    using sample_startup by metis
  with startup_services [OF a] show ?thesis by (auto simp: sampleDeps_def)
qed

section \<open>Tenant isolation of the whole application\<close>

text \<open>The tables are in order, and the session of the request and those in \<open>S\<close> match them.\<close>

definition worldOk :: "'s session_manager \<Rightarrow> 's set \<Rightarrow> 's web \<Rightarrow> bool" where
  "worldOk m S w \<longleftrightarrow> db_ok (w_db w) \<and> sessionOk m (w_db w) (w_sess w) \<and> (\<forall>s\<in>S. sessionOk m (w_db w) s)"

definition requestOk :: "'s session_manager \<Rightarrow> 's set \<Rightarrow> 's web \<Rightarrow> bool" where
  "requestOk m S w \<longleftrightarrow> w_tx w = None \<and> worldOk m S w"

lemma tickless_ok: "tickless (worldOk m S)" "tickless (requestOk m S)"
  by (simp_all add: tickless_def worldOk_def requestOk_def)

lemma dispatch_leads:
  assumes "wellBuilt A" and "m = oh_session (ap_oidc A)"
  shows "leads (requestOk m S) (\<lambda>r. observed (dispatch A e r)) (worldOk m S)"
proof (rule leadsI)
  fix r w t resp w' t'
  assume P: "requestOk m S w" and "run_state (observed (dispatch A e r)) (w, t) = (resp, w', t')"
  then have run: "run_state (dispatch A e r) w = (resp, w')"
    by (auto split: prod.splits)
  have "w_tx w = None" using P by (simp add: requestOk_def)
  from dispatch_keeps [OF assms(1) this run] P
  have e: "evolves w w'" and s: "sessionOk m (w_db w') (w_sess w')"
    by (simp_all add: keepsInvariant_def requestOk_def worldOk_def assms(2))
  moreover have "db_ok (w_db w')"
    using e P stmt_inv_db_ok by (auto simp: evolves_def requestOk_def worldOk_def)
  moreover have "sessionOk m (w_db w') s" if "s \<in> S" for s
    using evolves_session [OF e, of m s] P that by (simp add: requestOk_def worldOk_def)
  ultimately show "worldOk m S w'" by (simp add: worldOk_def)
qed

lemma authTarget_mounted:
  "(p, AuthTarget q) \<in> set (mountedRoutes pat rs) \<Longrightarrow> q \<in> snd ` set rs"
  by (force simp: mountedRoutes_def prefixRoutes_def authTargets_def)

lemma dispatch_password:
  "q \<in> snd ` set passwordRoutes \<Longrightarrow> ap_env A = ap_env A' \<Longrightarrow> ap_password A = ap_password A' \<Longrightarrow>
     dispatch A (q body) r = dispatch A' (q body) r"
  by (auto simp: passwordRoutes_def)

lemma dispatch_oidc:
  "q \<in> snd ` set (oidcRoutes c) \<Longrightarrow> ap_env A = ap_env A' \<Longrightarrow> ap_libs A = ap_libs A' \<Longrightarrow> ap_oidc A = ap_oidc A' \<Longrightarrow>
     dispatch A (q body) r = dispatch A' (q body) r"
  by (auto simp: oidcRoutes_def)

text \<open>The configured handlers belong to one well-built application.\<close>

lemma handlers_built:
  assumes b: "buildServices L cfg m = Inr deps" and pool: "Pool m \<noteq> None" and scs: "scs_contract (al_scs L)"
    and ses: "b_sessionConfig cfg \<noteq> None"
    and store: "dep_IdentityStore deps = Some (PostgresStore (NewPostgresIdentityStore p n))"
  shows "\<exists>A. wellBuilt A \<and> oh_session (ap_oidc A) = the (dep_Session deps) \<and> ap_env A = al_env L \<and>
     ap_libs A = al_oidc L \<and> (dep_Auth deps \<noteq> None \<longrightarrow> ap_oidc A = the (dep_Auth deps)) \<and>
     (dep_Password deps \<noteq> None \<longrightarrow> ap_password A = the (dep_Password deps))"
proof -
  let ?pg = "NewPostgresIdentityStore p n" and ?sm = "the (dep_Session deps)" and ?E = "al_env L"
  note ok = buildServices_ok [OF b]
  define oidc where "oidc = (case dep_Auth deps of Some h \<Rightarrow> h
    | None \<Rightarrow> NewOIDCHandlerWithAuthenticator undefined undefined ?sm (identityApi ?E ?pg))"
  have o: "oh_session oidc = ?sm \<and> oh_store oidc = identityApi ?E ?pg"
    using ok store by (auto simp: oidc_def NewOIDCHandlerWithAuthenticator_def split: option.splits)
  obtain c s where c: "NewPasswordIdentityStore ?E True (Some ?pg) c = Inr s"
    and pw: "dep_Password deps \<noteq> None \<longrightarrow> the (dep_Password deps) = NewPasswordHandler c s ?sm"
  proof (cases "b_passwordConfig cfg")
    case None
    with ok that [of samplePasswordConfig] show ?thesis by (simp add: NewPasswordIdentityStore_def Let_def)
  next
    case (Some c)
    with ok store pool that [of c] show ?thesis by auto
  qed
  have "manager_good ?sm"
    using ok ses scs by (auto simp: sessionManagerOf_def NewPostgres_def sessionNew_def Let_def manager_good_def)
  moreover define A where "A = \<lparr>ap_env = ?E, ap_libs = al_oidc L, ap_password = NewPasswordHandler c s ?sm, ap_oidc = oidc\<rparr>"
  ultimately have "wellBuilt A"
    unfolding wellBuilt_def using o c
    by (intro conjI exI [of _ True] exI [of _ c] exI [of _ s] exI [of _ p] exI [of _ n]) simp_all
  moreover have "dep_Auth deps \<noteq> None \<longrightarrow> oidc = the (dep_Auth deps)" by (auto simp: oidc_def)
  ultimately show ?thesis
    using o pw by (intro exI [of _ A]) (simp add: A_def)
qed

text \<open>Every authentication route of a started application, behind its middleware, keeps the tables and sessions in order.\<close>

lemma serveAuth_leads:
  assumes new: "New opts = Inr a" and init: "initialize L t0 x a g = (None, a', g')"
    and deps: "app_dependencies a' = Some deps" and scs: "scs_contract (al_scs L)"
    and store: "dep_IdentityStore deps = Some (PostgresStore (NewPostgresIdentityStore p n))"
    and mws: "\<forall>mw\<in>foreignMiddleware L (app_config a) (dep_Session deps). harmless mw"
    and route: "(mp, AuthTarget q) \<in> set (rt_routes (app_router a'))"
  shows "leads (requestOk (the (dep_Session deps)) S) (serveAuth L a' q body) (worldOk (the (dep_Session deps)) S)"
  using init
proof (rule initialize_ok)
  fix a2 m deps' rt
  assume a2: "app_config a2 = app_config a" "app_router a2 = app_router a" "app_db a2 = m" and pool: "Pool m \<noteq> None"
    and b: "buildServices L (app_config a) m = Inr deps'" and rt: "buildRouter L a2 deps' = (None, rt)"
    and a': "a' = a2\<lparr>app_dependencies := Some deps', app_router := rt\<rparr>"
  let ?m = "the (dep_Session deps)" and ?H = "handlersOf L deps"
  have d: "deps' = deps" and r: "app_router a' = rt" using deps a' by simp_all
  note ok = buildServices_ok [OF b, unfolded d]
  have "app_router a2 = emptyRouter" using new a2 by (auto elim!: New_cases)
  from buildRouter_ok [OF rt this] have mw: "\<forall>mw\<in>set (rt_middleware rt). harmless mw"
    and routes: "(\<exists>h. dep_Auth deps = Some h \<and> q \<in> snd ` set (oidcRoutes (oh_cfg h))) \<or>
       dep_Password deps \<noteq> None \<and> q \<in> snd ` set passwordRoutes"
    using middlewareChain_harmless [OF mws] route a2 d r
    by (auto split: option.splits dest!: authTarget_mounted)
  from routes ok have "b_authConfig (app_config a) \<noteq> None \<or> b_passwordConfig (app_config a) \<noteq> None"
    by (auto split: option.splits)
  from handlers_built [OF b [unfolded d] pool scs New_session [OF new this] store]
  obtain A where A: "wellBuilt A" "oh_session (ap_oidc A) = ?m" "ap_env A = al_env L" "ap_libs A = al_oidc L"
    "dep_Auth deps \<noteq> None \<longrightarrow> ap_oidc A = the (dep_Auth deps)"
    "dep_Password deps \<noteq> None \<longrightarrow> ap_password A = the (dep_Password deps)"
    by blast
  from routes have same: "dispatch ?H (q body) = dispatch A (q body)"
  proof
    assume "\<exists>h. dep_Auth deps = Some h \<and> q \<in> snd ` set (oidcRoutes (oh_cfg h))"
    then show ?thesis
      using A(3-5) by (intro ext) (auto simp: handlersOf_def simp del: image_iff intro: dispatch_oidc)
  next
    assume "dep_Password deps \<noteq> None \<and> q \<in> snd ` set passwordRoutes"
    then show ?thesis
      using A(3,6) by (intro ext dispatch_password) (simp_all add: handlersOf_def)
  qed
  have "leads (requestOk ?m S) (\<lambda>r. observed (dispatch ?H (q body) r)) (worldOk ?m S)"
    using dispatch_leads [OF A(1) A(2) [symmetric], of S "q body"] by (simp add: same)
  from wrapAll_leads [OF tickless_ok(2,1) _ this mw] show ?thesis
    by (simp add: serveAuth_def [abs_def] deps r requestOk_def)
qed

lemma app_step_ok:
  assumes step: "app_step L a' sv sv'"
    and lead: "\<And>mp q S body. (mp, AuthTarget q) \<in> set (rt_routes (app_router a')) \<Longrightarrow>
      leads (requestOk m S) (serveAuth L a' q body) (worldOk m S)"
    and ok: "db_ok (sv_db sv)" "\<forall>c. sessionOk m (sv_db sv) (sv_sessions sv c)"
  shows "db_ok (sv_db sv') \<and> (\<forall>c. sessionOk m (sv_db sv') (sv_sessions sv' c))"
  using step
proof (cases rule: app_step.cases)
  case (app_request mp q body r c t resp w t')
  have "requestOk m (range (sv_sessions sv)) (requestWorld sv c)"
    using ok by (simp add: requestOk_def worldOk_def)
  from leadsD [OF lead [OF app_request(2)] app_request(3) this] app_request(1) show ?thesis
    by (simp add: worldOk_def)
next
  case (app_unsaved mp q body r c t resp w t')
  have "requestOk m (range (sv_sessions sv)) (requestWorld sv c)"
    using ok by (simp add: requestOk_def worldOk_def)
  from leadsD [OF lead [OF app_unsaved(2)] app_unsaved(3) this] app_unsaved(1) show ?thesis
    by (simp add: worldOk_def)
next
  case (app_others d)
  with ok show ?thesis by (auto simp: outside_def sessionOk_def claimsOk_def)
qed

text \<open>
  C1 Tenant isolation of the whole program: take any application that \<open>New\<close> builds and whose
  initialisation reaches the server, with the PostgreSQL identity store, a session library that
  keeps its contract, and third-party and custom middleware that does nothing to the world but
  call the next handler. In every state reached by requests to its authentication routes
  through its whole middleware chain, under any faults of the database and answers of the
  provider, the active tenant of a client's session is one its user is a member of.
\<close>

theorem application_tenants:
  assumes "New opts = Inr a" and "initialize L t0 x a g = (None, a', g')" and "app_dependencies a' = Some deps"
    and "scs_contract (al_scs L)"
    and "dep_IdentityStore deps = Some (PostgresStore (NewPostgresIdentityStore p n))"
    and "\<forall>mw\<in>foreignMiddleware L (app_config a) (dep_Session deps). harmless mw"
    and "app_reachable L a' (the (dep_Session deps)) sv"
    and "managerGet (the (dep_Session deps)) (sv_sessions sv c) k = Some (SVClaims cl)"
    and "sc_ActiveTenantID cl = Some tenant"
  shows "isMember (sv_db sv) (sc_UserID cl) tenant \<and> db_ok (sv_db sv)"
proof -
  have lead: "leads (requestOk (the (dep_Session deps)) S) (serveAuth L a' q body) (worldOk (the (dep_Session deps)) S)"
    if "(mp, AuthTarget q) \<in> set (rt_routes (app_router a'))" for mp q S body
    using that by (rule serveAuth_leads [OF assms(1-6)])
  from assms(7) have "db_ok (sv_db sv) \<and> (\<forall>c. sessionOk (the (dep_Session deps)) (sv_db sv) (sv_sessions sv c))"
  proof (induction rule: app_reachable.induct)
    case (app_start sv)
    then show ?case by (simp add: sessionOk_def)
  next
    case (app_next sv sv')
    show ?case by (rule app_step_ok [OF app_next(2) lead]) (use app_next.IH in auto)
  qed
  with assms(8,9) show ?thesis by (auto simp: sessionOk_def claimsOk_def)
qed

lemma sample_scs_contract: "scs_contract sampleScs"
  by (auto simp: scs_contract_def sampleScs_def)

lemma sampleAppManager_ops [simp]:
  "managerGet sampleAppManager s k = s k" "managerPut sampleAppManager s k v = s(k \<mapsto> v)"
  by (simp_all add: sampleAppManager_def NewPostgres_def sessionNew_def Let_def sampleScs_def managerGet_def managerPut_def)

lemma sampleApp_login:
  fixes w :: "(string \<Rightarrow> session_value option) web"
  assumes "w_db w = loginDb" and "w_tx w = None" and "w_sess w = (\<lambda>_. None)"
  shows "\<exists>resp w' cl. run_state (LoginHandler sampleEnv
       (NewPasswordHandler (passwordDefaults samplePasswordConfig) webPS sampleAppManager) r
       (Some \<lparr>lr_Email = ''a@x'', lr_Password = ''pw''\<rparr>)) w = (resp, w') \<and>
     w_sess w' ''auth'' = Some (SVClaims cl) \<and> sc_UserID cl = 104 \<and> sc_ActiveTenantID cl = Some 102"
proof -
  let ?ip = "clientAddress r"
  obtain res w1 where a: "run_state (Authenticate sampleEnv webPS ''a@x'' ''pw'' ?ip) w = (res, w1)"
    by fastforce
  then obtain now where r: "res = Inr (refOf localSampleUser)"
    and d: "w_db w1 = touchLogin 104 now (addAttempt 104 (ipOf sampleEnv ?ip) True now loginDb)"
    using argon.run_Authenticate_healthy [OF _ _ _ a, where cfg = sampleHashing] assms
    by (auto simp: healthy_def sample_loginStep)
  have s: "w_sess w1 = (\<lambda>_. None)"
    using w_sess_more [OF extra_run [OF argon.extra_hashing_operations(1) a]] assms(3) by simp
  have ms: "membershipsOf (w_db w1) 104 = [\<lparr>mb_TenantID = 102, mb_TenantName = ''Default'', mb_Role = ''member''\<rparr>]"
    by (simp add: d membershipsOf_def sqlListMemberships_def loginDb_def sampleDb_def toMembership_def touchLogin_def addAttempt_def)
  show ?thesis
    using a r s ms
    by (auto simp: LoginHandler_def new_handler passwordDefaults_idem
        passwordIdentityApi_inner identityApi_def run_ListMemberships_pool inner_sample claimsFor_def refOf_def)
qed

text \<open>The sample application: user 104 logs in through the whole chain.\<close>

definition sampleBody :: request_body where
  "sampleBody = \<lparr>rb_register = None, rb_login = Some \<lparr>lr_Email = ''a@x'', lr_Password = ''pw''\<rparr>, rb_change = None,
     rb_email = None, rb_reset = None, rb_token = None, rb_tenant = None\<rparr>"

theorem application_tenants_witness:
  "\<exists>a a' g' sv cl. New sampleOptions = Inr a \<and> initialize sampleAppLibs 0 None a noGlobals = (None, a', g') \<and>
     app_reachable sampleAppLibs a' sampleAppManager sv \<and>
     sv_sessions sv 0 ''auth'' = Some (SVClaims cl) \<and> isMember (sv_db sv) 104 102"
proof -
  obtain a a' g' m l c oa where a: "New sampleOptions = Inr a" "initialize sampleAppLibs 0 None a noGlobals = (None, a', g')"
    and deps: "app_dependencies a' = Some (sampleDeps m l c oa)"
    and routes: "rt_routes (app_router a') = mountedRoutes ''/auth/password'' passwordRoutes"
    and mws: "rt_middleware (app_router a') = [id, id, CorrelationAndAudit sampleEnv (Some sampleAppManager) DefaultSessionKey]"
    and foreign: "foreignMiddleware sampleAppLibs (app_config a) (Some sampleAppManager) = {id}"
    using sample_startup by blast
  let ?q = "\<lambda>b. LoginReq (rb_login b)" and ?r = "sampleRequest ''/auth/password/login''"
  have route: "((''POST'', ''/auth/password/login''), AuthTarget ?q) \<in> set (rt_routes (app_router a'))"
    by (simp add: routes mountedRoutes_def prefixRoutes_def authTargets_def passwordRoutes_def)
  have start: "app_reachable sampleAppLibs a' sampleAppManager sampleServer"
    by (rule app_start) (simp_all add: sampleServer_def db_ok_loginDb)
  let ?w = "(requestWorld sampleServer 0)\<lparr>w_tick := 2\<rparr>"
  obtain resp w cl where run: "run_state (dispatch (handlersOf sampleAppLibs (sampleDeps m l c oa)) (?q sampleBody)
        (?r\<lparr>rq_Context := WithRequestID (rq_Context ?r) (uuid_string sampleEnv (uuid_new sampleEnv 1))\<rparr>)) ?w = (resp, w)"
    and cl: "w_sess w ''auth'' = Some (SVClaims cl)" "sc_UserID cl = 104" "sc_ActiveTenantID cl = Some 102"
    using sampleApp_login [of ?w] by (fastforce simp: handlersOf_def sampleAppLibs_def sampleDeps_def sampleBody_def sampleServer_def)
  then obtain resp' w' t' where "run_state (serveAuth sampleAppLibs a' ?q sampleBody ?r)
        (requestWorld sampleServer 0, emptyTelemetry) = (resp', w', t')" and w': "w' = w\<lparr>w_tick := Suc (w_tick w)\<rparr>"
    by (auto simp: serveAuth_def deps mws run_CorrelationAndAudit Let_def sampleRequest_def requestWorld_def sampleServer_def
        numeral_2_eq_2)
  from app_next [OF start app_request [OF route this(1)]] w' cl
  have reached: "app_reachable sampleAppLibs a' sampleAppManager (afterRequest sampleServer 0 w')"
    and cl': "sv_sessions (afterRequest sampleServer 0 w') 0 ''auth'' = Some (SVClaims cl)"
    by simp_all
  have "isMember (sv_db (afterRequest sampleServer 0 w')) (sc_UserID cl) 102 \<and> db_ok (sv_db (afterRequest sampleServer 0 w'))"
    by (rule application_tenants [OF a deps, where k = "''auth''" and c = 0 and p = True and n = "''''"])
      (use reached cl' cl(3) foreign in \<open>simp_all add: sampleDeps_def sampleAppLibs_def sample_scs_contract flip: inner_sample\<close>)
  with a reached cl' cl(2) show ?thesis by auto
qed

end
