(* ===== verification/HttpServe.thy ===== *)
theory HttpServe
  imports Errors
begin

text \<open>
  \<open>runHTTPServer\<close> of \<open>app/app.go\<close>: the goroutine that serves, the channel of capacity one it
  sends its result on, and the select over that channel and the context, as a step relation.
  When \<open>ListenAndServe\<close> returns and when the context is cancelled is up to the environment;
  \<open>Shutdown\<close> returns, at the latest when its timeout has passed, with an error or not.
\<close>

section \<open>States and steps\<close>

datatype listen_result = ErrServerClosed | ListenAndServeReturned "go_error option"

text \<open>What the goroutine sends: nil for a closed server.\<close>

fun listenError :: "listen_result \<Rightarrow> go_error option" where
  "listenError ErrServerClosed = None"
| "listenError (ListenAndServeReturned e) = e"

datatype serve_phase = Selecting | ShuttingDown | Draining | Returned "go_error option"

record serve_state =
  ss_phase :: serve_phase
  ss_errCh :: "go_error option option"
  ss_cancelled :: bool
  ss_listened :: "listen_result option"
  ss_shutdown :: "go_error option option"

definition serveStart :: serve_state where
  "serveStart = \<lparr>ss_phase = Selecting, ss_errCh = None, ss_cancelled = False, ss_listened = None,
                 ss_shutdown = None\<rparr>"

text \<open>Steps of the environment: the server stops serving, the context is cancelled.\<close>

inductive env_step :: "serve_state \<Rightarrow> serve_state \<Rightarrow> bool" where
  listen_returns: "ss_listened s = None \<Longrightarrow>
     env_step s (s\<lparr>ss_listened := Some r, ss_errCh := Some (listenError r)\<rparr>)"
| cancelled: "\<not> ss_cancelled s \<Longrightarrow> env_step s (s\<lparr>ss_cancelled := True\<rparr>)"

text \<open>Steps of the function; when both cases of the select are ready, either is taken.\<close>

inductive run_step :: "serve_state \<Rightarrow> serve_state \<Rightarrow> bool" where
  select_err: "ss_phase s = Selecting \<Longrightarrow> ss_errCh s = Some err \<Longrightarrow>
     run_step s (s\<lparr>ss_phase := Returned err, ss_errCh := None\<rparr>)"
| select_done: "ss_phase s = Selecting \<Longrightarrow> ss_cancelled s \<Longrightarrow> run_step s (s\<lparr>ss_phase := ShuttingDown\<rparr>)"
| shutdown_fails: "ss_phase s = ShuttingDown \<Longrightarrow>
     run_step s (s\<lparr>ss_phase := Returned (Some err), ss_shutdown := Some (Some err)\<rparr>)"
| shutdown_succeeds: "ss_phase s = ShuttingDown \<Longrightarrow>
     run_step s (s\<lparr>ss_phase := Draining, ss_shutdown := Some None\<rparr>)"
| receive: "ss_phase s = Draining \<Longrightarrow> ss_errCh s = Some err \<Longrightarrow>
     run_step s (s\<lparr>ss_phase := Returned err, ss_errCh := None\<rparr>)"

inductive serve_reachable :: "serve_state \<Rightarrow> bool" where
  serve_init: "serve_reachable serveStart"
| serve_env: "serve_reachable s \<Longrightarrow> env_step s s' \<Longrightarrow> serve_reachable s'"
| serve_run: "serve_reachable s \<Longrightarrow> run_step s s' \<Longrightarrow> serve_reachable s'"

inductive_cases env_stepE: "env_step s s'"
inductive_cases run_stepE: "run_step s s'"

section \<open>Invariant and measure\<close>

text \<open>The result is in the channel from when the server stopped until the function took it.\<close>

fun phaseOk :: "serve_phase \<Rightarrow> serve_state \<Rightarrow> bool" where
  "phaseOk Selecting s \<longleftrightarrow> ss_errCh s = map_option listenError (ss_listened s) \<and> ss_shutdown s = None"
| "phaseOk ShuttingDown s \<longleftrightarrow>
     ss_errCh s = map_option listenError (ss_listened s) \<and> ss_cancelled s \<and> ss_shutdown s = None"
| "phaseOk Draining s \<longleftrightarrow>
     ss_errCh s = map_option listenError (ss_listened s) \<and> ss_cancelled s \<and> ss_shutdown s = Some None"
| "phaseOk (Returned e) s \<longleftrightarrow>
     (ss_shutdown s \<in> {None, Some None} \<and> (\<exists>r. ss_listened s = Some r \<and> e = listenError r)) \<or>
     (ss_cancelled s \<and> e \<noteq> None \<and> ss_shutdown s = Some e)"

lemma phaseOk_reachable: "serve_reachable s \<Longrightarrow> phaseOk (ss_phase s) s"
proof (induction rule: serve_reachable.induct)
  case serve_init
  show ?case by (simp add: serveStart_def)
next
  case (serve_env s s')
  from serve_env.hyps(2) serve_env.IH show ?case
    by (cases "ss_phase s") (auto elim!: env_stepE)
next
  case (serve_run s s')
  from serve_run.hyps(2) serve_run.IH show ?case
    by (cases "ss_listened s") (auto elim!: run_stepE)
qed

fun phaseRank :: "serve_phase \<Rightarrow> nat" where
  "phaseRank Selecting = 3"
| "phaseRank ShuttingDown = 2"
| "phaseRank Draining = 1"
| "phaseRank (Returned e) = 0"

lemma run_step_rank: "run_step s s' \<Longrightarrow> phaseRank (ss_phase s') < phaseRank (ss_phase s)"
  by (auto elim!: run_stepE)

lemma run_steps_rank: "(run_step ^^ n) s s' \<Longrightarrow> n + phaseRank (ss_phase s') \<le> phaseRank (ss_phase s)"
proof (induction n arbitrary: s')
  case (Suc n)
  then obtain t where "(run_step ^^ n) s t" "run_step t s'" by auto
  with Suc.IH run_step_rank [of t s'] show ?case by fastforce
qed simp

lemma phaseRank_le: "phaseRank p \<le> 3"
  by (cases p) simp_all

text \<open>Where the function cannot go on.\<close>

lemma run_step_blocked:
  assumes "serve_reachable s" and "\<nexists>s'. run_step s s'"
  shows "(\<exists>e. ss_phase s = Returned e) \<or> ss_listened s = None \<and> (ss_phase s = Draining \<or> ss_phase s = Selecting \<and> \<not> ss_cancelled s)"
proof (cases "ss_phase s")
  case Selecting
  with phaseOk_reachable [OF assms(1)] assms(2) select_err [of s] select_done [of s] show ?thesis
    by (cases "ss_listened s") auto
next
  case ShuttingDown
  with assms(2) shutdown_succeeds show ?thesis by blast
next
  case Draining
  with phaseOk_reachable [OF assms(1)] assms(2) receive [of s] show ?thesis
    by (cases "ss_listened s") auto
qed simp

section \<open>Properties\<close>

text \<open>
  C33 \<open>runHTTPServer\<close> returns: it takes at most three steps of its own, and it can only wait for
  the server to stop, either before the context is cancelled or after it has called \<open>Shutdown\<close>
  and that has succeeded. So, once the context is cancelled and as \<open>ListenAndServe\<close> returns
  after a successful shutdown (which is documented), it returns. What it returns is nil when
  \<open>ListenAndServe\<close> reported a closed server, any other error of \<open>ListenAndServe\<close> as it
  is, or, after a cancellation, the error of the failed shutdown; in particular a nil means that
  the server has stopped.
\<close>

theorem run_http_server:
  assumes "serve_reachable s"
  shows "(\<forall>n s'. (run_step ^^ n) s s' \<longrightarrow> n \<le> 3) \<and>
    ((\<nexists>s'. run_step s s') \<longrightarrow>
       (\<exists>e. ss_phase s = Returned e) \<or>
       ss_phase s = Selecting \<and> \<not> ss_cancelled s \<and> ss_listened s = None \<or>
       ss_phase s = Draining \<and> ss_shutdown s = Some None \<and> ss_listened s = None) \<and>
    ((\<nexists>s'. run_step s s') \<and> ss_cancelled s \<and> (ss_shutdown s = Some None \<longrightarrow> ss_listened s \<noteq> None) \<longrightarrow>
       (\<exists>e. ss_phase s = Returned e)) \<and>
    (\<forall>e. ss_phase s = Returned e \<longrightarrow>
       (case ss_listened s of
          Some ErrServerClosed \<Rightarrow> e = None
        | Some (ListenAndServeReturned e') \<Rightarrow> e = e'
        | None \<Rightarrow> False) \<or>
       ss_cancelled s \<and> (\<exists>err. e = Some err \<and> ss_shutdown s = Some (Some err)))"
proof (intro conjI)
  note ok = phaseOk_reachable [OF assms]
  have blocked: "(\<exists>e. ss_phase s = Returned e) \<or>
       ss_phase s = Selecting \<and> \<not> ss_cancelled s \<and> ss_listened s = None \<or>
       ss_phase s = Draining \<and> ss_shutdown s = Some None \<and> ss_listened s = None"
    if "\<nexists>s'. run_step s s'"
    using run_step_blocked [OF assms that] ok by auto
  show "\<forall>n s'. (run_step ^^ n) s s' \<longrightarrow> n \<le> 3"
    using run_steps_rank phaseRank_le [of "ss_phase s"] by fastforce
  show "(\<nexists>s'. run_step s s') \<longrightarrow> (\<exists>e. ss_phase s = Returned e) \<or>
       ss_phase s = Selecting \<and> \<not> ss_cancelled s \<and> ss_listened s = None \<or>
       ss_phase s = Draining \<and> ss_shutdown s = Some None \<and> ss_listened s = None"
    using blocked by blast
  show "(\<nexists>s'. run_step s s') \<and> ss_cancelled s \<and> (ss_shutdown s = Some None \<longrightarrow> ss_listened s \<noteq> None) \<longrightarrow>
       (\<exists>e. ss_phase s = Returned e)"
    by (intro impI, elim conjE) (drule blocked, auto)
  show "\<forall>e. ss_phase s = Returned e \<longrightarrow>
       (case ss_listened s of
          Some ErrServerClosed \<Rightarrow> e = None
        | Some (ListenAndServeReturned e') \<Rightarrow> e = e'
        | None \<Rightarrow> False) \<or>
       ss_cancelled s \<and> (\<exists>err. e = Some err \<and> ss_shutdown s = Some (Some err))"
    using ok by (auto split: listen_result.split option.splits)
qed

text \<open>
  A cancelled server that shuts down and closes returns nil; one that fails to listen returns
  that error.
\<close>

theorem run_http_server_witness:
  "\<exists>s t. serve_reachable s \<and> ss_cancelled s \<and> ss_phase s = Returned None \<and> ss_listened s = Some ErrServerClosed \<and>
     serve_reachable t \<and> \<not> ss_cancelled t \<and> ss_listened t = Some (ListenAndServeReturned (Some (ErrorString ''in use''))) \<and>
     ss_phase t = Returned (Some (ErrorString ''in use''))"
proof -
  let ?s1 = "serveStart\<lparr>ss_cancelled := True\<rparr>"
  let ?s2 = "?s1\<lparr>ss_phase := ShuttingDown\<rparr>"
  let ?s3 = "?s2\<lparr>ss_phase := Draining, ss_shutdown := Some None\<rparr>"
  let ?s4 = "?s3\<lparr>ss_listened := Some ErrServerClosed, ss_errCh := Some (listenError ErrServerClosed)\<rparr>"
  let ?s5 = "?s4\<lparr>ss_phase := Returned None, ss_errCh := None\<rparr>"
  let ?r = "ListenAndServeReturned (Some (ErrorString ''in use''))"
  let ?t1 = "serveStart\<lparr>ss_listened := Some ?r, ss_errCh := Some (listenError ?r)\<rparr>"
  let ?t2 = "?t1\<lparr>ss_phase := Returned (Some (ErrorString ''in use'')), ss_errCh := None\<rparr>"
  have "serve_reachable ?s1" by (rule serve_env [OF serve_init]) (rule cancelled, simp add: serveStart_def)
  then have "serve_reachable ?s2" by (rule serve_run) (rule select_done, simp_all add: serveStart_def)
  then have "serve_reachable ?s3" by (rule serve_run) (rule shutdown_succeeds, simp)
  then have "serve_reachable ?s4" by (rule serve_env) (rule listen_returns, simp add: serveStart_def)
  then have s5: "serve_reachable ?s5" by (rule serve_run) (rule receive, simp_all)
  have "serve_reachable ?t1" by (rule serve_env [OF serve_init]) (rule listen_returns, simp add: serveStart_def)
  then have t2: "serve_reachable ?t2" by (rule serve_run) (rule select_err, simp_all add: serveStart_def)
  from run_http_server [OF s5] have "ss_listened ?s5 = Some ErrServerClosed"
    by (simp add: serveStart_def)
  moreover from run_http_server [OF t2] have "ss_listened ?t2 = Some ?r"
    by (simp add: serveStart_def)
  ultimately show ?thesis
    using s5 t2 by (intro exI [of _ ?s5] exI [of _ ?t2] conjI) (simp_all add: serveStart_def)
qed

end
