(* ===== verification/AppRun.thy ===== *)
theory AppRun
  imports App HttpServe
begin

text \<open>
  \<open>Application.Run\<close> of \<open>app/app.go\<close> from its call to its return: the initialisation of \<open>App\<close>, then the
  server of \<open>HttpServe\<close> on the configured port, and the two accessors.
\<close>

definition Router :: "('s, 'p) gotchi_app \<Rightarrow> 's router" where
  "Router a = app_router a"

definition Dependencies :: "('s, 'p) gotchi_app \<Rightarrow> ('s, 'p) dependencies option" where
  "Dependencies a = app_dependencies a"

datatype run_phase = RunServing string serve_state | RunReturned "go_error option" | RunPanicked

text \<open>What \<open>Run\<close> does before it waits: it has returned an error, or it serves at an address.\<close>

definition Run ::
    "('s, 'p, 'e) app_libs \<Rightarrow> nat \<Rightarrow> ctx option \<Rightarrow> ('s, 'p) gotchi_app \<Rightarrow> otel_globals \<Rightarrow>
     run_phase \<times> ('s, 'p) gotchi_app \<times> otel_globals" where
  "Run L t x a g =
     (case initialize L t x a g of
        (Some (StartupError err), a', g') \<Rightarrow> (RunReturned (Some err), a', g')
      | (Some StartupPanic, a', g') \<Rightarrow> (RunPanicked, a', g')
      | (None, a', g') \<Rightarrow> (RunServing ('':'' @ b_port (app_config a')) serveStart, a', g'))"

inductive appRun_step :: "run_phase \<Rightarrow> run_phase \<Rightarrow> bool" where
  ar_env: "env_step s s' \<Longrightarrow> appRun_step (RunServing addr s) (RunServing addr s')"
| ar_run: "run_step s s' \<Longrightarrow> appRun_step (RunServing addr s) (RunServing addr s')"
| ar_return: "ss_phase s = Returned e \<Longrightarrow> appRun_step (RunServing addr s) (RunReturned e)"

inductive_simps appRun_step_simps [simp]:
  "appRun_step (RunReturned e) q" "appRun_step RunPanicked q" "appRun_step (RunServing addr s) q"

lemma serving_reachable:
  assumes "appRun_step\<^sup>*\<^sup>* p q" and "p = RunServing addr s0" and "serve_reachable s0"
  shows "case q of RunServing addr' s \<Rightarrow> addr' = addr \<and> serve_reachable s
    | RunReturned e \<Rightarrow> \<exists>s. serve_reachable s \<and> ss_phase s = Returned e | RunPanicked \<Rightarrow> False"
  using assms
proof (induction rule: rtranclp_induct)
  case (step q q')
  then show ?case
    by (cases q) (auto intro: serve_env serve_run)
qed simp

lemma failed_stays: "appRun_step\<^sup>*\<^sup>* p q \<Longrightarrow> p = RunReturned e \<or> p = RunPanicked \<Longrightarrow> q = p"
  by (induction rule: rtranclp_induct) auto

lemma returned_result:
  assumes "serve_reachable s" and "ss_phase s = Returned e"
  shows "(\<exists>r. ss_listened s = Some r \<and> e = listenError r) \<or> ss_cancelled s \<and> e \<noteq> None \<and> ss_shutdown s = Some e"
  using phaseOk_reachable [OF assms(1)] assms(2) by auto

text \<open>
  \<open>Run\<close> returns nil only after everything was initialised (the pool is open, the migrations ran, the
  services and routes are there) and the server has stopped; while it serves, it does so on the port of the
  configuration. An error is one of the initialisation, or of \<open>ListenAndServe\<close>, or of a shutdown
  after the context was cancelled.
\<close>

theorem run_application:
  assumes "New opts = Inr a" and "Run L t x a g = (p, a', g')" and "appRun_step\<^sup>*\<^sup>* p q"
  shows "case q of
      RunServing addr s \<Rightarrow> addr = '':'' @ b_port (app_config a) \<and> serve_reachable s \<and> initialize L t x a g = (None, a', g')
    | RunPanicked \<Rightarrow> initialize L t x a g = (Some StartupPanic, a', g')
    | RunReturned e \<Rightarrow>
        (\<exists>err. e = Some err \<and> initialize L t x a g = (Some (StartupError err), a', g')) \<or>
        initialize L t x a g = (None, a', g') \<and> (\<exists>deps. Dependencies a' = Some deps \<and> dep_Pool deps \<noteq> None) \<and>
        (\<exists>s. serve_reachable s \<and>
           ((\<exists>r. ss_listened s = Some r \<and> e = listenError r) \<or> ss_cancelled s \<and> e \<noteq> None \<and> ss_shutdown s = Some e))"
proof -
  obtain f a1 g1 where i: "initialize L t x a g = (f, a1, g1)" by (rule prod_cases3)
  show ?thesis
  proof (cases f)
    case None
    with i assms(2) have p: "p = RunServing ('':'' @ b_port (app_config a')) serveStart" and a': "a1 = a'" "g1 = g'"
      by (auto simp: Run_def)
    have init: "initialize L t x a g = (None, a', g')" using i None a' by simp
    have cfg: "app_config a' = app_config a" and deps: "\<exists>deps. Dependencies a' = Some deps \<and> dep_Pool deps \<noteq> None"
      using init by (rule initialize_ok; auto simp: Dependencies_def dest: buildServices_ok)+
    note q = serving_reachable [OF assms(3) p serve_init]
    show ?thesis
    proof (cases q)
      case (RunReturned e)
      with q deps init returned_result [of _ e] show ?thesis by fastforce
    qed (use q cfg init in simp_all)
  next
    case (Some e)
    with i assms(2) have "p = (case e of StartupError err \<Rightarrow> RunReturned (Some err) | StartupPanic \<Rightarrow> RunPanicked)"
      "a1 = a'" "g1 = g'" by (auto simp: Run_def split: startup_failure.splits)
    with failed_stays [OF assms(3)] i Some show ?thesis by (cases e) auto
  qed
qed

end
