(* ===== verification/ReferenceApp.thy ===== *)
theory ReferenceApp
  imports AppRun
begin

text \<open>
  \<open>examples/reference-app\<close>: a program written against \<open>app\<close>. Its options come from the environment
  variables (\<open>os.Getenv\<close>, an argument); what is in its one migration file is a parameter.
\<close>

section \<open>The module and its migrations\<close>

definition referenceNames :: "string list" where
  "referenceNames = [''20260101000000_example.sql'']"

definition referenceMigrations :: "(string \<Rightarrow> string) \<Rightarrow> source_fs" where
  "referenceMigrations content =
     \<lparr>sf_ReadDir = (\<lambda>name. if name = ''.'' then Inr (map (\<lambda>n. (n, False)) referenceNames)
                           else Inl (ErrorString (''open '' @ name @ '': file does not exist''))),
      sf_ReadFile = (\<lambda>name. if name \<in> set referenceNames then Inr (content name)
                            else Inl (ErrorString (''open '' @ name @ '': file does not exist'')))\<rparr>"

definition healthz :: "'s observed_handler" where
  "healthz r = State_Monad.return (respond 200 (TextBody ''ok''))"

definition referenceModule :: "('s, 'p) module" where
  "referenceModule deps = Inr [((''GET'', ''/healthz''), healthz)]"

section \<open>main\<close>

definition getenvOr :: "(string \<Rightarrow> string) \<Rightarrow> string \<Rightarrow> string \<Rightarrow> string" where
  "getenvOr getenv key fallback = (let value = getenv key in if value \<noteq> '''' then value else fallback)"

definition parseCSV :: "string \<Rightarrow> string list" where
  "parseCSV s = (if s = '''' then [] else map trimSpace (splitOn CHR '','' s))"

definition referenceOptions :: "(string \<Rightarrow> string) \<Rightarrow> (string \<Rightarrow> string) \<Rightarrow> ('s, 'p) app_option list" where
  "referenceOptions content getenv =
     [WithDatabase (getenvOr getenv ''DATABASE_URL'' ''''),
      WithPort (getenvOr getenv ''PORT'' ''3000''),
      WithCoreMigrations,
      WithAuthMigrations,
      WithMigrations [\<lparr>ms_FS = referenceMigrations content, ms_Dir = ''.''\<rparr>],
      WithModule [referenceModule]] @
     (case parseCSV (getenvOr getenv ''CORS_ALLOWED_ORIGINS'' '''') of
        [] \<Rightarrow> []
      | first # rest \<Rightarrow> [WithCORS first rest])"

text \<open>\<open>main\<close>: the error of \<open>New\<close> that \<open>log.Fatal\<close> prints, or the run of the application.\<close>

definition referenceStart ::
    "('s, 'p, 'e) app_libs \<Rightarrow> (string \<Rightarrow> string) \<Rightarrow> (string \<Rightarrow> string) \<Rightarrow> nat \<Rightarrow> otel_globals \<Rightarrow>
     go_error + (run_phase \<times> ('s, 'p) gotchi_app \<times> otel_globals)" where
  "referenceStart L content getenv t g =
     (case New (referenceOptions content getenv) of
        Inl err \<Rightarrow> Inl err
      | Inr application \<Rightarrow> Inr (Run L t (Some []) application g))"

section \<open>What it starts\<close>

definition referenceOrigins :: "(string \<Rightarrow> string) \<Rightarrow> string list" where
  "referenceOrigins getenv = parseCSV (getenv ''CORS_ALLOWED_ORIGINS'')"

lemma getenvOr_empty [simp]: "getenvOr getenv key '''' = getenv key"
  by (simp add: getenvOr_def Let_def)

definition referenceSources :: "(string \<Rightarrow> string \<Rightarrow> string) \<Rightarrow> (string \<Rightarrow> string) \<Rightarrow> migration_source list" where
  "referenceSources builtin content =
     [coreSource builtin, authSource builtin, \<lparr>ms_FS = referenceMigrations content, ms_Dir = ''.''\<rparr>]"

text \<open>The three sources always merge, and the example's file comes first.\<close>

lemma reference_listing [simp]:
  "listing \<lparr>ms_FS = referenceMigrations content, ms_Dir = ''.''\<rparr> = referenceNames"
  by (simp add: listing_def plainFiles_def referenceMigrations_def comp_def)

lemma reference_merges: "isOk (mergeMigrationSources (referenceSources builtin content))"
proof -
  have "sourceReadable src" if "src \<in> set (referenceSources builtin content)" for src
    using that builtin_readable [of src builtin]
    by (auto simp: referenceSources_def builtinSources_def sourceReadable_def)
      (auto simp: referenceMigrations_def fileAt_def entryPath_def)
  moreover have "distinct (concat (map listing (referenceSources builtin content)))"
    by (simp add: referenceSources_def referenceNames_def embeddedNames_def)
  ultimately show ?thesis by (simp add: merge_ok)
qed

text \<open>What \<open>New\<close> makes of the environment.\<close>

definition referenceConfig :: "(string \<Rightarrow> string) \<Rightarrow> db_config" where
  "referenceConfig getenv =
     \<lparr>dbc_DatabaseURL = getenv ''DATABASE_URL'', dbc_SearchPath = '''', dbc_EnableSlogTracing = False,
      dbc_OTELTracing = False\<rparr>"

definition referenceBuilder :: "(string \<Rightarrow> string) \<Rightarrow> (string \<Rightarrow> string) \<Rightarrow> ('s, 'p) builder" where
  "referenceBuilder content getenv = emptyBuilder
     \<lparr>b_dbConfig := Some (referenceConfig getenv), b_port := getenvOr getenv ''PORT'' ''3000'',
      b_enableCoreMigrations := True, b_enableAuthMigrations := True,
      b_migrationSources := [\<lparr>ms_FS = referenceMigrations content, ms_Dir = ''.''\<rparr>], b_modules := [referenceModule],
      b_corsConfig := (case referenceOrigins getenv of [] \<Rightarrow> None | x # xs \<Rightarrow> Some (corsDefaults x xs))\<rparr>"

lemma reference_builder:
  "applyOptions (referenceOptions content getenv) emptyBuilder =
     (if ''*'' \<in> set (referenceOrigins getenv)
      then Inl (ErrorString ''CORS wildcard origin (*) is incompatible with AllowCredentials: true; use specific origins or set AllowCredentials to false'')
      else Inr (referenceBuilder content getenv))"
proof -
  have "corsOrigins True os =
      (if ''*'' \<in> set os
       then Some (ErrorString ''CORS wildcard origin (*) is incompatible with AllowCredentials: true; use specific origins or set AllowCredentials to false'')
       else None)" for os
    by (induction os) auto
  then show ?thesis
    by (cases "referenceOrigins getenv")
      (auto simp: referenceOptions_def referenceOrigins_def option_defs emptyBuilder_def Let_def corsValidate_def
        corsDefaults_def referenceBuilder_def referenceConfig_def)
qed

lemma reference_defaults:
  "applyDefaults (referenceBuilder content getenv) = (referenceBuilder content getenv)
     \<lparr>b_shutdownTimeout := defaultShutdownTimeout, b_logger := Some DefaultLogger, b_clock := Some RealClock\<rparr>"
proof -
  have "getenvOr getenv ''PORT'' ''3000'' \<noteq> ''''" by (simp add: getenvOr_def Let_def)
  then show ?thesis
    by (simp add: applyDefaults_def serverDefaults_def authDefaults_def passwordAuthDefaults_def advancedDefaults_def
        referenceBuilder_def emptyBuilder_def orDefault_def Let_def)
qed

definition referenceApp :: "(string \<Rightarrow> string) \<Rightarrow> (string \<Rightarrow> string) \<Rightarrow> ('s, 'p) gotchi_app" where
  "referenceApp content getenv =
     \<lparr>app_config = (referenceBuilder content getenv)
        \<lparr>b_shutdownTimeout := defaultShutdownTimeout, b_logger := Some DefaultLogger, b_clock := Some RealClock\<rparr>,
      app_router = emptyRouter, app_db = NewManager (referenceConfig getenv), app_dependencies = None,
      app_resolvedOTEL = None, app_otelShutdown = None\<rparr>"

lemma reference_new:
  "New (referenceOptions content getenv) =
     (if ''*'' \<in> set (referenceOrigins getenv)
      then Inl (ErrorString ''CORS wildcard origin (*) is incompatible with AllowCredentials: true; use specific origins or set AllowCredentials to false'')
      else if getenv ''DATABASE_URL'' = '''' then Inl (ErrorString ''database URL is required'')
      else Inr (referenceApp content getenv))"
  unfolding New_def reference_builder
  by (simp add: reference_defaults Let_def builderValidate_def referenceApp_def)
    (simp add: referenceBuilder_def referenceConfig_def emptyBuilder_def)

lemma reference_sources:
  "migrationSources L (app_config (referenceApp content getenv)) = referenceSources (al_migrations L) content"
  by (simp add: migrationSources_def referenceApp_def referenceBuilder_def referenceSources_def emptyBuilder_def)

text \<open>What it needs of the database, and what it serves.\<close>

definition databaseReady :: "('s, 'p, 'e) app_libs \<Rightarrow> (string \<Rightarrow> string) \<Rightarrow> (string \<Rightarrow> string) \<Rightarrow> nat \<Rightarrow> bool" where
  "databaseReady L content getenv t \<longleftrightarrow>
     (\<exists>c p f. px_ParseConfig (al_pgx L) (getenv ''DATABASE_URL'') = Inr c \<and>
        px_New (al_pgx L) (poolConfig (al_pgx L) (referenceConfig getenv) c) = Inr p \<and>
        px_Ping (al_pgx L) t p (AdminContext (Some [])) = None \<and> px_SetDialect (al_pgx L) ''postgres'' = None \<and>
        mergeMigrationSources (referenceSources (al_migrations L) content) = Inr f \<and>
        px_Up (al_pgx L) (Suc t) p f (AdminContext (Some [])) = None)"

lemma reference_start:
  fixes content getenv :: "string \<Rightarrow> string" and L :: "('s, 'p, 'e) app_libs"
  assumes "initialize L t (Some []) (referenceApp content getenv) g = (failure, a', g')"
  shows "(failure = None \<longleftrightarrow> databaseReady L content getenv t) \<and> g' = g \<and>
    app_config a' = app_config (referenceApp content getenv :: ('s, 'p) gotchi_app) \<and>
    (failure = None \<longrightarrow>
       rt_routes (app_router a') = [((''GET'', ''/healthz''), PlainTarget healthz)] \<and>
       rt_middleware (app_router a') = [al_RealIP L, al_Logger L, al_Recoverer L] @
         (case referenceOrigins getenv of [] \<Rightarrow> [] | x # xs \<Rightarrow> [al_Cors L (corsDefaults x xs)]))"
proof -
  obtain f where f: "mergeMigrationSources (referenceSources (al_migrations L) content) = Inr f"
    using reference_merges [of "al_migrations L" content] by (auto simp: isOk_def split: sum.splits)
  let ?a = "referenceApp content getenv :: ('s, 'p) gotchi_app"
  have cfg: "b_otelConfig (app_config ?a) = None" "b_authConfig (app_config ?a) = None" "b_sessionConfig (app_config ?a) = None"
    "b_passwordConfig (app_config ?a) = None" "b_modules (app_config ?a) = [referenceModule]" "b_middleware (app_config ?a) = []"
    "\<not> b_disableDefaultMiddleware (app_config ?a)" "b_identityStore (app_config ?a) = None"
    "b_corsConfig (app_config ?a) = (case referenceOrigins getenv of [] \<Rightarrow> None | x # xs \<Rightarrow> Some (corsDefaults x xs))"
    "app_db ?a = NewManager (referenceConfig getenv)" "app_router ?a = emptyRouter" "app_resolvedOTEL ?a = None"
    by (simp_all add: referenceApp_def referenceBuilder_def emptyBuilder_def)
  have otel: "setupAppOTEL L ?a g = (None, ?a, g)" by (simp add: setupAppOTEL_def cfg)
  have dot: "map (\<lambda>s. if ms_Dir s = '''' then s\<lparr>ms_Dir := ''.''\<rparr> else s) (referenceSources (al_migrations L) content) =
      referenceSources (al_migrations L) content"
    by (simp add: referenceSources_def)
  have nonempty: "referenceSources (al_migrations L) content \<noteq> []" by (simp add: referenceSources_def)
  define origins where "origins = (case referenceOrigins getenv of [] \<Rightarrow> [] | x # xs \<Rightarrow> [al_Cors L (corsDefaults x xs)])"
  have url: "dbc_DatabaseURL (referenceConfig getenv) = getenv ''DATABASE_URL''" by (simp add: referenceConfig_def)
  have services: "\<exists>deps. buildServices L (app_config ?a) m = Inr deps \<and> dep_Session deps = None \<and> dep_Auth deps = None \<and>
      dep_Password deps = None" for m
    by (simp add: buildServices_def buildOidc_def buildPassword_def sessionManagerOf_def cfg Let_def)
  have cors: "(case b_corsConfig (app_config ?a) of None \<Rightarrow> [] | Some c \<Rightarrow> [al_Cors L c]) = origins"
    by (simp add: cfg origins_def split: list.split)
  have router: "\<exists>rt. buildRouter L (?a\<lparr>app_db := m\<rparr>) deps = (None, rt) \<and>
      rt_routes rt = [((''GET'', ''/healthz''), PlainTarget healthz)] \<and>
      rt_middleware rt = [al_RealIP L, al_Logger L, al_Recoverer L] @ origins"
    if "dep_Session deps = None" "dep_Auth deps = None" "dep_Password deps = None" for m deps
    using that by (simp add: buildRouter_def setupMiddleware_def routerUse_def mountOidc_def mountPassword_def
        middlewareChain_def cfg(5-8,11,12) cors emptyRouter_def referenceModule_def routerAdd_def)
  let ?m = "\<lambda>p. \<lparr>dbm_cfg = referenceConfig getenv, dbm_pool = p, dbm_migrationFiles = []\<rparr>"
  consider (connected) c p where "px_ParseConfig (al_pgx L) (getenv ''DATABASE_URL'') = Inr c"
      "px_New (al_pgx L) (poolConfig (al_pgx L) (referenceConfig getenv) c) = Inr p"
      "px_Ping (al_pgx L) t p (AdminContext (Some [])) = None"
      "Connect (al_pgx L) t (Some []) (app_db ?a) = (None, ?m (Some p))"
    | (failed) err m where "Connect (al_pgx L) t (Some []) (app_db ?a) = (Some err, m)" "\<not> databaseReady L content getenv t"
    by (cases "px_ParseConfig (al_pgx L) (getenv ''DATABASE_URL'')";
        cases "px_New (al_pgx L) (poolConfig (al_pgx L) (referenceConfig getenv) (projr (px_ParseConfig (al_pgx L) (getenv ''DATABASE_URL''))))";
        cases "px_Ping (al_pgx L) t (projr (px_New (al_pgx L) (poolConfig (al_pgx L) (referenceConfig getenv) (projr (px_ParseConfig (al_pgx L) (getenv ''DATABASE_URL'')))))) (AdminContext (Some []))")
      (auto simp: Connect_def cfg(10) NewManager_def Ping_def url Let_def databaseReady_def)
  then show ?thesis
  proof cases
    case connected
    let ?m1 = "fold AddMigrationSource (referenceSources (al_migrations L) content) (?m (Some p))"
    have pool: "dbm_pool ?m1 = Some p" "dbm_migrationFiles ?m1 = referenceSources (al_migrations L) content"
      using fold_AddMigrationSource [of "referenceSources (al_migrations L) content" "?m (Some p)"]
      by (simp_all add: Pool_def dot)
    have run: "RunMigrations (al_pgx L) (Suc t) (Some []) ?m1 = None \<longleftrightarrow> databaseReady L content getenv t"
      using connected(1-3) f by (auto simp: RunMigrations_def pool dot databaseReady_def nonempty split: option.split)
    obtain deps where deps: "buildServices L (app_config ?a) ?m1 = Inr deps" "dep_Session deps = None" "dep_Auth deps = None"
      "dep_Password deps = None" using services by blast
    from router [OF deps(2-4), of ?m1] assms connected(4) run deps(1) show ?thesis
      by (auto simp: initialize_def otel reference_sources Let_def simp flip: origins_def split: option.splits)
  next
    case failed
    with assms show ?thesis by (auto simp: initialize_def otel)
  qed
qed

lemma getenvOr_cases: "getenvOr getenv ''PORT'' ''3000'' = orDefault (getenv ''PORT'') ''3000''"
  by (simp add: getenvOr_def orDefault_def Let_def)

text \<open>
  The reference application refuses to start exactly without a database URL or with a wildcard among
  its CORS origins. Otherwise it starts exactly when the database answers every call: the three
  migration sources always merge. It then listens on the port of the environment or 3000, serves
  \<open>GET /healthz\<close> and nothing else, behind the default middleware and, with origins
  configured, CORS for these origins.
\<close>

theorem reference_application:
  "case referenceStart L content getenv t g of
     Inl _ \<Rightarrow> getenv ''DATABASE_URL'' = '''' \<or> ''*'' \<in> set (referenceOrigins getenv)
   | Inr (p, a', g') \<Rightarrow>
       getenv ''DATABASE_URL'' \<noteq> '''' \<and> ''*'' \<notin> set (referenceOrigins getenv) \<and> g' = g \<and>
       (if databaseReady L content getenv t
        then p = RunServing ('':'' @ orDefault (getenv ''PORT'') ''3000'') serveStart \<and>
          rt_routes (Router a') = [((''GET'', ''/healthz''), PlainTarget healthz)] \<and>
          rt_middleware (Router a') = [al_RealIP L, al_Logger L, al_Recoverer L] @
            (case referenceOrigins getenv of [] \<Rightarrow> [] | x # xs \<Rightarrow> [al_Cors L (corsDefaults x xs)])
        else \<forall>addr s. p \<noteq> RunServing addr s)"
proof (cases "''*'' \<in> set (referenceOrigins getenv) \<or> getenv ''DATABASE_URL'' = ''''")
  case True
  then show ?thesis by (auto simp: referenceStart_def reference_new)
next
  case False
  obtain failure a' g' where i: "initialize L t (Some []) (referenceApp content getenv) g = (failure, a', g')"
    by (rule prod_cases3)
  have port: "b_port (app_config (referenceApp content getenv)) = orDefault (getenv ''PORT'') ''3000''"
    by (simp add: referenceApp_def referenceBuilder_def getenvOr_cases)
  show ?thesis
  proof (cases failure)
    case None
    with False reference_start [OF i] port show ?thesis
      by (simp add: referenceStart_def reference_new Run_def i Router_def)
  next
    case (Some e)
    with False reference_start [OF i] show ?thesis
      by (cases e) (simp_all add: referenceStart_def reference_new Run_def i)
  qed
qed

end
