(* ===== verification/SessionTypes.thy ===== *)
theory SessionTypes
  imports Server
begin

text \<open>
  What the sessions hold: the handlers read a session value with a type assertion
  (\<open>value.(SessionClaims)\<close>) or as a string, and this theory shows that in every reachable
  state the value under each key has the type its readers assert.
\<close>

definition claimKeys :: "'s application \<Rightarrow> string set" where
  "claimKeys A = {cfg_SessionKey (oh_cfg (ap_oidc A)), pcfg_SessionKey (ph_Config (ap_password A))}"

fun valueTyped :: "'s application \<Rightarrow> string \<Rightarrow> session_value \<Rightarrow> bool" where
  "valueTyped A k (SVClaims c) = (k \<in> claimKeys A \<and> sc_Authenticated c)"
| "valueTyped A k (SVString t) = (k = idTokenKey)"
| "valueTyped A k (SVInt i) = False"

definition sessionTyped :: "'s application \<Rightarrow> 's \<Rightarrow> bool" where
  "sessionTyped A s \<longleftrightarrow> (\<forall>k v. managerGet (oh_session (ap_oidc A)) s k = Some v \<longrightarrow> valueTyped A k v)"

lemma sessionTyped_put:
  "wellBuilt A \<Longrightarrow> sessionTyped A s \<Longrightarrow> valueTyped A k v \<Longrightarrow>
   sessionTyped A (managerPut (oh_session (ap_oidc A)) s k v)"
  by (auto simp: sessionTyped_def wellBuilt_def mgr.get_put)

lemma login_typed:
  assumes "wellBuilt A" and "Schema.inv db_ok w" and "sessionTyped A (w_sess w)"
    and run: "run_state (LoginHandler (ap_env A) (ap_password A) r b) w = (resp, w')"
  shows "sessionTyped A (w_sess w')"
proof -
  obtain hc where hasher: "ps_Hasher (ph_Store (ap_password A)) = NewArgon2idHasher (ap_env A) hc"
    and pool: "is_Queries (ps_Inner (ph_Store (ap_password A))) = OnPool"
    and sess: "ph_Session (ap_password A) = oh_session (ap_oidc A)"
    using wellBuilt_parts [OF assms(1)] by blast
  have good: "manager_good (ph_Session (ap_password A))" using assms(1) sess by (simp add: wellBuilt_def)
  from login_handler_cases [OF hasher pool good assms(2) run] consider "w_sess w' = w_sess w"
    | ref d where "w_sess w' = managerPut (oh_session (ap_oidc A)) (w_sess w)
        (pcfg_SessionKey (ph_Config (ap_password A))) (SVClaims (claimsFor ref (membershipsOf d (ref_UserID ref))))"
    using sess by auto
  then show ?thesis
    by cases (auto intro!: sessionTyped_put assms(1,3) simp: claimKeys_def claimsFor_def assms(3))
qed

lemma callback_typed:
  assumes "wellBuilt A" and "w_tx w = None" and "sessionTyped A (w_sess w)"
    and run: "run_state (CallbackHandler (ap_libs A) (ap_oidc A) r) w = (resp, w')"
  shows "sessionTyped A (w_sess w')"
proof -
  obtain p n where store: "oh_store (ap_oidc A) = identityApi (ap_env A) (NewPostgresIdentityStore p n)"
    using wellBuilt_parts [OF assms(1)] by blast
  show ?thesis
    using callback_effect [OF store assms(2) run]
    by (auto simp: Let_def assms(3) claimKeys_def claimsFor_def intro!: sessionTyped_put assms(1,3))
qed

lemma select_typed:
  assumes "wellBuilt A" and "sessionTyped A (w_sess w)"
    and run: "run_state (SelectTenantHandler (ap_env A) (ap_oidc A) b) w = (resp, w')"
  shows "sessionTyped A (w_sess w')"
proof (cases "w_sess w' = w_sess w")
  case False
  obtain p n where store: "oh_store (ap_oidc A) = identityApi (ap_env A) (NewPostgresIdentityStore p n)"
    using wellBuilt_parts [OF assms(1)] by blast
  from select_effect [OF store run False] assms show ?thesis
    by (auto simp: authenticatedClaims_Some claimKeys_def intro!: sessionTyped_put)
qed (simp add: assms(2))

lemma dispatch_typed:
  assumes "wellBuilt A" and "Schema.inv db_ok w" and "w_tx w = None" and "sessionTyped A (w_sess w)"
    and run: "run_state (dispatch A q r) w = (resp, w')"
  shows "sessionTyped A (w_sess w')"
proof -
  consider (login) b where "q = LoginReq b" | (callback) "q = CallbackReq" | (select) b where "q = SelectTenantReq b"
    | (rest) "\<forall>b. q \<noteq> LoginReq b" "q \<noteq> CallbackReq" "\<forall>b. q \<noteq> SelectTenantReq b" by blast
  then show ?thesis
  proof cases
    case rest
    with no_new_claims [OF assms(1,3) run] assms(4) show ?thesis by (auto simp: sessionTyped_def)
  qed (use run assms(1-4) in \<open>auto intro: login_typed callback_typed select_typed\<close>)
qed

lemma reachable_typed:
  "reachable A sv \<Longrightarrow> wellBuilt A \<Longrightarrow> sessionTyped A (sv_sessions sv c)"
proof (induction arbitrary: c rule: reachable.induct)
  case (reach_start sv)
  then show ?case by (simp add: sessionTyped_def)
next
  case (reach_step sv sv')
  from reach_step.hyps(2) show ?case
  proof cases
    case (request q r c' resp w)
    have "Schema.inv db_ok (requestWorld sv c')"
      using reachable_ok [OF reach_step.hyps(1) reach_step.prems] by (simp add: serverOk_def Schema.inv_def)
    from dispatch_typed [OF reach_step.prems this _ _ request(2)] reach_step.IH [OF reach_step.prems] request(1)
    show ?thesis by simp
  next
    case unsaved
    with reach_step.IH [OF reach_step.prems] show ?thesis by simp
  next
    case others
    with reach_step.IH [OF reach_step.prems] show ?thesis by simp
  qed
qed

section \<open>Properties\<close>

text \<open>
  C14 Session values are well-typed: in every server state reached by requests of any clients to
  any of the handlers, under any faults of the database and any answers of the provider, a
  value in a session is either the claims of an authenticated user, under the session key of one
  of the two handlers, or the provider's token string under its own key. So, where the two keys
  differ from that one, the assertion \<open>value.(SessionClaims)\<close> succeeds whenever anything is
  stored, and what it yields has its \<open>Authenticated\<close> set.
\<close>

theorem session_value_types:
  assumes "wellBuilt A" and "reachable A sv"
    and "managerGet (oh_session (ap_oidc A)) (sv_sessions sv c) k = Some v"
  shows "valueTyped A k v \<and>
    (k \<in> claimKeys A - {idTokenKey} \<longrightarrow>
       (\<exists>cl. claimsIn (Some v) = Some cl \<and> authenticatedClaims (Some v) = Some cl))"
proof -
  have "valueTyped A k v"
    using reachable_typed [OF assms(2,1), of c] assms(3) by (simp add: sessionTyped_def)
  then show ?thesis by (cases v) (auto simp: claimsIn_def)
qed

theorem session_value_types_witness:
  "\<exists>sv cl. reachable sampleApp sv \<and> sv_sessions sv 0 ''auth'' = Some (SVClaims cl) \<and>
     valueTyped sampleApp ''auth'' (SVClaims cl)"
proof -
  obtain sv cl where sv: "reachable sampleApp sv" "sv_sessions sv 0 ''auth'' = Some (SVClaims cl)"
    using sample_reachable by blast
  with session_value_types [OF sampleApp_built sv(1), of 0 "''auth''" "SVClaims cl"] show ?thesis by auto
qed

end
