(* ===== verification/TokenUse.thy ===== *)
theory TokenUse
  imports Server
begin

text \<open>
  Reset tokens over the whole life of the server: what the table of tokens still shows of a
  redeemed token after any requests, and that no later request redeems it again. Nothing in the
  schema makes token hashes unique, so the rows are followed by their position: the rows that
  were there stay where they are, later ones come after them.
\<close>

section \<open>The rows of a redeemed token\<close>

text \<open>None of the first \<open>n\<close> rows of the table can be redeemed for this hash and type from \<open>now\<close> on.\<close>

definition rowsSpent :: "nat \<Rightarrow> string \<Rightarrow> string \<Rightarrow> int \<Rightarrow> database \<Rightarrow> bool" where
  "rowsSpent n h ty now d \<longleftrightarrow>
     n \<le> length (tokens d) \<and> spent (d\<lparr>tokens := take n (tokens d)\<rparr>) h ty now"

lemma rowsSpent_same: "tokens d' = tokens d \<Longrightarrow> rowsSpent n h ty now d \<Longrightarrow> rowsSpent n h ty now d'"
  by (simp add: rowsSpent_def spent_def)

lemma rowsSpent_update:
  assumes "rowsSpent n h ty now d"
    and "\<And>t. at_token_hash (f t) = at_token_hash t" "\<And>t. at_token_type (f t) = at_token_type t"
    and "\<And>t. at_expires_at (f t) = at_expires_at t" "\<And>t. at_consumed_at t \<noteq> None \<Longrightarrow> at_consumed_at (f t) \<noteq> None"
  shows "rowsSpent n h ty now (d\<lparr>tokens := map f (tokens d)\<rparr>)"
  using assms by (auto simp: rowsSpent_def spent_def take_map)

lemma rowsSpent_add: "rowsSpent n h ty now d \<Longrightarrow> rowsSpent n h ty now (d\<lparr>tokens := tokens d @ ts\<rparr>)"
  by (simp add: rowsSpent_def spent_def)

text \<open>No statement of the program gives a spent row back.\<close>

lemma stmt_inv_rowsSpent: "stmt_inv (rowsSpent n h ty now)"
proof -
  have same: "preserves (rowsSpent n h ty now) st"
    if "\<And>now d rows d'. st now d = Inr (rows, d') \<Longrightarrow> tokens d' = tokens d" for st :: "'r stmt"
    using that rowsSpent_same unfolding preserves_def by blast
  have consume: "preserves (rowsSpent n h ty now) (sqlConsumeAuthToken h' ty')" for h' ty'
    by (auto simp: preserves_def sqlConsumeAuthToken_def intro!: rowsSpent_update)
  have invalidate: "preserves (rowsSpent n h ty now) (sqlInvalidateUserTokens u ty')" for u ty'
    by (auto simp: preserves_def sqlInvalidateUserTokens_def intro!: rowsSpent_update)
  have insert: "preserves (rowsSpent n h ty now) (sqlInsertAuthToken u h' ty' ex)" for u h' ty' ex
    by (auto simp: preserves_def sqlInsertAuthToken_def rowsSpent_add split: if_splits)
  show ?thesis
    unfolding stmt_inv_def
    by (intro conjI allI consume invalidate insert; rule same) (auto simp: sql_defs Let_def split: if_splits)
qed

lemma rowsSpent_spent:
  assumes "rowsSpent n h ty now d" and "\<forall>t\<in>set (drop n (tokens d)). at_token_hash t \<noteq> h"
  shows "spent d h ty now"
  unfolding spent_def
proof (intro ballI impI)
  fix t assume "t \<in> set (tokens d)" and k: "at_token_hash t = h \<and> at_token_type t = ty"
  then have "t \<in> set (take n (tokens d)) \<or> t \<in> set (drop n (tokens d))"
    by (metis Un_iff append_take_drop_id set_append)
  with assms k show "at_consumed_at t \<noteq> None \<or> at_expires_at t \<le> now"
    by (auto simp: rowsSpent_def spent_def)
qed

section \<open>Requests in between\<close>

text \<open>One request of some client to some handler, its session saved or not.\<close>

definition serves :: "'s application \<Rightarrow> 's server \<Rightarrow> 's server \<Rightarrow> bool" where
  "serves A sv sv' \<longleftrightarrow>
     (\<exists>q r c resp w. run_state (dispatch A q r) (requestWorld sv c) = (resp, w) \<and>
        sv' \<in> {afterRequest sv c w, unsavedRequest sv w})"

lemma serves_step: "serves A sv sv' \<Longrightarrow> step A sv sv'"
  by (auto simp: serves_def intro: step.intros)

lemma serves_evolves:
  assumes "wellBuilt A" and "serverOk A sv" and "serves A sv sv'" and "stmt_inv I" and "I (sv_db sv)"
  shows "serverOk A sv' \<and> I (sv_db sv')"
proof -
  from assms(3) obtain q r c resp w where run: "run_state (dispatch A q r) (requestWorld sv c) = (resp, w)"
    and sv': "sv' \<in> {afterRequest sv c w, unsavedRequest sv w}"
    unfolding serves_def by blast
  from dispatch_keeps [OF assms(1) _ run] assms(2) have "evolves (requestWorld sv c) w"
    by (simp add: keepsInvariant_def serverOk_def)
  then have "I (w_db w)" using assms(4,5) unfolding evolves_def by (metis requestWorld_simps(1))
  with sv' step_invariant [OF assms(1) serves_step [OF assms(3)] assms(2)] show ?thesis by auto
qed

lemma all_serve:
  assumes "wellBuilt A" and "(serves A)\<^sup>*\<^sup>* sv sv'" and "serverOk A sv" and "stmt_inv I" and "I (sv_db sv)"
  shows "serverOk A sv' \<and> I (sv_db sv')"
  using assms(2)
proof (induction rule: rtranclp_induct)
  case base
  with assms(3,5) show ?case by simp
next
  case (step sv1 sv2)
  then show ?case using serves_evolves [OF assms(1) _ step.hyps(2) assms(4)] by blast
qed

section \<open>Properties\<close>

definition resetDone :: http_response where
  "resetDone = writeJSON 200 (messageJson ''password has been reset successfully'')"

lemma reset_request:
  assumes "wellBuilt A"
    and run: "run_state (dispatch A (ResetPasswordReq (Some req)) r) (requestWorld sv c) = (resp, w)"
  shows "\<exists>x. run_state (CompletePasswordReset (ap_env A) (ph_Store (ap_password A)) (rp_Token req) (rp_NewPassword req))
      (requestWorld sv c) = (x, w) \<and>
    resp = (case x of Inl err \<Rightarrow> handlePasswordError err | Inr _ \<Rightarrow> resetDone) \<and>
    ps_Queries (ph_Store (ap_password A)) = OnPool \<and>
    (\<exists>hc. ps_Hasher (ph_Store (ap_password A)) = NewArgon2idHasher (ap_env A) hc)"
proof -
  from assms(1) have "ps_Queries (ph_Store (ap_password A)) = OnPool \<and>
    (\<exists>hc. ps_Hasher (ph_Store (ap_password A)) = NewArgon2idHasher (ap_env A) hc)"
    by (auto simp: wellBuilt_def dest!: new_store)
  with run show ?thesis
    unfolding resetDone_def by (auto simp: ResetPasswordHandler_def split: prod.splits)
qed

lemma resetDone_no_error: "resetDone \<noteq> handlePasswordError e"
  by (auto simp: resetDone_def handlePasswordError_def writeError_def messageJson_def split: option.split)

text \<open>An accepted reset leaves every row of its token spent.\<close>

lemma accepted_reset_spends:
  assumes "wellBuilt A"
    and "run_state (dispatch A (ResetPasswordReq (Some req)) r) (requestWorld sv c) = (resetDone, w)"
  shows "rowsSpent (length (tokens (sv_db sv))) (sha256Sum (ap_env A) (rp_Token req)) ''password_reset''
    (db_now (ap_env A) (sv_tick sv)) (w_db w)"
    (is "rowsSpent ?n ?h ?ty ?now _")
proof -
  let ?s = "ph_Store (ap_password A)" and ?E = "ap_env A" and ?w = "requestWorld sv c"
  let ?w1 = "(tickw ?w)\<lparr>w_db := spend ?h ?ty ?now (sv_db sv)\<rparr>"
  have tick: "w_tick ?w = sv_tick sv" by (simp add: requestWorld_def)
  from reset_request [OF assms] obtain x hc where
    run: "run_state (CompletePasswordReset ?E ?s (rp_Token req) (rp_NewPassword req)) ?w = (x, w)"
    and x: "resetDone = (case x of Inl err \<Rightarrow> handlePasswordError err | Inr _ \<Rightarrow> resetDone)"
    and s: "ps_Queries ?s = OnPool" "ps_Hasher ?s = NewArgon2idHasher ?E hc"
    by blast
  from x have "isOk x" using resetDone_no_error by (cases x) auto
  with run obtain t :: auth_token where
    "run_state (storeNewPassword ?E ?s (at_user_id t) (rp_NewPassword req) ''failed to hash password'') ?w1 = (x, w)"
    by (auto simp: run_CompletePasswordReset [OF s(1)] Let_def tick split: option.splits)
  from tripleD [OF argon.inv_storeNewPassword [OF s(2) stmt_inv_rowsSpent] _ this]
  have "rowsSpent ?n ?h ?ty ?now (spend ?h ?ty ?now (sv_db sv)) \<Longrightarrow> ?thesis"
    by (simp add: Schema.inv_def)
  moreover have "rowsSpent ?n ?h ?ty ?now (spend ?h ?ty ?now (sv_db sv))"
    using spent_spend [of ?h ?ty ?now "sv_db sv"] by (simp add: rowsSpent_def spend_def spent_def)
  ultimately show ?thesis by blast
qed

text \<open>
  C15 A reset token is single use. Once a reset has been accepted, take any series of requests
  of any clients to any of the handlers, under any faults, and then a reset with the same
  token, by any client and with any password. Unless one of the tokens issued since happens to
  have the same hash, it is refused and changes nothing: with the 400 error for an invalid token
  when the database answers, with a 500 otherwise. The clock of the database must not have gone
  back, as an expired token would otherwise come back to life.
\<close>

theorem reset_token_single_use:
  assumes "wellBuilt A" and "reachable A sv"
    and "run_state (dispatch A (ResetPasswordReq (Some req)) r) (requestWorld sv c) = (resetDone, w)"
    and "(serves A)\<^sup>*\<^sup>* (afterRequest sv c w) sv2"
    and "db_now (ap_env A) (sv_tick sv) \<le> db_now (ap_env A) (sv_tick sv2)"
    and "\<forall>t\<in>set (drop (length (tokens (sv_db sv))) (tokens (sv_db sv2))).
           at_token_hash t \<noteq> sha256Sum (ap_env A) (rp_Token req)"
    and "rp_Token req2 = rp_Token req"
    and "run_state (dispatch A (ResetPasswordReq (Some req2)) r2) (requestWorld sv2 c2) = (resp2, w2)"
  shows "w_db w2 = sv_db sv2 \<and> resp2 \<noteq> resetDone \<and>
    (case db_fault (ap_env A) (sv_tick sv2) of
       None \<Rightarrow> resp2 = handlePasswordError (PasswordError ErrTokenInvalid 400 '''') \<and> rs_Status resp2 = 400
     | Some _ \<Rightarrow> rs_Status resp2 = 500)"
proof -
  let ?h = "sha256Sum (ap_env A) (rp_Token req)" and ?n = "length (tokens (sv_db sv))"
  let ?now = "db_now (ap_env A) (sv_tick sv)"
  have "serves A sv (afterRequest sv c w)" unfolding serves_def using assms(3) by blast
  then have ok: "serverOk A (afterRequest sv c w)"
    by (rule step_invariant [OF assms(1) serves_step reachable_ok [OF assms(2,1)]])
  from accepted_reset_spends [OF assms(1,3)]
  have "rowsSpent ?n ?h ''password_reset'' ?now (sv_db (afterRequest sv c w))" by simp
  with all_serve [OF assms(1,4) ok stmt_inv_rowsSpent]
  have "rowsSpent ?n ?h ''password_reset'' ?now (sv_db sv2)" by blast
  from redeemable_spent [OF rowsSpent_spent [OF this assms(6)] assms(5)]
  have none: "redeemable (sv_db sv2) ?h ''password_reset'' (db_now (ap_env A) (sv_tick sv2)) = None" .
  have tick: "w_tick (requestWorld sv2 c2) = sv_tick sv2" by (simp add: requestWorld_def)
  have invalid: "rs_Status (handlePasswordError (PasswordError ErrTokenInvalid 400 '''')) = 400"
    "rs_Status (handlePasswordError (Wrapped m (faultError f))) = 500" for m f
    by (cases f; simp add: handlePasswordError_def writeError_def)+
  from reset_request [OF assms(1,8)] obtain x where
    run: "run_state (CompletePasswordReset (ap_env A) (ph_Store (ap_password A)) (rp_Token req2) (rp_NewPassword req2))
      (requestWorld sv2 c2) = (x, w2)"
    and resp: "resp2 = (case x of Inl err \<Rightarrow> handlePasswordError err | Inr _ \<Rightarrow> resetDone)"
    and q: "ps_Queries (ph_Store (ap_password A)) = OnPool" by blast
  have "w_db w2 = sv_db sv2 \<and>
    (case db_fault (ap_env A) (sv_tick sv2) of
       None \<Rightarrow> resp2 = handlePasswordError (PasswordError ErrTokenInvalid 400 '''') \<and> rs_Status resp2 = 400
     | Some _ \<Rightarrow> rs_Status resp2 = 500)"
    using run resp invalid
    by (cases "db_fault (ap_env A) (sv_tick sv2)")
      (auto simp: run_CompletePasswordReset [OF q] Let_def tick none assms(7) spend_none passwordError_def)
  moreover have "rs_Status resetDone = 200" by (simp add: resetDone_def)
  ultimately show ?thesis by (auto split: option.splits)
qed

section \<open>Witnesses\<close>

definition resetServer :: "(string \<Rightarrow> session_value option) server" where
  "resetServer = sampleServer\<lparr>sv_db := resetDb ''password_reset''\<rparr>"

definition resetBody :: reset_password_request where
  "resetBody = \<lparr>rp_Token = ''tok'', rp_NewPassword = ''pw''\<rparr>"

lemma resetServer_reachable: "reachable sampleApp resetServer"
proof (rule reach_start)
  show "db_ok (sv_db resetServer)"
    using db_ok_loginDb
    by (simp add: resetServer_def resetDb_def addToken_def db_ok_def userExists_def tenantExists_def
        loginDb_def sampleDb_def localSampleUser_def sampleUser_def tokenTypes_def)
qed (simp add: resetServer_def sampleServer_def)

text \<open>The token is redeemed, and nothing is issued.\<close>

lemma reset_accepted:
  "\<exists>w. run_state (dispatch sampleApp (ResetPasswordReq (Some resetBody)) r) (requestWorld resetServer c) = (resetDone, w) \<and>
     length (tokens (w_db w)) = 1"
proof -
  let ?s = "ph_Store sampleHandler" and ?d = "resetDb ''password_reset''"
  let ?w = "requestWorld resetServer c"
  let ?w1 = "(tickw ?w)\<lparr>w_db := spend ''tok'' ''password_reset'' 0 ?d\<rparr>"
  have s: "?s = samplePasswordStore sampleEnv" by (simp add: sampleHandler_def)
  have w: "w_tick ?w = 0" "sv_db resetServer = ?d" by (simp_all add: requestWorld_def resetServer_def sampleServer_def)
  obtain t :: auth_token where t: "redeemable ?d ''tok'' ''password_reset'' 0 = Some t" "at_user_id t = 104"
    using resetDb_redeemable by blast
  obtain r' w' where run: "run_state (storeNewPassword sampleEnv ?s 104 ''pw'' ''failed to hash password'') ?w1 = (r', w')"
    by fastforce
  have "r' = Inr ()"
    by (rule storeNewPassword_healthy [OF _ _ _ samplePasswordStore_simps(3) _ sample_acceptable(1) run [unfolded s]])
      (simp_all add: healthy_def)
  moreover have "tokens (w_db w') = tokens (spend ''tok'' ''password_reset'' 0 ?d)"
    using argon.storeNewPassword_outcome [OF samplePasswordStore_simps(3) _ sample_argon2_contract run [unfolded s]]
    by (auto simp: setHash_def split: sum.splits)
  moreover have "length (tokens (spend ''tok'' ''password_reset'' 0 ?d)) = 1"
    by (simp add: spend_def resetDb_def addToken_def loginDb_def sampleDb_def)
  ultimately show ?thesis
    using t run
    by (simp add: ResetPasswordHandler_def resetBody_def run_CompletePasswordReset s w Let_def resetDone_def)
qed

text \<open>A request without a body is served in between, and then another client tries the token.\<close>

theorem reset_token_single_use_witness:
  "\<exists>sv1 sv2. serves sampleApp resetServer sv1 \<and> serves sampleApp sv1 sv2 \<and>
     rs_Status (fst (run_state (dispatch sampleApp (ResetPasswordReq (Some resetBody)) (sampleRequest ''/reset-password''))
       (requestWorld sv2 7))) = 400"
proof -
  let ?r = "sampleRequest ''/reset-password''"
  obtain w where run: "run_state (dispatch sampleApp (ResetPasswordReq (Some resetBody)) ?r) (requestWorld resetServer 0) =
      (resetDone, w)" and n: "length (tokens (w_db w)) = 1"
    using reset_accepted by blast
  let ?sv1 = "afterRequest resetServer 0 w"
  have between: "run_state (dispatch sampleApp (ResetPasswordReq None) ?r) (requestWorld ?sv1 3) = (badBody, requestWorld ?sv1 3)"
    by (simp add: ResetPasswordHandler_def)
  let ?sv2 = "afterRequest ?sv1 3 (requestWorld ?sv1 3)"
  have 1: "serves sampleApp resetServer ?sv1" unfolding serves_def using run by blast
  have 2: "serves sampleApp ?sv1 ?sv2" unfolding serves_def using between by blast
  have 3: "(serves sampleApp)\<^sup>*\<^sup>* ?sv1 ?sv2" by (rule r_into_rtranclp) (rule 2)
  obtain resp2 w2 where run2: "run_state (dispatch sampleApp (ResetPasswordReq (Some resetBody)) ?r) (requestWorld ?sv2 7) =
      (resp2, w2)" by fastforce
  have "length (tokens (sv_db resetServer)) = 1"
    by (simp add: resetServer_def resetDb_def addToken_def loginDb_def sampleDb_def)
  with reset_token_single_use [OF sampleApp_built resetServer_reachable run 3 _ _ refl run2] n
  have "rs_Status resp2 = 400" by (auto simp: resetServer_def sampleServer_def)
  with 1 2 run2 show ?thesis by (metis fst_conv)
qed

end
