(* ===== verification/ConcurrentLogins.thy ===== *)
theory ConcurrentLogins
  imports Logins
begin

text \<open>
  Logins that run at the same time. \<open>pool.Begin\<close> gives a transaction of PostgreSQL's default isolation level READ COMMITTED:
  a statement sees what is committed when it starts, and the rows that its own transaction has written. So
  \<open>Authenticate\<close> of \<open>auth/password/store.go\<close> is cut at its statements: between two of them the other requests run. A
  slot is one request at a time of a server with a fixed number of slots. Every statement succeeds here; \<open>Logins\<close> has
  the faults, of one request alone.
\<close>

section \<open>One request, statement by statement\<close>

text \<open>
  \<open>Asked\<close>: the request has arrived; \<open>Begun\<close>: the user is found and the transaction open (\<open>NOW()\<close> is fixed);
  \<open>Admitted\<close>: the count was below the limit; \<open>Recorded\<close>: the attempt is inserted and not committed;
  \<open>Committed\<close>: a new hash may still be stored.
\<close>

datatype phase =
    Asked string string "string option"
  | Begun user string "string option" int
  | Admitted user string "string option" int
  | Recorded user "string option" int bool bool
  | Committed user bool
  | Answered "go_error + user_ref"

definition countPhase :: "'w password_store \<Rightarrow> int \<Rightarrow> database \<Rightarrow> user \<Rightarrow> string \<Rightarrow> string option \<Rightarrow> int \<Rightarrow> phase" where
  "countPhase s cutoff d u pw ip now =
     (if IsLockedOut (recentFailures d (u_id u) cutoff) (pcfg_Lockout (ps_Config s))
      then Answered (Inl (passwordError ErrAccountLocked 423)) else Admitted u pw ip now)"

definition verifyPhase :: "'w password_store \<Rightarrow> database \<Rightarrow> user \<Rightarrow> string \<Rightarrow> string option \<Rightarrow> int \<Rightarrow> phase" where
  "verifyPhase s d u pw ip now =
     (case credentialOf d (u_id u) of
        None \<Rightarrow> Answered (Inl (passwordError ErrInvalidCredentials 401))
      | Some c \<Rightarrow>
          (case hash_Verify (ps_Hasher s) pw (pc_password_hash c) of
             Inl e \<Rightarrow> Answered (Inl (Wrapped ''failed to verify password'' e))
           | Inr (match, needsRehash) \<Rightarrow> Recorded u ip now match needsRehash))"

definition commitPhase ::
    "'w password_store \<Rightarrow> user \<Rightarrow> string option \<Rightarrow> int \<Rightarrow> bool \<Rightarrow> bool \<Rightarrow> database \<Rightarrow> phase \<times> database" where
  "commitPhase s u ip now ok needsRehash d =
     (let d' = addAttempt (u_id u) ip ok now d in
      if \<not> ok then (Answered (Inl (passwordError ErrInvalidCredentials 401)), d')
      else if pcfg_RequireEmailVerification (ps_Config s) \<and> \<not> u_email_verified u
        then (Answered (Inl (passwordError ErrEmailNotVerified 403)), d')
      else (Committed u needsRehash, touchLogin (u_id u) now d'))"

text \<open>
  One step: \<open>cutoff\<close> is the start of the window at the time of the count, \<open>now\<close> the time at which the
  transaction begins, \<open>rehash\<close> the new hash and its time when one is stored.
\<close>

fun slotStep ::
    "'w password_store \<Rightarrow> int \<Rightarrow> int \<Rightarrow> (string \<times> int) option \<Rightarrow> phase \<Rightarrow> database \<Rightarrow> phase \<times> database" where
  "slotStep s cutoff now rehash (Asked email pw ip) d =
     (case localUser d email (cfgIssuer s) of
        None \<Rightarrow> (Answered (Inl (passwordError ErrInvalidCredentials 401)), d)
      | Some u \<Rightarrow> (Begun u pw ip now, d))"
| "slotStep s cutoff now rehash (Begun u pw ip n) d = (countPhase s cutoff d u pw ip n, d)"
| "slotStep s cutoff now rehash (Admitted u pw ip n) d = (verifyPhase s d u pw ip n, d)"
| "slotStep s cutoff now rehash (Recorded u ip n ok re) d = commitPhase s u ip n ok re d"
| "slotStep s cutoff now rehash (Committed u re) d =
     (Answered (Inr (refOf u)), applyRehash (u_id u) (if re then rehash else None) d)"
| "slotStep s cutoff now rehash (Answered r) d = (Answered r, d)"

fun slotSteps ::
    "'w password_store \<Rightarrow> int \<Rightarrow> int \<Rightarrow> (string \<times> int) option \<Rightarrow> nat \<Rightarrow> phase \<times> database \<Rightarrow> phase \<times> database" where
  "slotSteps s cutoff now rehash 0 pd = pd"
| "slotSteps s cutoff now rehash (Suc n) pd = slotSteps s cutoff now rehash n (slotStep s cutoff now rehash (fst pd) (snd pd))"

text \<open>A request that is not disturbed is the login step that \<open>Authenticate\<close> refines; five steps answer it.\<close>

theorem undisturbed_login:
  "slotSteps s cutoff now rehash 5 (Asked email pw ip, d) =
     (Answered (fst (loginStep s ip cutoff now rehash email pw d)), snd (loginStep s ip cutoff now rehash email pw d))"
  by (auto simp: eval_nat_numeral loginStep_def countPhase_def verifyPhase_def commitPhase_def Let_def
      split: option.split sum.split)

section \<open>Many requests\<close>

text \<open>The user, when a step of a request in this phase finds that the password is wrong.\<close>

definition wrongCheck :: "'w password_store \<Rightarrow> database \<Rightarrow> phase \<Rightarrow> uuid list" where
  "wrongCheck s d p =
     (case p of
        Admitted u pw ip now \<Rightarrow>
          (case credentialOf d (u_id u) of
             None \<Rightarrow> []
           | Some c \<Rightarrow> (case hash_Verify (ps_Hasher s) pw (pc_password_hash c) of
                Inr (False, _) \<Rightarrow> [u_id u] | _ \<Rightarrow> []))
      | _ \<Rightarrow> [])"

text \<open>
  The tables, the slots, and the history of the run: the user of every password that was checked and found wrong,
  whatever became of the request. All counts of the run look back to at most the time \<open>since\<close>, and its
  transactions begin after it: the run is shorter than the window.
\<close>

type_synonym logins = "database \<times> phase list \<times> uuid list"

inductive logins_step :: "'w password_store \<Rightarrow> int \<Rightarrow> logins \<Rightarrow> logins \<Rightarrow> bool" for s since where
  ls_arrive: "i < length ps \<Longrightarrow> ps ! i = Answered r \<Longrightarrow>
    logins_step s since (d, ps, checks) (d, ps[i := Asked email pw ip], checks)"
| ls_step: "i < length ps \<Longrightarrow> cutoff \<le> since \<Longrightarrow> since < now \<Longrightarrow> slotStep s cutoff now rehash (ps ! i) d = (p, d') \<Longrightarrow>
    logins_step s since (d, ps, checks) (d', ps[i := p], checks @ wrongCheck s d (ps ! i))"

inductive logins_reachable ::
    "'w password_store \<Rightarrow> int \<Rightarrow> database \<Rightarrow> nat \<Rightarrow> logins \<Rightarrow> bool" for s since d0 k where
  lr_init: "logins_reachable s since d0 k (d0, replicate k (Answered (Inl (ErrorString ''idle''))), [])"
| lr_step: "logins_reachable s since d0 k c \<Longrightarrow> logins_step s since c c' \<Longrightarrow> logins_reachable s since d0 k c'"

text \<open>The requests for a user that have passed the count and may still add a failure.\<close>

fun pendingFor :: "uuid \<Rightarrow> phase \<Rightarrow> bool" where
  "pendingFor uid (Admitted u pw ip now) = (u_id u = uid)"
| "pendingFor uid (Recorded u ip now ok re) = (u_id u = uid \<and> \<not> ok)"
| "pendingFor uid _ = False"

definition pending :: "uuid \<Rightarrow> phase list \<Rightarrow> nat" where
  "pending uid ps = length (filter (pendingFor uid) ps)"

text \<open>Those of them that have found the password wrong and have not committed the failure.\<close>

fun uncommitted :: "uuid \<Rightarrow> phase \<Rightarrow> bool" where
  "uncommitted uid (Recorded u ip now ok re) = (u_id u = uid \<and> \<not> ok)"
| "uncommitted uid _ = False"

lemma length_filter_update:
  assumes "i < length ps"
  shows "length (filter P (ps[i := p])) + (if P (ps ! i) then 1 else 0) = length (filter P ps) + (if P p then 1 else 0)"
proof -
  have ps: "ps = take i ps @ ps ! i # drop (Suc i) ps" using assms by (rule id_take_nth_drop)
  have up: "ps[i := p] = take i ps @ p # drop (Suc i) ps" using assms by (rule upd_conv_take_nth_drop)
  have "length (filter P ps) = length (filter P (take i ps)) + (if P (ps ! i) then 1 else 0) + length (filter P (drop (Suc i) ps))"
    by (subst ps) simp
  moreover have "length (filter P (ps[i := p])) = length (filter P (take i ps)) + (if P p then 1 else 0) + length (filter P (drop (Suc i) ps))"
    unfolding up by simp
  ultimately show ?thesis by simp
qed

lemmas pending_update = length_filter_update [where P = "pendingFor uid" for uid, folded pending_def]

lemma pending_le: "pending uid ps \<le> length ps"
  by (simp add: pending_def)

lemma uncommitted_pending: "length (filter (uncommitted uid) ps) \<le> pending uid ps"
proof -
  have "uncommitted uid p \<Longrightarrow> pendingFor uid p" for p by (cases p) auto
  then show ?thesis unfolding pending_def by (induction ps) auto
qed

lemma recentFailures_mono: "cutoff \<le> since \<Longrightarrow> recentFailures d uid since \<le> recentFailures d uid cutoff"
proof -
  assume "cutoff \<le> since"
  then have "recentFailure uid since a \<Longrightarrow> recentFailure uid cutoff a" for a by (auto simp: recentFailure_def)
  then have "length (filter (recentFailure uid since) xs) \<le> length (filter (recentFailure uid cutoff) xs)" for xs
    by (induction xs) auto
  then show ?thesis by (simp add: recentFailures_def)
qed

lemma recentFailures_changes [simp]:
  "recentFailures (touchLogin v now d) uid since = recentFailures d uid since"
  "recentFailures (applyRehash v r d) uid since = recentFailures d uid since"
  "recentFailures (addAttempt v ip ok now d) uid since =
     recentFailures d uid since + (if v = uid \<and> \<not> ok \<and> since < now then 1 else 0)"
  by (auto simp: recentFailures_def touchLogin_def applyRehash_def setHash_def addAttempt_def recentFailure_def
      split: option.split)

text \<open>One step adds to failures and pending requests together only by an admission below the limit.\<close>

lemma slotStep_count:
  assumes "slotStep s cutoff now rehash p d = (p', d')" and "cutoff \<le> since"
  shows "recentFailures d' uid since + (if pendingFor uid p' then 1 else 0) \<le>
      recentFailures d uid since + (if pendingFor uid p then 1 else (0 :: nat)) \<or>
    (d' = d \<and> \<not> pendingFor uid p \<and> int (recentFailures d uid since) < lc_MaxAttempts (pcfg_Lockout (ps_Config s)))"
proof (cases p)
  case (Begun u pw ip n)
  show ?thesis
  proof (cases "pendingFor uid p'")
    case True
    then have "u_id u = uid" "\<not> IsLockedOut (recentFailures d uid cutoff) (pcfg_Lockout (ps_Config s))" "d' = d"
      using assms(1) Begun by (auto simp: countPhase_def split: if_splits)
    then show ?thesis using recentFailures_mono [OF assms(2), of d uid] Begun by (simp add: IsLockedOut_def)
  next
    case False
    then show ?thesis using assms(1) Begun by (auto simp: countPhase_def)
  qed
next
  case Admitted
  then show ?thesis using assms(1) by (auto simp: verifyPhase_def split: option.splits sum.splits)
next
  case Recorded
  then show ?thesis using assms(1) by (auto simp: commitPhase_def Let_def split: if_splits)
qed (use assms(1) in \<open>auto split: option.splits\<close>)

definition limitOf :: "'w password_store \<Rightarrow> int" where
  "limitOf s = lc_MaxAttempts (pcfg_Lockout (ps_Config s))"

lemma logins_bound:
  assumes "logins_reachable s since d0 k c" and "int (recentFailures d0 uid since) < limitOf s"
  shows "length (fst (snd c)) = k \<and>
    int (recentFailures (fst c) uid since + pending uid (fst (snd c))) \<le> limitOf s - 1 + int k"
  using assms(1)
proof (induction rule: logins_reachable.induct)
  case lr_init
  have "pending uid (replicate k (Answered (Inl (ErrorString ''idle'')))) = 0" by (simp add: pending_def)
  with assms(2) show ?case by simp
next
  case (lr_step c c')
  from lr_step.hyps(2) lr_step.IH show ?case
  proof (cases rule: logins_step.cases)
    case (ls_arrive i ps r d checks email pw ip)
    then show ?thesis using lr_step.IH pending_update [of i ps uid "Asked email pw ip"] by simp
  next
    case (ls_step i ps cutoff now rehash d p d' checks)
    then have i: "i < length ps" and IH: "length ps = k"
      "int (recentFailures d uid since + pending uid ps) \<le> limitOf s - 1 + int k" using lr_step.IH by simp_all
    note up = pending_update [OF i, of uid p]
    from slotStep_count [OF ls_step(6,4), of uid]
    have "int (recentFailures d' uid since + pending uid (ps[i := p])) \<le> limitOf s - 1 + int k"
    proof
      assume "recentFailures d' uid since + (if pendingFor uid p then 1 else 0) \<le>
        recentFailures d uid since + (if pendingFor uid (ps ! i) then 1 else 0)"
      then show ?thesis using up IH(2) by (simp split: if_splits)
    next
      assume "d' = d \<and> \<not> pendingFor uid (ps ! i) \<and>
        int (recentFailures d uid since) < lc_MaxAttempts (pcfg_Lockout (ps_Config s))"
      moreover have "pending uid (ps[i := p]) \<le> k" using pending_le [of uid "ps[i := p]"] IH(1) by simp
      ultimately show ?thesis by (simp add: limitOf_def)
    qed
    then show ?thesis using ls_step IH(1) by simp
  qed
qed

text \<open>Every transaction in flight begins after the start of the window.\<close>

fun begunAfter :: "int \<Rightarrow> phase \<Rightarrow> bool" where
  "begunAfter since (Begun u pw ip now) = (since < now)"
| "begunAfter since (Admitted u pw ip now) = (since < now)"
| "begunAfter since (Recorded u ip now ok re) = (since < now)"
| "begunAfter since _ = True"

lemma slotStep_begunAfter:
  assumes "slotStep s cutoff now rehash p d = (p', d')" and "since < now" and "begunAfter since p"
  shows "begunAfter since p'"
  using assms
  by (cases p) (auto simp: countPhase_def verifyPhase_def commitPhase_def Let_def
      split: option.splits sum.splits prod.splits if_splits)

text \<open>A step records in the tables, or still carries, exactly the wrong passwords that were checked.\<close>

lemma slotStep_checks:
  assumes "slotStep s cutoff now rehash p d = (p', d')" and "begunAfter since p"
  shows "recentFailures d' uid since + (if uncommitted uid p' then 1 else 0) =
    recentFailures d uid since + (if uncommitted uid p then 1 else 0) + count_list (wrongCheck s d p) uid"
  using assms
  by (cases p) (auto simp: wrongCheck_def countPhase_def verifyPhase_def commitPhase_def Let_def
      split: option.splits sum.splits prod.splits if_splits bool.splits)

lemma logins_checks:
  assumes "logins_reachable s since d0 k c"
  shows "(\<forall>p\<in>set (fst (snd c)). begunAfter since p) \<and>
    recentFailures (fst c) uid since + length (filter (uncommitted uid) (fst (snd c))) =
      recentFailures d0 uid since + count_list (snd (snd c)) uid"
  using assms
proof (induction rule: logins_reachable.induct)
  case lr_init
  then show ?case by simp
next
  case (lr_step c c')
  from lr_step.hyps(2) lr_step.IH show ?case
  proof (cases rule: logins_step.cases)
    case (ls_arrive i ps r d checks email pw ip)
    then show ?thesis
      using lr_step.IH length_filter_update [OF ls_arrive(3), of "uncommitted uid" "Asked email pw ip"]
      by (auto dest!: subsetD [OF set_update_subset_insert])
  next
    case (ls_step i ps cutoff now rehash d p d' checks)
    then have IH: "\<forall>p\<in>set ps. begunAfter since p"
      "recentFailures d uid since + length (filter (uncommitted uid) ps) = recentFailures d0 uid since + count_list checks uid"
      using lr_step.IH by simp_all
    then have b: "begunAfter since (ps ! i)" using ls_step(3) by simp
    have "\<forall>p\<in>set (ps[i := p]). begunAfter since p"
      using slotStep_begunAfter [OF ls_step(6,5) b] IH(1) by (auto dest!: subsetD [OF set_update_subset_insert])
    moreover have "recentFailures d' uid since + length (filter (uncommitted uid) (ps[i := p])) =
        recentFailures d0 uid since + count_list (checks @ wrongCheck s d (ps ! i)) uid"
      using slotStep_checks [OF ls_step(6) b, of uid] IH(2)
        length_filter_update [OF ls_step(3), of "uncommitted uid" p] by (simp split: if_splits)
    ultimately show ?thesis using ls_step by simp
  qed
qed

text \<open>
  C13 Logins at the same time can exceed the lockout limit, by less than their number: with \<open>k\<close> requests
  at a time, in whatever way their statements interleave, the failures of a user that were in the window at its start
  and the wrong passwords that were checked for the user since are together at most \<open>limit - 1 + k\<close>, when the
  user was below the limit at the start; a single request at a time (\<open>k = 1\<close>) keeps the limit. Every one of those
  checks is in the tables once no request is in flight.
\<close>

theorem concurrent_guess_limit:
  assumes "logins_reachable s since d0 k (d, ps, checks)" and "int (recentFailures d0 uid since) < limitOf s"
  shows "int (recentFailures d0 uid since + count_list checks uid) \<le> limitOf s - 1 + int k \<and>
    ((\<forall>p\<in>set ps. \<exists>r. p = Answered r) \<longrightarrow>
       recentFailures d uid since = recentFailures d0 uid since + count_list checks uid)"
proof -
  note n = logins_checks [OF assms(1), of uid, simplified]
  have "filter (uncommitted uid) ps = []" if "\<forall>p\<in>set ps. \<exists>r. p = Answered r"
    using that by (auto simp: filter_empty_conv)
  then show ?thesis
    using n logins_bound [OF assms] uncommitted_pending [of uid ps] by auto
qed

text \<open>The bound is reached: two logins that both count before either commits record two failures under a limit of one.\<close>

definition guess :: phase where
  "guess = Asked ''a@x'' ''wrong'' None"

definition twice :: "database \<Rightarrow> database" where
  "twice d = addAttempt 104 None False 0 (addAttempt 104 None False 0 d)"

definition concStore :: "unit world_scheme password_store" where
  "concStore = samplePasswordStore sampleEnv"

lemma guess_steps:
  fixes d :: database
  assumes "users d = users loginDb" and "credentials d = credentials loginDb"
  defines "s \<equiv> concStore"
  shows "slotStep s (- 1) 0 None guess d = (Begun localSampleUser ''wrong'' None 0, d)"
    and "recentFailures d 104 (- 1) = 0 \<Longrightarrow> slotStep s (- 1) 0 None (Begun localSampleUser ''wrong'' None 0) d =
      (Admitted localSampleUser ''wrong'' None 0, d)"
    and "slotStep s (- 1) 0 None (Admitted localSampleUser ''wrong'' None 0) d = (Recorded localSampleUser None 0 False False, d)"
    and "slotStep s (- 1) 0 None (Recorded localSampleUser None 0 False False) d =
      (Answered (Inl (passwordError ErrInvalidCredentials 401)), addAttempt 104 None False 0 d)"
proof -
  have u: "localUser d ''a@x'' ''local'' = Some localSampleUser" "credentialOf d 104 = Some sampleCredential"
    using loginDb_simps(1,2) assms(1,2) by (simp_all add: localUser_def credentialOf_def)
  show "slotStep s (- 1) 0 None guess d = (Begun localSampleUser ''wrong'' None 0, d)"
    by (simp add: guess_def s_def concStore_def u)
  show "recentFailures d 104 (- 1) = 0 \<Longrightarrow> slotStep s (- 1) 0 None (Begun localSampleUser ''wrong'' None 0) d =
      (Admitted localSampleUser ''wrong'' None 0, d)"
    by (simp add: countPhase_def s_def concStore_def IsLockedOut_def)
  show "slotStep s (- 1) 0 None (Admitted localSampleUser ''wrong'' None 0) d = (Recorded localSampleUser None 0 False False, d)"
    by (simp add: verifyPhase_def s_def concStore_def u)
  show "slotStep s (- 1) 0 None (Recorded localSampleUser None 0 False False) d =
      (Answered (Inl (passwordError ErrInvalidCredentials 401)), addAttempt 104 None False 0 d)"
    by (simp add: commitPhase_def)
qed

lemma addAttempt_same: "users (addAttempt v ip ok now d) = users d" "credentials (addAttempt v ip ok now d) = credentials d"
  by (simp_all add: addAttempt_def)

theorem concurrent_overshoot:
  "\<exists>ps. logins_reachable concStore (- 1) loginDb 2 (twice loginDb, ps, [104, 104]) \<and>
     recentFailures loginDb 104 (- 1) = 0 \<and> limitOf concStore = 1 \<and>
     recentFailures (twice loginDb) 104 (- 1) = 2 \<and> (\<forall>p\<in>set ps. \<exists>r. p = Answered r)"
proof -
  let ?R = "logins_reachable concStore (- 1) loginDb 2"
  let ?idle = "Answered (Inl (ErrorString ''idle''))"
  let ?no = "Answered (Inl (passwordError ErrInvalidCredentials 401))"
  let ?b = "Begun localSampleUser ''wrong'' None 0"
  let ?a = "Admitted localSampleUser ''wrong'' None 0"
  let ?r = "Recorded localSampleUser None 0 False False"
  let ?d1 = "addAttempt 104 None False 0 loginDb"
  note steps = guess_steps [of loginDb, OF refl refl]
  have arrive: "?R (d, ps[i := guess], h)" if "?R (d, ps, h)" "i < length ps" "ps ! i = Answered r" for d ps i r h
    unfolding guess_def by (rule lr_step [OF that(1) ls_arrive [OF that(2,3)]])
  have step: "?R (d', ps[i := p], h @ wrongCheck concStore d (ps ! i))"
    if "?R (d, ps, h)" "i < length ps" "slotStep concStore (- 1) 0 None (ps ! i) d = (p, d')" for d ps i p d' h
    by (rule lr_step [OF that(1) ls_step [OF that(2) order_refl _ that(3)]]) simp
  have wrong: "wrongCheck concStore loginDb ?a = [104]"
    by (simp add: wrongCheck_def concStore_def)
  have right: "wrongCheck concStore d guess = []" "wrongCheck concStore d ?b = []" "wrongCheck concStore d ?r = []" for d
    by (simp_all add: wrongCheck_def guess_def)
  have 0: "?R (loginDb, [?idle, ?idle], [])"
    using lr_init [of concStore "- 1" loginDb 2] by (simp add: numeral_2_eq_2)
  have 1: "?R (loginDb, [guess, guess], [])"
    using arrive [where i = 1, OF arrive [where i = 0, OF 0]] by simp
  have 2: "?R (loginDb, [?b, ?b], [])"
    using step [where i = 1, OF step [where i = 0, OF 1]] steps(1) by (simp add: right)
  have 3: "?R (loginDb, [?a, ?a], [])"
    using step [where i = 1, OF step [where i = 0, OF 2]] steps(2) by (simp add: right)
  have 4: "?R (loginDb, [?r, ?r], [104, 104])"
    using step [where i = 1, OF step [where i = 0, OF 3]] steps(3) by (simp add: wrong)
  have 5: "?R (?d1, [?no, ?r], [104, 104])"
    using step [where i = 0, OF 4] steps(4) by (simp add: right)
  have "?R (twice loginDb, [?no, ?no], [104, 104])"
    using step [where i = 1, OF 5] guess_steps(4) [of ?d1] by (simp add: addAttempt_same twice_def right)
  then show ?thesis by (intro exI [of _ "[?no, ?no]"]) (simp add: limitOf_def concStore_def twice_def)
qed

theorem concurrent_guess_limit_witness:
  "recentFailures (twice loginDb) 104 (- 1) = count_list [104, 104] 104 \<and>
   int (count_list [104, 104] (104 :: uuid)) \<le> limitOf concStore - 1 + int 2"
proof -
  obtain ps where "logins_reachable concStore (- 1) loginDb 2 (twice loginDb, ps, [104, 104])"
    and "\<forall>p\<in>set ps. \<exists>r. p = Answered r"
    using concurrent_overshoot by blast
  with concurrent_guess_limit [OF this(1), of 104] show ?thesis by (simp add: limitOf_def concStore_def)
qed

end
