(* ===== verification/Filepath.thy ===== *)
theory Filepath
  imports GoStrings
begin

text \<open>
  What the command line tool uses of Go's \<open>path/filepath\<close> on Unix: \<open>Clean\<close>, \<open>Join\<close> and
  \<open>Dir\<close>, which are lexical. \<open>place\<close> is the location a path names: whether it is absolute
  and its components after cleaning.
\<close>

type_synonym place = "bool \<times> string list"

definition slash :: char where
  "slash = CHR ''/''"

text \<open>One component, on the stack of the components kept so far.\<close>

definition cleanStep :: "bool \<Rightarrow> string \<Rightarrow> string list \<Rightarrow> string list" where
  "cleanStep rooted c st =
     (if c = '''' \<or> c = ''.'' then st
      else if c = ''..'' then
        (case st of
           [] \<Rightarrow> if rooted then [] else [c]
         | t # ts \<Rightarrow> if t = ''..'' then c # st else ts)
      else c # st)"

definition rooted :: "string \<Rightarrow> bool" where
  "rooted p \<longleftrightarrow> hasPrefix p [slash]"

definition place :: "string \<Rightarrow> place" where
  "place p = (rooted p, rev (fold (cleanStep (rooted p)) (splitOn slash p) []))"

definition render :: "place \<Rightarrow> string" where
  "render l =
     (if fst l then slash # joinWith [slash] (snd l)
      else if snd l = [] then ''.'' else joinWith [slash] (snd l))"

definition pathClean :: "string \<Rightarrow> string" where
  "pathClean p = render (place p)"

definition pathJoin :: "string list \<Rightarrow> string" where
  "pathJoin es =
     (case dropWhile (\<lambda>e. e = '''') es of
        [] \<Rightarrow> ''''
      | es' \<Rightarrow> pathClean (joinWith [slash] es'))"

text \<open>Everything up to the last separator, cleaned.\<close>

definition pathDir :: "string \<Rightarrow> string" where
  "pathDir p = pathClean (rev (dropWhile (\<lambda>c. c \<noteq> slash) (rev p)))"

section \<open>Canonical places\<close>

definition ordinary :: "string \<Rightarrow> bool" where
  "ordinary c \<longleftrightarrow> c \<noteq> '''' \<and> c \<noteq> ''.'' \<and> c \<noteq> ''..'' \<and> slash \<notin> set c"

text \<open>A relative path of ordinary components.\<close>

definition plainPath :: "string \<Rightarrow> bool" where
  "plainPath p \<longleftrightarrow> (\<forall>c\<in>set (splitOn slash p). ordinary c)"

definition canonical :: "place \<Rightarrow> bool" where
  "canonical l \<longleftrightarrow>
     (\<exists>n cs. snd l = replicate n ''..'' @ cs \<and> (\<forall>c\<in>set cs. ordinary c) \<and> (fst l \<longrightarrow> n = 0))"

lemma slash_not_dots [simp]: "slash \<notin> set ''..''" "slash \<notin> set ''.''"
  by (simp_all add: slash_def)

lemma cleanStep_ordinary [simp]: "ordinary c \<Longrightarrow> cleanStep r c st = c # st"
  by (simp add: cleanStep_def ordinary_def)

lemma fold_ordinary: "(\<forall>c\<in>set cs. ordinary c) \<Longrightarrow> fold (cleanStep r) cs st = rev cs @ st"
  by (induction cs arbitrary: st) auto

lemma fold_dots: "fold (cleanStep False) (replicate n ''..'') (replicate m ''..'') = replicate (n + m) ''..''"
proof (induction n arbitrary: m)
  case (Suc n)
  have "cleanStep False ''..'' (replicate m ''..'') = replicate (Suc m) ''..''"
    by (cases m) (simp_all add: cleanStep_def)
  then have "fold (cleanStep False) (replicate (Suc n) ''..'') (replicate m ''..'') =
      fold (cleanStep False) (replicate n ''..'') (replicate (Suc m) ''..'')"
    by (simp only: replicate_Suc fold_Cons comp_def)
  then show ?case by (simp only: Suc.IH) simp
qed simp

text \<open>The stack stays a reversed canonical list.\<close>

definition stackOk :: "bool \<Rightarrow> string list \<Rightarrow> bool" where
  "stackOk r st \<longleftrightarrow> canonical (r, rev st)"

lemma stackOk_iff:
  "stackOk r st \<longleftrightarrow> (\<exists>n cs. st = cs @ replicate n ''..'' \<and> (\<forall>c\<in>set cs. ordinary c) \<and> (r \<longrightarrow> n = 0))"
proof
  assume "stackOk r st"
  then obtain n cs where "rev st = replicate n ''..'' @ cs" "\<forall>c\<in>set cs. ordinary c" "r \<longrightarrow> n = 0"
    by (auto simp: stackOk_def canonical_def)
  moreover from this(1) have "st = rev cs @ replicate n ''..''"
    by (metis rev_append rev_replicate rev_rev_ident)
  ultimately show "\<exists>n cs. st = cs @ replicate n ''..'' \<and> (\<forall>c\<in>set cs. ordinary c) \<and> (r \<longrightarrow> n = 0)"
    by (metis set_rev)
next
  assume "\<exists>n cs. st = cs @ replicate n ''..'' \<and> (\<forall>c\<in>set cs. ordinary c) \<and> (r \<longrightarrow> n = 0)"
  then obtain n cs where "st = cs @ replicate n ''..''" "\<forall>c\<in>set cs. ordinary c" "r \<longrightarrow> n = 0" by blast
  then show "stackOk r st"
    unfolding stackOk_def canonical_def by (intro exI [of _ n] exI [of _ "rev cs"]) simp
qed

lemma cleanStep_stackOk:
  assumes st: "stackOk r st" and c: "slash \<notin> set c"
  shows "stackOk r (cleanStep r c st)"
proof -
  from st obtain n cs where s: "st = cs @ replicate n ''..''"
    and o: "\<forall>c\<in>set cs. ordinary c" and r: "r \<longrightarrow> n = 0" by (auto simp: stackOk_iff)
  consider "c = '''' \<or> c = ''.''" | "ordinary c" | "c = ''..''" using c by (auto simp: ordinary_def)
  then show ?thesis
  proof cases
    case 1
    with st show ?thesis by (auto simp: cleanStep_def)
  next
    case 2
    have "c # st = (c # cs) @ replicate n ''..''" by (simp add: s)
    moreover have "\<forall>x\<in>set (c # cs). ordinary x" using o 2 by simp
    ultimately have "stackOk r (c # st)" using r unfolding stackOk_iff by blast
    with 2 show ?thesis by simp
  next
    case 3
    show ?thesis
    proof (cases cs)
      case Nil
      have "cleanStep r ''..'' st = (if r then [] else replicate (Suc n) ''..'')"
        using r by (cases n) (auto simp: cleanStep_def s Nil)
      moreover have "stackOk True []" unfolding stackOk_iff by auto
      moreover have "stackOk False ([] @ replicate (Suc n) ''..'')"
        unfolding stackOk_iff by (intro exI [of _ "Suc n"] exI [of _ "[]"]) simp
      ultimately show ?thesis using 3 by (cases r) auto
    next
      case (Cons d ds)
      then have "cleanStep r ''..'' st = ds @ replicate n ''..''"
        using o by (simp add: cleanStep_def s ordinary_def)
      moreover have "stackOk r (ds @ replicate n ''..'')"
        unfolding stackOk_iff using o r Cons by auto
      ultimately show ?thesis using 3 by simp
    qed
  qed
qed

lemma fold_stackOk:
  "stackOk r st \<Longrightarrow> (\<forall>c\<in>set cs. slash \<notin> set c) \<Longrightarrow> stackOk r (fold (cleanStep r) cs st)"
  by (induction cs arbitrary: st) (simp_all add: cleanStep_stackOk)

lemma place_canonical: "canonical (place p)"
proof -
  have "stackOk (rooted p) []" unfolding stackOk_iff by auto
  then have "stackOk (rooted p) (fold (cleanStep (rooted p)) (splitOn slash p) [])"
    by (rule fold_stackOk) (auto dest: splitOn_pieces_no_sep)
  then show ?thesis by (simp add: place_def stackOk_def)
qed

section \<open>Rendering and joining\<close>

lemma splitOn_joinWith:
  "cs \<noteq> [] \<Longrightarrow> (\<forall>c\<in>set cs. sep \<notin> set c) \<Longrightarrow> splitOn sep (joinWith [sep] cs) = cs"
  by (induction "[sep]" cs rule: joinWith.induct) (auto simp: splitOn_no_sep splitOn_append_sep)

lemma splitOn_append: "splitOn sep (a @ sep # b) = splitOn sep a @ splitOn sep b"
  by (induction a) (auto simp: Cons_eq_append_conv split: list.splits)

lemma canonical_parts:
  assumes "canonical l" and "c \<in> set (snd l)"
  shows "slash \<notin> set c" and "c \<noteq> ''''" and "c \<noteq> ''.''"
proof -
  from assms have "c = ''..'' \<or> ordinary c" by (auto simp: canonical_def)
  then have "slash \<notin> set c \<and> c \<noteq> '''' \<and> c \<noteq> ''.''" by (auto simp: ordinary_def slash_def)
  then show "slash \<notin> set c" "c \<noteq> ''''" "c \<noteq> ''.''" by simp_all
qed

lemma fold_canonical: "canonical l \<Longrightarrow> fold (cleanStep (fst l)) (snd l) [] = rev (snd l)"
proof -
  assume "canonical l"
  then obtain n cs where s: "snd l = replicate n ''..'' @ cs" and o: "\<forall>c\<in>set cs. ordinary c"
    and r: "fst l \<longrightarrow> n = 0" by (auto simp: canonical_def)
  show ?thesis
  proof (cases "fst l")
    case True
    then show ?thesis using r o by (simp add: s fold_ordinary)
  next
    case False
    have "fold (cleanStep False) (replicate n ''..'') [] = replicate n ''..''"
      using fold_dots [of n 0] by simp
    then show ?thesis using False o by (simp add: s fold_ordinary)
  qed
qed

lemma rooted_simps [simp]: "rooted (slash # p)" "\<not> rooted ''''" "\<not> rooted ''.''"
  by (simp_all add: rooted_def slash_def)

lemma rooted_append: "a \<noteq> '''' \<Longrightarrow> rooted (a @ b) = rooted a"
  by (cases a) (simp_all add: rooted_def)

lemma joinWith_eq_Nil: "joinWith [sep] cs = '''' \<longleftrightarrow> cs = [] \<or> cs = ['''']"
  by (induction "[sep]" cs rule: joinWith.induct) auto

lemma not_rooted_joinWith:
  "(\<forall>c\<in>set cs. slash \<notin> set c \<and> c \<noteq> '''') \<Longrightarrow> \<not> rooted (joinWith [slash] cs)"
proof (induction "[slash]" cs rule: joinWith.induct)
  case (2 p)
  then show ?case by (cases p) (auto simp: rooted_def)
next
  case (3 p q ps)
  then show ?case by (cases p) (auto simp: rooted_def)
qed simp

theorem place_render:
  assumes "canonical l"
  shows "place (render l) = l"
proof -
  obtain r cs where l: "l = (r, cs)" by (cases l)
  have parts: "\<forall>c\<in>set cs. slash \<notin> set c \<and> c \<noteq> ''''" using canonical_parts [OF assms] by (simp add: l)
  have fo: "fold (cleanStep r) cs [] = rev cs" using fold_canonical [OF assms] by (simp add: l)
  show ?thesis
  proof (cases "cs = []")
    case True
    then show ?thesis by (cases r) (simp_all add: l render_def place_def cleanStep_def)
  next
    case False
    then have sp: "splitOn slash (joinWith [slash] cs) = cs" using parts by (simp add: splitOn_joinWith)
    show ?thesis
    proof (cases r)
      case True
      then have "splitOn slash (render l) = '''' # cs" by (simp add: l render_def sp)
      moreover have "cleanStep True '''' [] = []" by (simp add: cleanStep_def)
      ultimately show ?thesis using fo True by (simp add: place_def l render_def)
    next
      case False
      with \<open>cs \<noteq> []\<close> have "render l = joinWith [slash] cs" by (simp add: l render_def)
      then show ?thesis using not_rooted_joinWith [of cs] parts sp fo False by (simp add: place_def l)
    qed
  qed
qed

lemma place_clean [simp]: "place (pathClean p) = place p"
  by (simp add: pathClean_def place_render place_canonical)

lemma pathClean_idem: "pathClean (pathClean p) = pathClean p"
  by (simp add: pathClean_def place_render place_canonical)

text \<open>Joining a plain relative path to a directory appends its components.\<close>

lemma place_join_plain:
  assumes "plainPath b"
  shows "place (pathJoin [a, b]) = (fst (place a), snd (place a) @ splitOn slash b)"
proof -
  have o: "\<forall>c\<in>set (splitOn slash b). ordinary c" using assms by (simp add: plainPath_def)
  have b: "b \<noteq> ''''" "\<not> rooted b"
  proof -
    show "b \<noteq> ''''"
    proof
      assume "b = ''''"
      with o show False by (simp add: ordinary_def)
    qed
    show "\<not> rooted b"
    proof
      assume "rooted b"
      then obtain t where "b = slash # t" by (auto simp: rooted_def hasPrefix_iff)
      then have "'''' \<in> set (splitOn slash b)" by simp
      with o have "ordinary ''''" by blast
      then show False by (simp add: ordinary_def)
    qed
  qed
  show ?thesis
  proof (cases "a = ''''")
    case True
    with b(1) have "place (pathJoin [a, b]) = place b" by (simp add: pathJoin_def)
    also have "place b = (False, splitOn slash b)" using b(2) o by (simp add: place_def fold_ordinary)
    finally show ?thesis using True by (simp add: place_def [of "''''"] cleanStep_def)
  next
    case False
    then have "place (pathJoin [a, b]) = place (a @ slash # b)" by (simp add: pathJoin_def)
    also have "\<dots> = (rooted a, rev (rev (splitOn slash b) @ fold (cleanStep (rooted a)) (splitOn slash a) []))"
      using False o by (simp add: place_def rooted_append splitOn_append fold_ordinary)
    finally show ?thesis by (simp add: place_def [of a])
  qed
qed

lemma place_dir_place:
  assumes "canonical (r, cs @ [c])" and "c \<noteq> ''..''"
  shows "place (pathDir (render (r, cs @ [c]))) = (r, cs)"
proof -
  have "canonical (r, cs)"
  proof -
    obtain n ds where s: "cs @ [c] = replicate n ''..'' @ ds" "\<forall>c\<in>set ds. ordinary c" "r \<longrightarrow> n = 0"
      using assms(1) by (auto simp: canonical_def)
    have "ds \<noteq> []"
    proof
      assume "ds = []"
      with s(1) have "cs @ [c] = replicate n ''..''" by simp
      then have "c \<in> set (replicate n ''..'')" by (metis in_set_conv_decomp)
      with assms(2) show False by simp
    qed
    then obtain ds' d where d: "ds = ds' @ [d]" by (cases ds rule: rev_cases) auto
    then have "cs = replicate n ''..'' @ ds'" using s(1) by simp
    moreover have "\<forall>c\<in>set ds'. ordinary c" using s(2) d by simp
    ultimately show ?thesis using s(3) by (auto simp: canonical_def)
  qed
  have parts: "slash \<notin> set c" using canonical_parts(1) [OF assms(1)] by simp
  have dw: "rev (dropWhile (\<lambda>c. c \<noteq> slash) (rev (p @ slash # c))) = p @ [slash]" for p
  proof -
    have "dropWhile (\<lambda>c. c \<noteq> slash) (rev c @ slash # rev p) = slash # rev p"
      using parts by (subst dropWhile_append2) auto
    then show ?thesis by simp
  qed
  have dn: "dropWhile (\<lambda>c. c \<noteq> slash) (rev c) = []"
    using parts by (simp add: dropWhile_eq_Nil_conv) metis
  have join: "joinWith [slash] (cs @ [c]) = joinWith [slash] cs @ slash # c" if "cs \<noteq> []"
    using that by (induction "[slash]" cs rule: joinWith.induct) auto
  have trail: "place (p @ [slash]) = place p" if "p \<noteq> ''''" for p
    using that by (simp add: place_def rooted_append splitOn_append cleanStep_def)
  show ?thesis
  proof (cases "cs = []")
    case True
    show ?thesis
    proof (cases r)
      case True
      then have "pathDir (render (r, cs @ [c])) = pathClean [slash]"
        using \<open>cs = []\<close> dw [of "''''"] by (simp add: pathDir_def render_def)
      then show ?thesis using True \<open>cs = []\<close> by (simp only: place_clean) (simp add: place_def cleanStep_def)
    next
      case False
      then have "pathDir (render (r, cs @ [c])) = pathClean ''''"
        using \<open>cs = []\<close> by (simp add: pathDir_def render_def dn)
      then show ?thesis using False \<open>cs = []\<close> by (simp only: place_clean) (simp add: place_def cleanStep_def)
    qed
  next
    case False
    have "render (r, cs @ [c]) = render (r, cs) @ slash # c" using False join by (simp add: render_def)
    then have "pathDir (render (r, cs @ [c])) = pathClean (render (r, cs) @ [slash])"
      using dw by (simp add: pathDir_def)
    moreover have "render (r, cs) \<noteq> ''''"
      using False canonical_parts(2) [OF \<open>canonical (r, cs)\<close>] by (auto simp: render_def joinWith_eq_Nil)
    ultimately show ?thesis using trail place_render [OF \<open>canonical (r, cs)\<close>] by simp
  qed
qed

end
