(* ===== verification/HostFiles.thy ===== *)
theory HostFiles
  imports Filepath Errors
begin

text \<open>
  What the command line tool uses of Go's \<open>os\<close>: \<open>MkdirAll\<close>, \<open>WriteFile\<close>, \<open>ReadFile\<close> and the
  standard streams, on a tree of files and directories without symbolic links. The operating
  system may refuse any call: \<open>disk\<close> gives, by the number of the call, the error and what the
  failed call has done before (\<open>MkdirAll\<close> is several system calls, and a \<open>WriteFile\<close> that fails
  in the middle leaves part of the content).
\<close>

datatype node = File string | Folder

type_synonym tree = "place \<Rightarrow> node option"

record host =
  h_tree :: tree
  h_calls :: nat
  h_out :: "string list"
  h_err :: "string list"

record disk =
  dk_mkdir :: "nat \<Rightarrow> (go_error \<times> nat) option"
  dk_write :: "nat \<Rightarrow> (go_error \<times> string option) option"
  dk_read :: "nat \<Rightarrow> go_error option"

definition healthy :: "disk \<Rightarrow> bool" where
  "healthy d \<longleftrightarrow> (\<forall>n. dk_mkdir d n = None \<and> dk_write d n = None \<and> dk_read d n = None)"

text \<open>The directory of a place, and a place with all directories above it, outermost first.\<close>

definition up :: "place \<Rightarrow> place" where
  "up l = (fst l, butlast (snd l))"

definition line :: "place \<Rightarrow> place list" where
  "line l = map (\<lambda>n. (fst l, take n (snd l))) [0..<Suc (length (snd l))]"

definition isFile :: "node option \<Rightarrow> bool" where
  "isFile v \<longleftrightarrow> (case v of Some (File _) \<Rightarrow> True | _ \<Rightarrow> False)"

definition mkFolder :: "place \<Rightarrow> tree \<Rightarrow> tree" where
  "mkFolder l t = (case t l of None \<Rightarrow> t(l \<mapsto> Folder) | Some _ \<Rightarrow> t)"

definition tick :: "host \<Rightarrow> host" where
  "tick h = h\<lparr>h_calls := Suc (h_calls h)\<rparr>"

text \<open>The directories above the first plain file are there already, so a blocked call makes none.\<close>

definition MkdirAll :: "disk \<Rightarrow> string \<Rightarrow> host \<Rightarrow> go_error option \<times> host" where
  "MkdirAll d p h =
     (let ls = line (place p) in
      case find (\<lambda>l. isFile (h_tree h l)) ls of
        Some l \<Rightarrow> (Some (ErrorString (''mkdir '' @ render l @ '': not a directory'')), tick h)
      | None \<Rightarrow>
          (case dk_mkdir d (h_calls h) of
             Some (err, n) \<Rightarrow> (Some err, tick h\<lparr>h_tree := fold mkFolder (take n ls) (h_tree h)\<rparr>)
           | None \<Rightarrow> (None, tick h\<lparr>h_tree := fold mkFolder ls (h_tree h)\<rparr>)))"

definition WriteFile :: "disk \<Rightarrow> string \<Rightarrow> string \<Rightarrow> host \<Rightarrow> go_error option \<times> host" where
  "WriteFile d p content h =
     (let l = place p in
      if h_tree h l = Some Folder then (Some (ErrorString (''open '' @ p @ '': is a directory'')), tick h)
      else if h_tree h (up l) \<noteq> Some Folder
        then (Some (ErrorString (''open '' @ p @ '': no such file or directory'')), tick h)
      else (case dk_write d (h_calls h) of
              Some (err, None) \<Rightarrow> (Some err, tick h)
            | Some (err, Some part) \<Rightarrow> (Some err, tick h\<lparr>h_tree := (h_tree h)(l \<mapsto> File part)\<rparr>)
            | None \<Rightarrow> (None, tick h\<lparr>h_tree := (h_tree h)(l \<mapsto> File content)\<rparr>)))"

definition ReadFile :: "disk \<Rightarrow> string \<Rightarrow> host \<Rightarrow> (go_error + string) \<times> host" where
  "ReadFile d p h =
     (case dk_read d (h_calls h) of
        Some err \<Rightarrow> (Inl err, tick h)
      | None \<Rightarrow>
          (case h_tree h (place p) of
             Some (File c) \<Rightarrow> (Inr c, tick h)
           | Some Folder \<Rightarrow> (Inl (ErrorString (''read '' @ p @ '': is a directory'')), tick h)
           | None \<Rightarrow> (Inl (ErrorString (''open '' @ p @ '': no such file or directory'')), tick h)))"

definition Println :: "string \<Rightarrow> host \<Rightarrow> host" where
  "Println s h = h\<lparr>h_out := h_out h @ [s]\<rparr>"

definition Eprintln :: "string \<Rightarrow> host \<Rightarrow> host" where
  "Eprintln s h = h\<lparr>h_err := h_err h @ [s]\<rparr>"

lemma host_simps [simp]:
  "h_tree (tick h) = h_tree h" "h_tree (Println s h) = h_tree h" "h_tree (Eprintln s h) = h_tree h"
  "h_out (tick h) = h_out h" "h_err (tick h) = h_err h"
  by (simp_all add: tick_def Println_def Eprintln_def)

section \<open>Trees\<close>

text \<open>The two starting points are directories, and whatever exists is in a directory.\<close>

definition tree_ok :: "tree \<Rightarrow> bool" where
  "tree_ok t \<longleftrightarrow> (\<forall>r. t (r, []) = Some Folder) \<and> (\<forall>l. t l \<noteq> None \<longrightarrow> t (up l) = Some Folder)"

lemma line_members: "l' \<in> set (line l) \<longleftrightarrow> (\<exists>n\<le>length (snd l). l' = (fst l, take n (snd l)))"
  by (auto simp: line_def less_Suc_eq_le simp del: upt_Suc)

lemma line_self [simp]: "l \<in> set (line l)"
  unfolding line_members by (intro exI [of _ "length (snd l)"]) simp

lemma line_prefix: "l' \<in> set (line l) \<longleftrightarrow> fst l' = fst l \<and> prefix (snd l') (snd l)"
proof
  assume "l' \<in> set (line l)"
  then show "fst l' = fst l \<and> prefix (snd l') (snd l)" by (auto simp: line_members take_is_prefix)
next
  assume "fst l' = fst l \<and> prefix (snd l') (snd l)"
  then obtain zs where "fst l' = fst l" "snd l = snd l' @ zs" by (auto simp: prefix_def)
  then show "l' \<in> set (line l)"
    unfolding line_members by (intro exI [of _ "length (snd l')"]) (simp add: prod_eq_iff)
qed

lemma line_up: "snd l \<noteq> [] \<Longrightarrow> up l \<in> set (line l)"
  by (simp add: line_prefix up_def prefixeq_butlast)

lemma fold_mkFolder:
  "fold mkFolder ls t l = (if l \<in> set ls \<and> t l = None then Some Folder else t l)"
  by (induction ls arbitrary: t) (auto simp: mkFolder_def split: option.split)

lemma tree_ok_up: "tree_ok t \<Longrightarrow> t l \<noteq> None \<Longrightarrow> t (up l) = Some Folder"
  unfolding tree_ok_def by blast

text \<open>Every proper directory above an existing place is a directory.\<close>

lemma tree_ok_above:
  assumes "tree_ok t" and "t (r, xs @ ys) \<noteq> None" and "ys \<noteq> []"
  shows "t (r, xs) = Some Folder"
  using assms(2,3)
proof (induction ys rule: rev_induct)
  case (snoc y ys)
  have "t (r, xs @ ys) = Some Folder"
    using tree_ok_up [OF assms(1) snoc.prems(1)] by (simp add: up_def butlast_append)
  then show ?case using snoc.IH by (cases "ys = []") auto
qed simp

lemma tree_ok_mkFolders:
  assumes "tree_ok t" and "\<And>l'. l' \<in> set (line l) \<Longrightarrow> \<not> isFile (t l')"
  shows "tree_ok (fold mkFolder (take n (line l)) t)"
proof -
  let ?ls = "take n (line l)"
  have mem: "l' \<in> set ?ls \<longleftrightarrow> (\<exists>m<min n (Suc (length (snd l))). l' = (fst l, take m (snd l)))" for l'
  proof -
    have "take n [0..<Suc (length (snd l))] = [0..<min n (Suc (length (snd l)))]"
      by (cases "n \<le> Suc (length (snd l))") (simp_all del: upt_Suc add: take_upt min_def)
    then have "?ls = map (\<lambda>m. (fst l, take m (snd l))) [0..<min n (Suc (length (snd l)))]"
      by (simp add: line_def take_map del: upt_Suc)
    then show ?thesis by auto
  qed
  have up_in: "up l' \<in> set ?ls" if "l' \<in> set ?ls" for l'
  proof -
    from that obtain m where m: "m < min n (Suc (length (snd l)))" "l' = (fst l, take m (snd l))"
      by (auto simp: mem)
    then have "up l' = (fst l, take (m - 1) (snd l))" by (simp add: up_def butlast_take)
    with m(1) show ?thesis unfolding mem by (intro exI [of _ "m - 1"]) auto
  qed
  have dir: "fold mkFolder ?ls t l' = Some Folder" if "l' \<in> set ?ls" for l'
  proof -
    have "\<not> isFile (t l')" using that assms(2) by (meson in_set_takeD)
    then show ?thesis using that by (auto simp: fold_mkFolder isFile_def split: option.splits node.splits)
  qed
  have "fold mkFolder ?ls t (up l') = Some Folder" if "fold mkFolder ?ls t l' \<noteq> None" for l'
  proof (cases "l' \<in> set ?ls")
    case True
    then show ?thesis using up_in dir by blast
  next
    case False
    then have "t l' \<noteq> None" using that by (simp add: fold_mkFolder)
    then show ?thesis using tree_ok_up [OF assms(1)] by (simp add: fold_mkFolder)
  qed
  then show ?thesis using assms(1) by (simp add: tree_ok_def fold_mkFolder)
qed

lemma tree_ok_file:
  assumes "tree_ok t" and "t l \<noteq> Some Folder" and "t (up l) = Some Folder"
  shows "tree_ok (t(l \<mapsto> File c))"
proof -
  let ?t = "t(l \<mapsto> File c)"
  have new: "?t l' = Some Folder" if "t l' = Some Folder" for l' using that assms(2) by auto
  have "?t (up l') = Some Folder" if "?t l' \<noteq> None" for l'
  proof (cases "l' = l")
    case True
    then show ?thesis using new assms(3) by blast
  next
    case False
    then have "t l' \<noteq> None" using that by simp
    then show ?thesis using new tree_ok_up [OF assms(1)] by blast
  qed
  moreover have "?t (r, []) = Some Folder" for r using new assms(1) by (simp add: tree_ok_def)
  ultimately show ?thesis unfolding tree_ok_def by blast
qed

theorem MkdirAll_tree_ok: "tree_ok (h_tree h) \<Longrightarrow> tree_ok (h_tree (snd (MkdirAll d p h)))"
proof -
  assume ok: "tree_ok (h_tree h)"
  show ?thesis
  proof (cases "find (\<lambda>l. isFile (h_tree h l)) (line (place p))")
    case None
    then have nf: "\<And>l'. l' \<in> set (line (place p)) \<Longrightarrow> \<not> isFile (h_tree h l')" by (simp add: find_None_all)
    have all: "tree_ok (fold mkFolder (line (place p)) (h_tree h))"
      using tree_ok_mkFolders [OF ok, of "place p" "length (line (place p))"] nf by simp
    show ?thesis
      using None all tree_ok_mkFolders [OF ok, of "place p"] nf by (simp add: MkdirAll_def Let_def split: option.split)
  qed (use ok in \<open>simp add: MkdirAll_def\<close>)
qed

theorem WriteFile_tree_ok: "tree_ok (h_tree h) \<Longrightarrow> tree_ok (h_tree (snd (WriteFile d p c h)))"
  by (simp add: WriteFile_def Let_def tree_ok_file split: option.split)

text \<open>What the operations may change, whatever fails.\<close>

definition untouched :: "place set \<Rightarrow> tree \<Rightarrow> tree \<Rightarrow> bool" where
  "untouched ls t t' \<longleftrightarrow> (\<forall>l. l \<notin> ls \<longrightarrow> t' l = t l \<or> t l = None \<and> t' l = Some Folder)"

lemma untouched_refl [simp]: "untouched ls t t"
  by (simp add: untouched_def)

lemma untouched_trans: "untouched ls t t' \<Longrightarrow> untouched ls t' t'' \<Longrightarrow> untouched ls t t''"
  unfolding untouched_def by metis

lemma untouched_mono: "untouched ls t t' \<Longrightarrow> ls \<subseteq> ls' \<Longrightarrow> untouched ls' t t'"
  unfolding untouched_def by blast

lemma untouchedD: "untouched ls t t' \<Longrightarrow> l \<notin> ls \<Longrightarrow> t l = Some v \<Longrightarrow> t' l = Some v"
  unfolding untouched_def by (metis option.distinct(1))

lemma MkdirAll_untouched: "untouched ls (h_tree h) (h_tree (snd (MkdirAll d p h)))"
  by (auto simp: untouched_def MkdirAll_def Let_def fold_mkFolder split: option.splits)

lemma WriteFile_untouched: "untouched {place p} (h_tree h) (h_tree (snd (WriteFile d p c h)))"
  by (auto simp: untouched_def WriteFile_def Let_def split: option.splits)

lemma ReadFile_tree [simp]: "h_tree (snd (ReadFile d p h)) = h_tree h"
  by (simp add: ReadFile_def split: option.split node.split)

lemma ReadFile_healthy:
  "healthy d \<Longrightarrow> fst (ReadFile d p h) = Inr c \<longleftrightarrow> h_tree h (place p) = Some (File c)"
  by (simp add: ReadFile_def healthy_def split: option.split node.split)

lemma MkdirAll_healthy:
  assumes "healthy d" and "\<And>l. l \<in> set (line (place p)) \<Longrightarrow> \<not> isFile (h_tree h l)"
  shows "MkdirAll d p h = (None, tick h\<lparr>h_tree := fold mkFolder (line (place p)) (h_tree h)\<rparr>)"
proof -
  have "find (\<lambda>l. isFile (h_tree h l)) (line (place p)) = None" using assms(2) by (simp add: find_None_all)
  then show ?thesis using assms(1) by (simp add: MkdirAll_def healthy_def)
qed

lemma WriteFile_healthy:
  "healthy d \<Longrightarrow> h_tree h (place p) \<noteq> Some Folder \<Longrightarrow> h_tree h (up (place p)) = Some Folder \<Longrightarrow>
     WriteFile d p c h = (None, tick h\<lparr>h_tree := (h_tree h)(place p \<mapsto> File c)\<rparr>)"
  by (simp add: WriteFile_def healthy_def)

end
