(* ===== verification/Flags.thy ===== *)
theory Flags
  imports Errors
begin

text \<open>
  What the commands use of Go's package \<open>flag\<close>: string and boolean flags of a \<open>FlagSet\<close> and
  its \<open>Parse\<close>. Several flag names may set one variable. \<open>quote\<close> is \<open>strconv.Quote\<close>. What
  \<open>Parse\<close> prints on standard error is left out.
\<close>

datatype flag_value = StringVal string | BoolVal bool

type_synonym flag_vars = "string \<Rightarrow> flag_value"

text \<open>The names of the flags with the variables they set.\<close>

type_synonym flag_names = "(string \<times> string) list"

definition ErrHelp :: go_error where
  "ErrHelp = ErrorString ''flag: help requested''"

definition ParseBool :: "string \<Rightarrow> bool option" where
  "ParseBool s =
     (if s \<in> set [''1'', ''t'', ''T'', ''true'', ''TRUE'', ''True''] then Some True
      else if s \<in> set [''0'', ''f'', ''F'', ''false'', ''FALSE'', ''False''] then Some False
      else None)"

text \<open>A flag argument is a name, with a value where it has an equals sign after its first character.\<close>

definition flagParts :: "string \<Rightarrow> string \<times> string option" where
  "flagParts s =
     (case dropWhile (\<lambda>c. c \<noteq> CHR ''='') s of
        [] \<Rightarrow> (s, None)
      | _ # v \<Rightarrow> (takeWhile (\<lambda>c. c \<noteq> CHR ''='') s, Some v))"

text \<open>The text after one or two dashes; None: this argument ends the flags.\<close>

definition flagText :: "string \<Rightarrow> string option" where
  "flagText s =
     (if length s < 2 \<or> hd s \<noteq> CHR ''-'' then None
      else if s ! 1 = CHR ''-'' then (if length s = 2 then None else Some (drop 2 s))
      else Some (drop 1 s))"

datatype flag_step = FlagsEnd "string list" | FlagBad go_error | FlagSet flag_vars "string list"

definition setFlag ::
    "(string \<Rightarrow> string) \<Rightarrow> flag_vars \<Rightarrow> string \<Rightarrow> string \<Rightarrow> string option \<Rightarrow> string list \<Rightarrow> flag_step" where
  "setFlag quote v x name val args =
     (case v x of
        BoolVal _ \<Rightarrow>
          (case val of
             None \<Rightarrow> FlagSet (v(x := BoolVal True)) args
           | Some t \<Rightarrow>
               (case ParseBool t of
                  None \<Rightarrow> FlagBad (ErrorString (''invalid boolean value '' @ quote t @ '' for -'' @ name @ '': parse error''))
                | Some b \<Rightarrow> FlagSet (v(x := BoolVal b)) args))
      | StringVal _ \<Rightarrow>
          (case val of
             Some t \<Rightarrow> FlagSet (v(x := StringVal t)) args
           | None \<Rightarrow>
               (case args of
                  [] \<Rightarrow> FlagBad (ErrorString (''flag needs an argument: -'' @ name))
                | t # rest \<Rightarrow> FlagSet (v(x := StringVal t)) rest)))"

definition parseOne ::
    "(string \<Rightarrow> string) \<Rightarrow> flag_names \<Rightarrow> flag_vars \<Rightarrow> string list \<Rightarrow> flag_step" where
  "parseOne quote F v args =
     (case args of
        [] \<Rightarrow> FlagsEnd []
      | s # rest \<Rightarrow>
          (case flagText s of
             None \<Rightarrow> FlagsEnd (if s = ''--'' then rest else args)
           | Some t \<Rightarrow>
               if t = '''' \<or> hd t = CHR ''-'' \<or> hd t = CHR ''='' then
                 FlagBad (ErrorString (''bad flag syntax: '' @ s))
               else (case map_of F (fst (flagParts t)) of
                       None \<Rightarrow>
                         FlagBad (if fst (flagParts t) = ''help'' \<or> fst (flagParts t) = ''h'' then ErrHelp
                                  else ErrorString (''flag provided but not defined: -'' @ fst (flagParts t)))
                     | Some x \<Rightarrow> setFlag quote v x (fst (flagParts t)) (snd (flagParts t)) rest)))"

lemma setFlag_shorter: "setFlag quote v x name val args = FlagSet v' rest \<Longrightarrow> length rest \<le> length args"
  by (auto simp: setFlag_def split: flag_value.splits option.splits list.splits)

lemma parseOne_shorter: "parseOne quote F v args = FlagSet v' rest \<Longrightarrow> length rest < length args"
  by (auto simp: parseOne_def dest: setFlag_shorter split: list.splits option.splits if_splits)

function parseFlags ::
    "(string \<Rightarrow> string) \<Rightarrow> flag_names \<Rightarrow> flag_vars \<Rightarrow> string list \<Rightarrow> go_error + flag_vars \<times> string list" where
  "parseFlags quote F v args =
     (case parseOne quote F v args of
        FlagsEnd rest \<Rightarrow> Inr (v, rest)
      | FlagBad err \<Rightarrow> Inl err
      | FlagSet v' rest \<Rightarrow> parseFlags quote F v' rest)"
  by pat_completeness auto
termination
  by (relation "measure (\<lambda>(quote, F, v, args). length args)") (simp_all add: parseOne_shorter)

declare parseFlags.simps [simp del]

text \<open>Reading a variable of the declared type.\<close>

definition stringVar :: "flag_vars \<Rightarrow> string \<Rightarrow> string" where
  "stringVar v x = (case v x of StringVal s \<Rightarrow> s | BoolVal _ \<Rightarrow> '''')"

definition boolVar :: "flag_vars \<Rightarrow> string \<Rightarrow> bool" where
  "boolVar v x = (case v x of BoolVal b \<Rightarrow> b | StringVal _ \<Rightarrow> False)"

definition isBool :: "flag_value \<Rightarrow> bool" where
  "isBool w = (case w of BoolVal _ \<Rightarrow> True | StringVal _ \<Rightarrow> False)"

lemma isBool_simps [simp]: "isBool (BoolVal b)" "\<not> isBool (StringVal s)"
  by (simp_all add: isBool_def)

text \<open>Parsing never changes the type of a variable.\<close>

lemma setFlag_types: "setFlag quote v x name val args = FlagSet v' rest \<Longrightarrow> isBool (v' y) = isBool (v y)"
  by (cases "v x") (auto simp: setFlag_def split: option.splits list.splits if_splits)

lemma parseOne_types: "parseOne quote F v args = FlagSet v' rest \<Longrightarrow> isBool (v' y) = isBool (v y)"
  by (auto simp: parseOne_def split: list.splits option.splits if_splits dest: setFlag_types)

lemma parseFlags_types: "parseFlags quote F v args = Inr (v', rest) \<Longrightarrow> isBool (v' x) = isBool (v x)"
proof (induction quote F v args rule: parseFlags.induct)
  case (1 quote F v args)
  show ?case
  proof (cases "parseOne quote F v args")
    case (FlagSet v1 rest1)
    with "1.prems" have "parseFlags quote F v1 rest1 = Inr (v', rest)"
      by (simp add: parseFlags.simps [of quote F v args])
    then show ?thesis using "1.IH" [OF FlagSet] parseOne_types [OF FlagSet] by simp
  qed (use "1.prems" in \<open>simp_all add: parseFlags.simps [of quote F v args]\<close>)
qed

end
