(* ===== verification/CliExport.thy ===== *)
theory CliExport
  imports Cli
begin

text \<open>
  Properties of \<open>gotchi migrations export\<close> and of the exit status of the tool: where the export writes,
  what it leaves alone, and that it is complete and can be repeated.
\<close>

section \<open>Exporting\<close>

text \<open>A relation between trees that every call respects is respected by the whole export.\<close>

definition respects_calls :: "cli_env \<Rightarrow> (tree \<Rightarrow> tree \<Rightarrow> bool) \<Rightarrow> bool" where
  "respects_calls E R \<longleftrightarrow> reflp R \<and> transp R \<and> (\<forall>p h. R (h_tree h) (h_tree (snd (MkdirAll (ce_disk E) p h))))"

lemma exportEntries_rel:
  assumes "reflp R" and "transp R"
    and "\<And>e h c. e \<in> set es \<Longrightarrow> R (h_tree h) (h_tree (fst (snd (exportEntry E force skip name fsys dir e h c))))"
  shows "R (h_tree h) (h_tree (fst (snd (exportEntries E force skip name fsys dir es h c))))"
  using assms(3)
proof (induction es arbitrary: h c)
  case Nil
  then show ?case using assms(1) by (simp add: reflpD)
next
  case (Cons e es)
  obtain r h1 c1 where e: "exportEntry E force skip name fsys dir e h c = (r, h1, c1)" by (cases "exportEntry E force skip name fsys dir e h c")
  then have 1: "R (h_tree h) (h_tree h1)" using Cons.prems [of e h c] by simp
  have "R (h_tree h1) (h_tree (fst (snd (exportEntries E force skip name fsys dir es h1 c1))))"
    using Cons by simp
  with 1 have "R (h_tree h) (h_tree (fst (snd (exportEntries E force skip name fsys dir es h1 c1))))"
    using transpD [OF assms(2)] by blast
  with 1 show ?case by (simp add: e split: option.split)
qed

lemma exportSources_rel:
  assumes R: "respects_calls E R"
    and step: "\<And>name fsys es e h c. (name, fsys) \<in> set srcs \<Longrightarrow> sf_ReadDir fsys ''.'' = Inr es \<Longrightarrow> e \<in> set es \<Longrightarrow>
      R (h_tree h) (h_tree (fst (snd (exportEntry E force skip name fsys (pathJoin [out, name]) e h c))))"
  shows "R (h_tree h) (h_tree (fst (snd (exportSources E force skip out srcs h c))))"
  using step
proof (induction srcs arbitrary: h c)
  case Nil
  then show ?case using R by (simp add: respects_calls_def reflpD)
next
  case (Cons src srcs)
  obtain name fsys where src: "src = (name, fsys)" by (cases src)
  have rt: "reflp R" "transp R" using R by (simp_all add: respects_calls_def)
  show ?case
  proof (cases "sf_ReadDir fsys ''.''")
    case (Inl err)
    then show ?thesis using rt(1) by (simp add: src reflpD)
  next
    case (Inr es)
    let ?dir = "pathJoin [out, name]"
    obtain r1 h1 where m: "MkdirAll (ce_disk E) ?dir h = (r1, h1)" by (cases "MkdirAll (ce_disk E) ?dir h")
    then have 1: "R (h_tree h) (h_tree h1)" using R by (metis respects_calls_def snd_conv)
    obtain r2 h2 c2 where x: "exportEntries E force skip name fsys ?dir es h1 c = (r2, h2, c2)"
      by (cases "exportEntries E force skip name fsys ?dir es h1 c")
    have "R (h_tree h1) (h_tree h2)"
      using exportEntries_rel [OF rt, of es E force skip name fsys ?dir h1 c] Cons.prems [of name fsys es] Inr
      by (simp add: src x)
    with 1 have 2: "R (h_tree h) (h_tree h2)" using transpD [OF rt(2)] by blast
    have "R (h_tree h2) (h_tree (fst (snd (exportSources E force skip out srcs h2 c2))))"
      using Cons by simp
    with 2 have "R (h_tree h) (h_tree (fst (snd (exportSources E force skip out srcs h2 c2))))"
      using transpD [OF rt(2)] by blast
    with 1 2 show ?thesis by (simp add: src Inr m x Let_def split: option.split)
  qed
qed

definition filesKept :: "tree \<Rightarrow> tree \<Rightarrow> bool" where
  "filesKept t t' \<longleftrightarrow> (\<forall>l c. t l = Some (File c) \<longrightarrow> t' l = Some (File c))"

definition foldersKept :: "tree \<Rightarrow> tree \<Rightarrow> bool" where
  "foldersKept t t' \<longleftrightarrow> (\<forall>l. t l = Some Folder \<longrightarrow> t' l = Some Folder)"

lemma respects_untouched: "respects_calls E (untouched ls)"
  unfolding respects_calls_def
  by (auto intro!: reflpI transpI intro: untouched_trans MkdirAll_untouched)

lemma respects_kept: "respects_calls E filesKept" "respects_calls E foldersKept"
  unfolding respects_calls_def filesKept_def foldersKept_def
  by (auto intro!: reflpI transpI simp: MkdirAll_def Let_def fold_mkFolder split: option.split)

lemma writeExport_untouched:
  "untouched {place p} (h_tree h) (h_tree (fst (snd (writeExport E p content h c))))"
  using WriteFile_untouched [of p h "ce_disk E" content]
  by (auto simp: writeExport_def split: prod.split option.split)

lemma exportEntry_untouched:
  assumes "plainPath (fst e)"
  shows "untouched {targetOf dir (fst e)} (h_tree h) (h_tree (fst (snd (exportEntry E force skip name fsys dir e h c))))"
proof -
  let ?p = "pathJoin [dir, fst e]"
  obtain r h1 where rd: "ReadFile (ce_disk E) ?p h = (r, h1)" by (cases "ReadFile (ce_disk E) ?p h")
  then have t: "h_tree h1 = h_tree h" using ReadFile_tree by (metis snd_conv)
  have w: "untouched {targetOf dir (fst e)} (h_tree h) (h_tree (fst (snd (writeExport E ?p x h1 c))))" for x
    using writeExport_untouched [of ?p h1 E x c] by (simp add: t place_target [OF assms])
  show ?thesis using w by (simp add: exportEntry_def Let_def rd t split: sum.split)
qed

lemma WriteFile_foldersKept: "foldersKept (h_tree h) (h_tree (snd (WriteFile d p c h)))"
  by (auto simp: foldersKept_def WriteFile_def Let_def split: option.split)

lemma exportEntry_foldersKept:
  "foldersKept (h_tree h) (h_tree (fst (snd (exportEntry E force skip name fsys dir e h c))))"
proof -
  let ?p = "pathJoin [dir, fst e]"
  obtain r h1 where rd: "ReadFile (ce_disk E) ?p h = (r, h1)" by (cases "ReadFile (ce_disk E) ?p h")
  then have t: "h_tree h1 = h_tree h" using ReadFile_tree by (metis snd_conv)
  have r: "foldersKept (h_tree h) (h_tree h)" by (simp add: foldersKept_def)
  have w: "foldersKept (h_tree h) (h_tree (fst (snd (writeExport E ?p x h1 c))))" for x
    using WriteFile_foldersKept [of h1 "ce_disk E" ?p x] t
    by (auto simp: writeExport_def split: prod.split option.split)
  show ?thesis using w r by (simp add: exportEntry_def Let_def rd t split: sum.split)
qed

text \<open>Without \<open>--force\<close>, and as long as reading works, an existing file keeps its content.\<close>

lemma exportEntry_filesKept:
  assumes "\<And>n. dk_read (ce_disk E) n = None" and "\<not> force"
  shows "filesKept (h_tree h) (h_tree (fst (snd (exportEntry E force skip name fsys dir e h c))))"
proof -
  let ?p = "pathJoin [dir, fst e]"
  obtain r h1 where rd: "ReadFile (ce_disk E) ?p h = (r, h1)" by (cases "ReadFile (ce_disk E) ?p h")
  then have t: "h_tree h1 = h_tree h" using ReadFile_tree by (metis snd_conv)
  have k: "filesKept (h_tree h) (h_tree h)" by (simp add: filesKept_def)
  have w: "filesKept (h_tree h) (h_tree (fst (snd (writeExport E ?p x h1 c))))" if "r = Inl err" for x err
  proof -
    have no: "h_tree h (place ?p) \<noteq> Some (File y)" for y
      using rd that assms(1) by (auto simp: ReadFile_def)
    have "untouched {place ?p} (h_tree h) (h_tree (fst (snd (writeExport E ?p x h1 c))))"
      using writeExport_untouched [of ?p h1 E x c] t by simp
    then show ?thesis unfolding filesKept_def using no untouchedD by (metis singletonD)
  qed
  show ?thesis using w k assms(2) by (cases r) (simp_all add: exportEntry_def Let_def rd t split: sum.split)
qed
definition exportTargets :: "string \<Rightarrow> place set" where
  "exportTargets out =
     {targetOf (pathJoin [out, name]) n | name n. n \<in> set (embeddedNames name)}"

lemma embeddedNames_ordinary: "n \<in> set (embeddedNames dir) \<Longrightarrow> ordinary n"
proof -
  have "\<forall>n\<in>set (embeddedNames ''core'' @ embeddedNames ''auth'' @ embeddedNames ''password''). ordinary n"
    by code_simp
  then show "n \<in> set (embeddedNames dir) \<Longrightarrow> ordinary n"
    by (cases "dir = ''core'' \<or> dir = ''auth'' \<or> dir = ''password''") (auto simp: embeddedNames_def)
qed

lemma ordinary_plain: "ordinary n \<Longrightarrow> plainPath n \<and> splitOn slash n = [n]"
  by (simp add: plainPath_def ordinary_def splitOn_no_sep)

lemma exportedSources_listing:
  "(name, fsys) \<in> set (exportedSources E component) \<Longrightarrow>
     (name = ''core'' \<or> name = ''auth'') \<and> fsys = subFS (ce_content E) name \<and>
     sf_ReadDir fsys ''.'' = Inr (map (\<lambda>n. (n, False)) (embeddedNames name))"
  by (auto simp: exportedSources_def Core_def Auth_def subFS_def split: if_splits)

lemma runMigrationsExport_tree:
  assumes "R (h_tree h) (h_tree h)"
    and "\<And>v rest. parseFlags (ce_quote E) exportFlags exportDefaults args = Inr (v, rest) \<Longrightarrow>
      R (h_tree h) (h_tree (fst (snd (exportSources E (boolVar v ''force'') (boolVar v ''skip'') (stringVar v ''output'')
         (exportedSources E (stringVar v ''component'')) h noCounts))))"
  shows "R (h_tree h) (h_tree (snd (runMigrationsExport E args h)))"
proof (cases "parseFlags (ce_quote E) exportFlags exportDefaults args")
  case (Inl err)
  with assms(1) show ?thesis by (simp add: runMigrationsExport_def)
next
  case (Inr r)
  obtain v rest where r: "r = (v, rest)" by (cases r)
  obtain e h1 c where x: "exportSources E (boolVar v ''force'') (boolVar v ''skip'') (stringVar v ''output'')
      (exportedSources E (stringVar v ''component'')) h noCounts = (e, h1, c)" by (rule prod_cases3)
  have "R (h_tree h) (h_tree h1)" using assms(2) [of v rest] Inr by (simp add: r x)
  with assms(1) show ?thesis
    by (simp add: runMigrationsExport_def Inr r x Let_def split: option.split)
qed

lemma exportSources_untouched:
  "untouched (exportTargets out) (h_tree h)
     (h_tree (fst (snd (exportSources E force skip out (exportedSources E component) h c))))"
proof (rule exportSources_rel [OF respects_untouched])
  fix name fsys es e h and c :: counters
  assume src: "(name, fsys) \<in> set (exportedSources E component)"
    and es: "sf_ReadDir fsys ''.'' = Inr es" and e: "e \<in> set es"
  have n: "fst e \<in> set (embeddedNames name)" using exportedSources_listing [OF src] es e by auto
  then have "targetOf (pathJoin [out, name]) (fst e) \<in> exportTargets out" unfolding exportTargets_def by blast
  then show "untouched (exportTargets out) (h_tree h)
      (h_tree (fst (snd (exportEntry E force skip name fsys (pathJoin [out, name]) e h c))))"
    using ordinary_plain [OF embeddedNames_ordinary [OF n]]
    by (intro untouched_mono [OF exportEntry_untouched]) simp_all
qed

lemma exportSources_filesKept:
  assumes "\<And>n. dk_read (ce_disk E) n = None" and "\<not> force"
  shows "filesKept (h_tree h) (h_tree (fst (snd (exportSources E force skip out srcs h c))))"
  by (rule exportSources_rel [OF respects_kept(1)]) (rule exportEntry_filesKept [OF assms])

text \<open>
  C34 Exporting the embedded migrations writes only at the places of the exported files below the output
  directory and adds directories, whatever calls fail; and without \<open>--force\<close>, as long as files can be read,
  no existing file changes, wherever it is.
\<close>

theorem export_keeps_files:
  assumes "parseFlags (ce_quote E) exportFlags exportDefaults args = Inr (v, rest)"
  shows "untouched (exportTargets (stringVar v ''output'')) (h_tree h) (h_tree (snd (runMigrationsExport E args h))) \<and>
    (\<not> boolVar v ''force'' \<and> (\<forall>n. dk_read (ce_disk E) n = None) \<longrightarrow>
       (\<forall>l c. h_tree h l = Some (File c) \<longrightarrow> h_tree (snd (runMigrationsExport E args h)) l = Some (File c)))"
proof (intro conjI impI)
  show "untouched (exportTargets (stringVar v ''output'')) (h_tree h) (h_tree (snd (runMigrationsExport E args h)))"
    by (rule runMigrationsExport_tree) (simp_all add: assms exportSources_untouched)
next
  assume nf: "\<not> boolVar v ''force'' \<and> (\<forall>n. dk_read (ce_disk E) n = None)"
  have "filesKept (h_tree h) (h_tree (snd (runMigrationsExport E args h)))"
    by (rule runMigrationsExport_tree) (use nf in \<open>auto simp: assms exportSources_filesKept filesKept_def [of t t for t]\<close>)
  then show "\<forall>l c. h_tree h l = Some (File c) \<longrightarrow> h_tree (snd (runMigrationsExport E args h)) l = Some (File c)"
    by (simp add: filesKept_def)
qed

lemma parse_no_flags: "parseFlags q exportFlags exportDefaults [] = Inr (exportDefaults, [])"
  by (simp add: parseFlags.simps parseOne_def)

lemma exportDefaults_simps [simp]:
  "boolVar exportDefaults ''force'' = False" "boolVar exportDefaults ''skip'' = False"
  "stringVar exportDefaults ''output'' = ''migrations/gotchi''" "stringVar exportDefaults ''component'' = ''all''"
  by (simp_all add: boolVar_def stringVar_def exportDefaults_def)

definition mine :: place where
  "mine = (False, [''migrations'', ''gotchi'', ''core'', ''20260221160000_core.sql''])"

definition occupiedHost :: host where
  "occupiedHost = emptyHost\<lparr>h_tree := emptyTree(mine \<mapsto> File ''mine'')\<rparr>"

text \<open>A file of one's own at a place of the export survives it.\<close>

theorem export_keeps_files_witness:
  "h_tree (snd (runMigrationsExport sampleCli [] occupiedHost)) mine = Some (File ''mine'')"
proof -
  have "h_tree occupiedHost mine = Some (File ''mine'')" by (simp add: occupiedHost_def)
  moreover have "\<forall>n. dk_read (ce_disk sampleCli) n = None" by (simp add: sampleDisk_def)
  ultimately show ?thesis
    using export_keeps_files [OF parse_no_flags, where E = sampleCli and h = occupiedHost] exportDefaults_simps(1) by blast
qed

text \<open>A file is exported when a file with the hash of its content is at its place.\<close>

definition exportedAt :: "cli_env \<Rightarrow> tree \<Rightarrow> place \<Rightarrow> string \<Rightarrow> bool" where
  "exportedAt E t l content \<longleftrightarrow> (\<exists>c. t l = Some (File c) \<and> ce_sha256 E c = ce_sha256 E content)"

lemma exportedAt_untouched:
  "exportedAt E t l x \<Longrightarrow> untouched ls t t' \<Longrightarrow> l \<notin> ls \<Longrightarrow> exportedAt E t' l x"
  unfolding exportedAt_def using untouchedD by metis

lemma exportEntry_exported:
  assumes "exportEntry E force False name fsys dir (n, False) h c = (None, h', c')"
    and "sf_ReadFile fsys n = Inr x" and "plainPath n"
  shows "exportedAt E (h_tree h') (targetOf dir n) x"
proof -
  let ?p = "pathJoin [dir, n]"
  obtain r h1 where rd: "ReadFile (ce_disk E) ?p h = (r, h1)" by (cases "ReadFile (ce_disk E) ?p h")
  have w: "exportedAt E (h_tree h') (targetOf dir n) x" if "writeExport E ?p x h1 c = (None, h', c')"
    using that WriteFile_ok [of "ce_disk E" ?p x h1] place_target [OF assms(3), of dir]
    by (auto simp: writeExport_def exportedAt_def split: prod.splits option.splits)
  show ?thesis
  proof (cases r)
    case (Inl err)
    then show ?thesis using assms(1,2) w by (simp add: exportEntry_def rd Let_def)
  next
    case (Inr old)
    then have "h_tree h (place ?p) = Some (File old)" "h_tree h1 = h_tree h"
      using rd by (auto simp: ReadFile_def split: option.splits node.splits)
    then have "h_tree h1 (targetOf dir n) = Some (File old)" using place_target [OF assms(3)] by metis
    then show ?thesis
      using assms(1,2) w by (auto simp: exportEntry_def rd Inr Let_def exportedAt_def split: if_splits)
  qed
qed

lemma exportEntry_again:
  assumes "healthy (ce_disk E)" and "exportedAt E (h_tree h) (targetOf dir n) x"
    and "sf_ReadFile fsys n = Inr x" and "plainPath n"
  shows "exportEntry E force skip name fsys dir (n, False) h c =
    (None, tick h, c\<lparr>ct_unchanged := Suc (ct_unchanged c)\<rparr>)"
proof -
  obtain y where y: "h_tree h (place (pathJoin [dir, n])) = Some (File y)" "ce_sha256 E y = ce_sha256 E x"
    using assms(2) by (auto simp: exportedAt_def place_target [OF assms(4)])
  show ?thesis
    using ReadFile_file [OF assms(1) y(1)] y(2) assms(3) by (simp add: exportEntry_def Let_def)
qed

definition plainEntries :: "string list \<Rightarrow> (string \<times> bool) list" where
  "plainEntries ns = map (\<lambda>n. (n, False)) ns"

lemma plainEntries_simps [simp]:
  "plainEntries [] = []" "plainEntries (n # ns) = (n, False) # plainEntries ns" "fst ` set (plainEntries ns) = set ns"
  by (simp_all add: plainEntries_def image_image)

lemma exportEntries_untouched:
  assumes "\<forall>n\<in>set ns. ordinary n"
  shows "untouched (targetOf dir ` set ns) (h_tree h)
    (h_tree (fst (snd (exportEntries E force skip name fsys dir (plainEntries ns) h c))))"
proof (rule exportEntries_rel)
  show "reflp (untouched (targetOf dir ` set ns))" "transp (untouched (targetOf dir ` set ns))"
    using respects_untouched by (simp_all add: respects_calls_def)
  fix e h and c :: counters
  assume "e \<in> set (plainEntries ns)"
  then have "fst e \<in> set ns" by (metis plainEntries_simps(3) imageI)
  then show "untouched (targetOf dir ` set ns) (h_tree h) (h_tree (fst (snd (exportEntry E force skip name fsys dir e h c))))"
    using assms ordinary_plain by (intro untouched_mono [OF exportEntry_untouched]) auto
qed

lemma targetOf_ordinary: "ordinary n \<Longrightarrow> targetOf dir n = (fst (place dir), snd (place dir) @ [n])"
  by (simp add: targetOf_def ordinary_plain)

lemma exportEntries_exported:
  assumes "\<forall>n\<in>set ns. ordinary n" and "distinct ns" and "\<forall>n\<in>set ns. sf_ReadFile fsys n = Inr (x n)"
    and "exportEntries E force False name fsys dir (plainEntries ns) h c = (None, h', c')" and "n \<in> set ns"
  shows "exportedAt E (h_tree h') (targetOf dir n) (x n)"
  using assms
proof (induction ns arbitrary: h c)
  case (Cons m ns)
  obtain r h1 c1 where e: "exportEntry E force False name fsys dir (m, False) h c = (r, h1, c1)" by (rule prod_cases3)
  with Cons.prems(4) have r: "r = None" and
    rest: "exportEntries E force False name fsys dir (plainEntries ns) h1 c1 = (None, h', c')"
    by (auto split: option.splits)
  show ?case
  proof (cases "n = m")
    case True
    have "exportedAt E (h_tree h1) (targetOf dir m) (x m)"
      using exportEntry_exported e r Cons.prems(1,3) ordinary_plain by (metis list.set_intros(1))
    moreover have "targetOf dir m \<notin> targetOf dir ` set ns"
      using Cons.prems(1,2) by (auto simp: targetOf_ordinary)
    moreover have "untouched (targetOf dir ` set ns) (h_tree h1) (h_tree h')"
      using exportEntries_untouched [of ns dir h1 E force False name fsys c1] Cons.prems(1) rest by simp
    ultimately show ?thesis using True exportedAt_untouched by metis
  next
    case False
    then show ?thesis using Cons.IH [OF _ _ _ rest] Cons.prems by simp
  qed
qed simp

lemma exportEntries_again:
  assumes "healthy (ce_disk E)" and "\<forall>n\<in>set ns. ordinary n \<and> sf_ReadFile fsys n = Inr (x n) \<and>
      exportedAt E (h_tree h) (targetOf dir n) (x n)"
  shows "\<exists>h'. exportEntries E force skip name fsys dir (plainEntries ns) h c =
      (None, h', c\<lparr>ct_unchanged := ct_unchanged c + length ns\<rparr>) \<and> h_tree h' = h_tree h"
  using assms(2)
proof (induction ns arbitrary: h c)
  case (Cons n ns)
  have e: "exportEntry E force skip name fsys dir (n, False) h c =
      (None, tick h, c\<lparr>ct_unchanged := Suc (ct_unchanged c)\<rparr>)"
    by (rule exportEntry_again [OF assms(1)]) (use Cons.prems ordinary_plain in auto)
  show ?case using Cons.IH [of "tick h" "c\<lparr>ct_unchanged := Suc (ct_unchanged c)\<rparr>"] Cons.prems by (simp add: e)
qed simp

definition exportNames :: "string \<Rightarrow> string list" where
  "exportNames component =
     (if component = ''all'' \<or> component = ''core'' then [''core''] else []) @
     (if component = ''all'' \<or> component = ''auth'' then [''auth''] else [])"

definition embeddedSource :: "cli_env \<Rightarrow> string \<Rightarrow> string \<times> source_fs" where
  "embeddedSource E name = (name, subFS (ce_content E) name)"

lemma exportedSources_names: "exportedSources E component = map (embeddedSource E) (exportNames component)"
  by (simp add: exportedSources_def exportNames_def embeddedSource_def Core_def Auth_def)

lemma exportNames_facts: "distinct (exportNames component)" "name \<in> set (exportNames component) \<Longrightarrow> ordinary name"
proof -
  have "ordinary ''core''" "ordinary ''auth''" by code_simp+
  then show "name \<in> set (exportNames component) \<Longrightarrow> ordinary name"
    by (auto simp: exportNames_def split: if_splits)
qed (simp add: exportNames_def)

lemma subFS_simps:
  "sf_ReadDir (subFS content name) ''.'' = Inr (plainEntries (embeddedNames name))"
  "n \<in> set (embeddedNames name) \<Longrightarrow> sf_ReadFile (subFS content name) n = Inr (content name n)"
  by (simp_all add: subFS_def plainEntries_def)

lemma embeddedNames_distinct: "distinct (embeddedNames name)"
  by (simp add: embeddedNames_def)

text \<open>What a finished export has left in the tree for a component.\<close>

definition exportedDir :: "cli_env \<Rightarrow> string \<Rightarrow> tree \<Rightarrow> string \<Rightarrow> bool" where
  "exportedDir E out t name \<longleftrightarrow>
     (\<forall>l\<in>set (line (place (pathJoin [out, name]))). t l = Some Folder) \<and>
     (\<forall>n\<in>set (embeddedNames name). exportedAt E t (targetOf (pathJoin [out, name]) n) (ce_content E name n))"

lemma place_export: "ordinary name \<Longrightarrow> place (pathJoin [out, name]) = (fst (place out), snd (place out) @ [name])"
  by (simp add: place_target ordinary_plain targetOf_def)

lemma exportedDir_later:
  assumes "exportedDir E out t name" and "foldersKept t t'"
    and "untouched {targetOf (pathJoin [out, name']) n | name' n. name' \<in> set names \<and> n \<in> set (embeddedNames name')} t t'"
    and "ordinary name" and "\<forall>name'\<in>set names. ordinary name' \<and> name' \<noteq> name"
  shows "exportedDir E out t' name"
proof -
  let ?L = "{targetOf (pathJoin [out, name']) n | name' n. name' \<in> set names \<and> n \<in> set (embeddedNames name')}"
  have "targetOf (pathJoin [out, name]) n \<notin> ?L" if "n \<in> set (embeddedNames name)" for n
    using assms(4,5) that embeddedNames_ordinary by (auto simp: targetOf_ordinary place_export)
  then show ?thesis
    using assms(1,2) exportedAt_untouched [OF _ assms(3)] unfolding exportedDir_def foldersKept_def by blast
qed

lemma MkdirAll_ok:
  assumes "MkdirAll d p h = (None, h')" and "l \<in> set (line (place p))"
  shows "h_tree h' l = Some Folder"
proof -
  from assms(1) have "find (\<lambda>l. isFile (h_tree h l)) (line (place p)) = None"
    and t: "h_tree h' = fold mkFolder (line (place p)) (h_tree h)"
    by (auto simp: MkdirAll_def Let_def split: option.splits)
  then have "\<not> isFile (h_tree h l)" using assms(2) by (simp add: find_None_all)
  then show ?thesis using assms(2) by (auto simp: t fold_mkFolder isFile_def split: option.splits node.splits)
qed

lemma exportSources_names_untouched:
  "untouched {targetOf (pathJoin [out, name']) n | name' n. name' \<in> set names \<and> n \<in> set (embeddedNames name')}
     (h_tree h) (h_tree (fst (snd (exportSources E force skip out (map (embeddedSource E) names) h c))))"
proof (rule exportSources_rel [OF respects_untouched])
  let ?L = "{targetOf (pathJoin [out, name']) n | name' n. name' \<in> set names \<and> n \<in> set (embeddedNames name')}"
  fix name fsys es e h and c :: counters
  assume "(name, fsys) \<in> set (map (embeddedSource E) names)" and es: "sf_ReadDir fsys ''.'' = Inr es" and e: "e \<in> set es"
  then have name: "name \<in> set names" "fsys = subFS (ce_content E) name" by (auto simp: embeddedSource_def)
  then have n: "fst e \<in> set (embeddedNames name)" using es e subFS_simps(1) plainEntries_simps(3) by (metis imageI sum.inject(2))
  then have "targetOf (pathJoin [out, name]) (fst e) \<in> ?L" using name by blast
  then show "untouched ?L (h_tree h) (h_tree (fst (snd (exportEntry E force skip name fsys (pathJoin [out, name]) e h c))))"
    using ordinary_plain [OF embeddedNames_ordinary [OF n]] by (intro untouched_mono [OF exportEntry_untouched]) simp_all
qed

lemma exportSources_exported:
  assumes "distinct names" and "\<forall>name\<in>set names. ordinary name"
    and "exportSources E force False out (map (embeddedSource E) names) h c = (None, h', c')" and "name \<in> set names"
  shows "exportedDir E out (h_tree h') name"
  using assms
proof (induction names arbitrary: h c)
  case (Cons m names)
  let ?dir = "pathJoin [out, m]"
  let ?fs = "subFS (ce_content E) m"
  obtain r1 h1 where mk: "MkdirAll (ce_disk E) ?dir h = (r1, h1)" by (cases "MkdirAll (ce_disk E) ?dir h")
  obtain r2 h2 c2 where x: "exportEntries E force False m ?fs ?dir (plainEntries (embeddedNames m)) h1 c = (r2, h2, c2)"
    by (rule prod_cases3)
  have em: "map (embeddedSource E) (m # names) = (m, ?fs) # map (embeddedSource E) names"
    by (simp add: embeddedSource_def [of E m])
  from Cons.prems(3) [unfolded em] have r: "r1 = None" "r2 = None"
    and rest: "exportSources E force False out (map (embeddedSource E) names) h2 c2 = (None, h', c')"
    by (auto simp: subFS_simps mk x Let_def split: option.splits)
  show ?case
  proof (cases "name = m")
    case True
    have o: "\<forall>n\<in>set (embeddedNames m). ordinary n" using embeddedNames_ordinary by blast
    have rd: "\<forall>n\<in>set (embeddedNames m). sf_ReadFile ?fs n = Inr (ce_content E m n)" using subFS_simps(2) by blast
    have "foldersKept (h_tree h1) (h_tree h2)"
      using exportEntries_rel [of foldersKept "plainEntries (embeddedNames m)" E force False m ?fs ?dir h1 c]
        respects_kept(2) exportEntry_foldersKept by (simp add: respects_calls_def x)
    then have "\<forall>l\<in>set (line (place ?dir)). h_tree h2 l = Some Folder"
      using MkdirAll_ok mk r(1) by (metis foldersKept_def)
    then have d: "exportedDir E out (h_tree h2) m"
      using exportEntries_exported [OF o embeddedNames_distinct rd] x r(2) by (simp add: exportedDir_def)
    have "foldersKept (h_tree h2) (h_tree h')"
      using exportSources_rel [OF respects_kept(2), of "map (embeddedSource E) names" E force False out h2 c2]
        exportEntry_foldersKept rest by simp
    then show ?thesis
      using exportedDir_later [OF d _ exportSources_names_untouched [of out names h2 E force False c2, unfolded rest, simplified]]
        True Cons.prems(1,2) by auto
  next
    case False
    then show ?thesis using Cons.IH [OF _ _ rest] Cons.prems by simp
  qed
qed simp

lemma MkdirAll_again:
  assumes "healthy d" and "\<forall>l\<in>set (line (place p)). h_tree h l = Some Folder"
  shows "MkdirAll d p h = (None, tick h)"
proof -
  have "fold mkFolder (line (place p)) (h_tree h) = h_tree h"
    using assms(2) by (auto simp: fold_mkFolder fun_eq_iff)
  moreover have "\<not> isFile (h_tree h l)" if "l \<in> set (line (place p))" for l
    using assms(2) that by (simp add: isFile_def)
  ultimately show ?thesis using MkdirAll_healthy [OF assms(1), of p h] by (simp add: tick_def)
qed

lemma exportSources_again:
  assumes "healthy (ce_disk E)" and "\<forall>name\<in>set names. exportedDir E out (h_tree h) name"
  shows "\<exists>h'. exportSources E force skip out (map (embeddedSource E) names) h c =
      (None, h', c\<lparr>ct_unchanged := ct_unchanged c + length (concat (map embeddedNames names))\<rparr>) \<and> h_tree h' = h_tree h"
  using assms(2)
proof (induction names arbitrary: h c)
  case (Cons m names)
  let ?dir = "pathJoin [out, m]"
  let ?fs = "subFS (ce_content E) m"
  have em: "map (embeddedSource E) (m # names) = (m, ?fs) # map (embeddedSource E) names"
    by (simp add: embeddedSource_def [of E m])
  have d: "exportedDir E out (h_tree h) m" using Cons.prems by simp
  have mk: "MkdirAll (ce_disk E) ?dir h = (None, tick h)"
    using MkdirAll_again [OF assms(1)] d by (simp add: exportedDir_def)
  have "\<forall>n\<in>set (embeddedNames m). ordinary n \<and> sf_ReadFile ?fs n = Inr (ce_content E m n) \<and>
      exportedAt E (h_tree (tick h)) (targetOf ?dir n) (ce_content E m n)"
    using d embeddedNames_ordinary subFS_simps(2) by (simp add: exportedDir_def)
  from exportEntries_again [OF assms(1) this, where force = force and skip = skip and name = m and c = c]
  obtain h1 where
    x: "exportEntries E force skip m ?fs ?dir (plainEntries (embeddedNames m)) (tick h) c =
      (None, h1, c\<lparr>ct_unchanged := ct_unchanged c + length (embeddedNames m)\<rparr>)" and t: "h_tree h1 = h_tree h"
    by auto
  let ?c = "c\<lparr>ct_unchanged := ct_unchanged c + length (embeddedNames m)\<rparr>"
  obtain h' where "exportSources E force skip out (map (embeddedSource E) names) h1 ?c =
      (None, h', ?c\<lparr>ct_unchanged := ct_unchanged ?c + length (concat (map embeddedNames names))\<rparr>)" "h_tree h' = h_tree h1"
    using Cons.IH [of h1 ?c] Cons.prems t by auto
  then show ?case unfolding em by (simp add: subFS_simps mk x t Let_def add.assoc)
qed simp

definition exportedLine :: "string \<Rightarrow> string" where
  "exportedLine component =
     exportSummary (noCounts\<lparr>ct_unchanged := length (concat (map embeddedNames (exportNames component)))\<rparr>)"

text \<open>
  C35 An export without \<open>--skip\<close> that ends without error has put every migration of the chosen
  components in its place below the output directory: a file with the hash of the embedded content. A
  second export over it, with any use of the flags \<open>--force\<close> and \<open>--skip\<close>, succeeds, changes nothing,
  and reports all of them as unchanged.
\<close>

theorem export_complete_and_idempotent:
  assumes "runMigrationsExport E args h = (None, h1)"
    and "parseFlags (ce_quote E) exportFlags exportDefaults args = Inr (v, rest)" and "\<not> boolVar v ''skip''"
    and "parseFlags (ce_quote E) exportFlags exportDefaults args' = Inr (v', rest')"
    and "stringVar v' ''output'' = stringVar v ''output''" and "stringVar v' ''component'' = stringVar v ''component''"
    and "\<not> (boolVar v' ''force'' \<and> boolVar v' ''skip'')" and "healthy (ce_disk E)"
  shows "(\<forall>name\<in>set (exportNames (stringVar v ''component'')). exportedDir E (stringVar v ''output'') (h_tree h1) name) \<and>
    (\<exists>h2. runMigrationsExport E args' h1 = (None, h2) \<and> h_tree h2 = h_tree h1 \<and>
       last (h_out h2) = exportedLine (stringVar v ''component''))"
proof -
  let ?out = "stringVar v ''output''"
  let ?comp = "stringVar v ''component''"
  let ?srcs = "map (embeddedSource E) (exportNames ?comp)"
  obtain r h0 c where x: "exportSources E (boolVar v ''force'') False ?out ?srcs h noCounts = (r, h0, c)"
    by (rule prod_cases3)
  from assms(1-3) have comp: "?comp \<in> set [''core'', ''auth'', ''all'']" and r: "r = None" and h1: "h_tree h1 = h_tree h0"
    by (auto simp: runMigrationsExport_def exportedSources_names x Let_def split: if_splits option.splits)
  have exported: "\<forall>name\<in>set (exportNames ?comp). exportedDir E ?out (h_tree h1) name"
    using exportSources_exported [OF exportNames_facts(1) _ x [unfolded r]] exportNames_facts(2) by (simp add: h1)
  obtain h2 where again: "exportSources E (boolVar v' ''force'') (boolVar v' ''skip'') ?out ?srcs h1 noCounts =
      (None, h2, noCounts\<lparr>ct_unchanged := length (concat (map embeddedNames (exportNames ?comp)))\<rparr>)" "h_tree h2 = h_tree h1"
    using exportSources_again [OF assms(8) exported, of "boolVar v' ''force''" "boolVar v' ''skip''" noCounts]
    by (auto simp: noCounts_def)
  have "runMigrationsExport E args' h1 = (None, Println (exportedLine ?comp) h2)"
    using assms(7) comp
    by (simp add: runMigrationsExport_def assms(4,5,6) exportedSources_names again(1) exportedLine_def Let_def)
  then show ?thesis using exported again(2) by (simp add: Println_def)
qed

theorem export_complete_and_idempotent_witness:
  "\<exists>h1 h2. runMigrationsExport sampleCli [] emptyHost = (None, h1) \<and>
     exportedDir sampleCli ''migrations/gotchi'' (h_tree h1) ''auth'' \<and>
     runMigrationsExport sampleCli [] h1 = (None, h2) \<and> h_tree h2 = h_tree h1 \<and>
     last (h_out h2) = ''migrations export complete: 0 copied, 0 skipped, 4 unchanged''"
proof -
  have "fst (runMigrationsExport sampleCli [] emptyHost) = None" by code_simp
  then obtain h1 where h1: "runMigrationsExport sampleCli [] emptyHost = (None, h1)" by (metis prod.collapse)
  have s: "\<not> boolVar exportDefaults ''skip''" "healthy (ce_disk sampleCli)"
    by (simp_all add: healthy_sample)
  have p: "parseFlags (ce_quote sampleCli) exportFlags exportDefaults [] = Inr (exportDefaults, [])"
    by (rule parse_no_flags)
  have "exportedLine ''all'' = ''migrations export complete: 0 copied, 0 skipped, 4 unchanged''" by code_simp
  moreover have "''auth'' \<in> set (exportNames ''all'')" by (simp add: exportNames_def)
  ultimately show ?thesis
    using export_complete_and_idempotent [OF h1 p s(1) p refl refl _ s(2)] h1 exportDefaults_simps by auto
qed

text \<open>
  An existing file that cannot be read is taken for one that does not exist, and is overwritten without
  \<open>--force\<close>.
\<close>

definition blindCli :: cli_env where
  "blindCli = sampleCli\<lparr>ce_disk := sampleDisk\<lparr>dk_read := (\<lambda>n. Some (ErrorString ''permission denied''))\<rparr>\<rparr>"

theorem export_overwrites_unreadable:
  "fst (runMigrationsExport blindCli [] occupiedHost) = None \<and>
   h_tree (snd (runMigrationsExport blindCli [] occupiedHost)) mine = Some (File ''core20260221160000_core.sql'')"
  by (rule conjI; code_simp)

text \<open>The migrations of password authentication are not exported by any choice of components.\<close>

lemma password_not_exported: "''password'' \<notin> set (exportNames component)"
  by (simp add: exportNames_def)

section \<open>Exit status\<close>

lemma fold_Println_err [simp]: "h_err (fold Println ss h) = h_err h"
  by (induction ss arbitrary: h) (simp_all add: Println_def)

text \<open>Status 1 comes with the error on standard error, and status 2 is for a call without a command.\<close>

theorem cliMain_status:
  "(fst (cliMain E osArgs h) = 2 \<longleftrightarrow> length osArgs < 2) \<and>
   (fst (cliMain E osArgs h) = 1 \<longrightarrow> (\<exists>err. last (h_err (snd (cliMain E osArgs h))) = ''error: '' @ errorText err)) \<and>
   fst (cliMain E osArgs h) \<le> 2"
proof -
  obtain r h' where "runCommand E (osArgs ! 1) (drop 2 osArgs) h = (r, h')"
    by (cases "runCommand E (osArgs ! 1) (drop 2 osArgs) h")
  then show ?thesis by (cases r) (auto simp: cliMain_def Eprintln_def)
qed

end
