(* ===== verification/Utf8.thy ===== *)
theory Utf8
  imports GoStrings
begin

text \<open>
  UTF-8 as Go decodes and encodes it: \<open>decodeRune\<close> reads back what \<open>encodeRune\<close> writes for every Unicode
  scalar value, so \<open>runes\<close> inverts \<open>encodeText\<close>; and no encoding contains an ASCII byte other than its own
  character.
\<close>

definition encodeText :: "nat list \<Rightarrow> string" where
  "encodeText rs = concat (map encodeRune rs)"

text \<open>A Unicode scalar value.\<close>

definition scalarValue :: "nat \<Rightarrow> bool" where
  "scalarValue r \<longleftrightarrow> r < 0xD800 \<or> 0xE000 \<le> r \<and> r < 0x110000"

lemma byte_of_char [simp]: "n < 256 \<Longrightarrow> (of_char (char_of n :: char) :: nat) = n"
  by simp

lemma mod_offset: "a < m \<Longrightarrow> (k * m + a) mod m = (a :: nat)"
  by simp

lemma digits64:
  "(r :: nat) = r div 64 * 64 + r mod 64"
  "r = r div 4096 * 4096 + r div 64 mod 64 * 64 + r mod 64"
  "r = r div 262144 * 262144 + r div 4096 mod 64 * 4096 + r div 64 mod 64 * 64 + r mod 64"
proof -
  have 1: "r = r div 64 * 64 + r mod 64" by simp
  have 2: "r div 64 = r div 4096 * 64 + r div 64 mod 64"
    using div_mult_mod_eq [of "r div 64" 64] by (simp flip: div_mult2_eq)
  have 3: "r div 4096 = r div 262144 * 64 + r div 4096 mod 64"
    using div_mult_mod_eq [of "r div 4096" 64] by (simp flip: div_mult2_eq)
  show "r = r div 64 * 64 + r mod 64" by (rule 1)
  show 4: "r = r div 4096 * 4096 + r div 64 mod 64 * 64 + r mod 64" using 1 2 by linarith
  show "r = r div 262144 * 262144 + r div 4096 mod 64 * 4096 + r div 64 mod 64 * 64 + r mod 64"
    using 4 3 by linarith
qed

lemma decode_two:
  assumes "0x80 \<le> r" and "r < 0x800"
  shows "decodeRune (encodeRune r @ t) = (r, 2)"
proof -
  define a b where ab: "a = r div 64" "b = r mod 64"
  have r: "r = a * 64 + b" unfolding ab by (rule digits64)
  have bnd: "2 \<le> a" "a < 32" "b < 64" using assms by (simp_all add: ab)
  have enc: "encodeRune r = [char_of (0xC0 + a), char_of (0x80 + b)]"
    using assms by (simp add: encodeRune_def ab)
  have md: "(0xC0 + a) mod 32 = a" "(0x80 + b) mod 64 = b"
    using mod_offset [of a 32 6] mod_offset [of b 64 2] bnd by simp_all
  have by_a: "(of_char (char_of (0xC0 + a) :: char) :: nat) = 0xC0 + a" by (rule byte_of_char) (use bnd in simp)
  have by_b: "(of_char (char_of (0x80 + b) :: char) :: nat) = 0x80 + b" by (rule byte_of_char) (use bnd in simp)
  have in_b: "byte_in 0x80 0xBF (char_of (0x80 + b))" unfolding byte_in_def by_b using bnd by simp
  have c_b: "cont_bits (char_of (0x80 + b)) = b" unfolding cont_bits_def by_b by (rule md)
  have lead: "\<not> 0xC0 + a < 0x80" "0xC2 \<le> 0xC0 + a \<and> 0xC0 + a \<le> 0xDF" using bnd by simp_all
  show ?thesis
    unfolding enc append_Cons append_Nil decodeRune.simps Let_def by_a
    by (simp only: lead if_False if_True list.case in_b c_b md r [symmetric] simp_thms)
qed

lemma decode_three:
  assumes "0x800 \<le> r" and "r < 0x10000" and "scalarValue r"
  shows "decodeRune (encodeRune r @ t) = (r, 3)"
proof -
  define a b c where abc: "a = r div 4096" "b = r div 64 mod 64" "c = r mod 64"
  have r: "r = a * 4096 + b * 64 + c" unfolding abc by (rule digits64)
  have bnd: "a < 16" "b < 64" "c < 64" using assms(2) by (simp_all add: abc)
  have low: "a = 0 \<Longrightarrow> 32 \<le> b" using assms(1) r bnd by arith
  have sur: "a = 13 \<Longrightarrow> b < 32" using assms(3) r bnd unfolding scalarValue_def by arith
  have enc: "encodeRune r = [char_of (0xE0 + a), char_of (0x80 + b), char_of (0x80 + c)]"
    using assms by (simp add: encodeRune_def abc)
  have md: "(0xE0 + a) mod 16 = a" "(0x80 + b) mod 64 = b" "(0x80 + c) mod 64 = c"
    using mod_offset [of a 16 14] mod_offset [of b 64 2] mod_offset [of c 64 2] bnd by simp_all
  have by_a: "(of_char (char_of (0xE0 + a) :: char) :: nat) = 0xE0 + a" by (rule byte_of_char) (use bnd in simp)
  have by_b: "(of_char (char_of (0x80 + b) :: char) :: nat) = 0x80 + b" by (rule byte_of_char) (use bnd in simp)
  have by_c: "(of_char (char_of (0x80 + c) :: char) :: nat) = 0x80 + c" by (rule byte_of_char) (use bnd in simp)
  have in_b: "byte_in (second_lo (0xE0 + a)) (second_hi (0xE0 + a)) (char_of (0x80 + b))"
    unfolding byte_in_def by_b using bnd low sur by (auto simp: second_lo_def second_hi_def)
  have in_c: "byte_in 0x80 0xBF (char_of (0x80 + c))" unfolding byte_in_def by_c using bnd by simp
  have bits: "cont_bits (char_of (0x80 + b)) = b" "cont_bits (char_of (0x80 + c)) = c"
    unfolding cont_bits_def by_b by_c by (rule md)+
  have lead: "\<not> 0xE0 + a < 0x80" "\<not> (0xC2 \<le> 0xE0 + a \<and> 0xE0 + a \<le> 0xDF)" "0xE0 \<le> 0xE0 + a \<and> 0xE0 + a \<le> 0xEF"
    using bnd by simp_all
  show ?thesis
    unfolding enc append_Cons append_Nil decodeRune.simps Let_def by_a
    by (simp only: lead if_False if_True list.case in_b in_c bits md r [symmetric] simp_thms)
qed

lemma decode_four:
  assumes "0x10000 \<le> r" and "r < 0x110000"
  shows "decodeRune (encodeRune r @ t) = (r, 4)"
proof -
  define a b c d where abcd: "a = r div 262144" "b = r div 4096 mod 64" "c = r div 64 mod 64" "d = r mod 64"
  have r: "r = a * 262144 + b * 4096 + c * 64 + d" unfolding abcd by (rule digits64)
  have bnd: "a < 5" "b < 64" "c < 64" "d < 64" using assms(2) by (simp_all add: abcd)
  have low: "a = 0 \<Longrightarrow> 16 \<le> b" using assms(1) r bnd by arith
  have high: "a = 4 \<Longrightarrow> b < 16" using assms(2) r bnd by arith
  have enc: "encodeRune r = [char_of (0xF0 + a), char_of (0x80 + b), char_of (0x80 + c), char_of (0x80 + d)]"
    using assms by (simp add: encodeRune_def abcd)
  have md: "(0xF0 + a) mod 8 = a" "(0x80 + b) mod 64 = b" "(0x80 + c) mod 64 = c" "(0x80 + d) mod 64 = d"
    using mod_offset [of a 8 30] mod_offset [of b 64 2] mod_offset [of c 64 2] mod_offset [of d 64 2] bnd by simp_all
  have by_a: "(of_char (char_of (0xF0 + a) :: char) :: nat) = 0xF0 + a" by (rule byte_of_char) (use bnd in simp)
  have by_b: "(of_char (char_of (0x80 + b) :: char) :: nat) = 0x80 + b" by (rule byte_of_char) (use bnd in simp)
  have by_c: "(of_char (char_of (0x80 + c) :: char) :: nat) = 0x80 + c" by (rule byte_of_char) (use bnd in simp)
  have by_d: "(of_char (char_of (0x80 + d) :: char) :: nat) = 0x80 + d" by (rule byte_of_char) (use bnd in simp)
  have in_b: "byte_in (second_lo (0xF0 + a)) (second_hi (0xF0 + a)) (char_of (0x80 + b))"
    unfolding byte_in_def by_b using bnd low high by (auto simp: second_lo_def second_hi_def)
  have in_c: "byte_in 0x80 0xBF (char_of (0x80 + c))" unfolding byte_in_def by_c using bnd by simp
  have in_d: "byte_in 0x80 0xBF (char_of (0x80 + d))" unfolding byte_in_def by_d using bnd by simp
  have bits: "cont_bits (char_of (0x80 + b)) = b" "cont_bits (char_of (0x80 + c)) = c" "cont_bits (char_of (0x80 + d)) = d"
    unfolding cont_bits_def by_b by_c by_d by (rule md)+
  have lead: "\<not> 0xF0 + a < 0x80" "\<not> (0xC2 \<le> 0xF0 + a \<and> 0xF0 + a \<le> 0xDF)" "\<not> (0xE0 \<le> 0xF0 + a \<and> 0xF0 + a \<le> 0xEF)"
    "0xF0 \<le> 0xF0 + a \<and> 0xF0 + a \<le> 0xF4"
    using bnd by simp_all
  show ?thesis
    unfolding enc append_Cons append_Nil decodeRune.simps Let_def by_a
    by (simp only: lead if_False if_True list.case in_b in_c in_d bits md r [symmetric] simp_thms)
qed

lemma decode_encode: "scalarValue r \<Longrightarrow> decodeRune (encodeRune r @ t) = (r, length (encodeRune r))"
proof -
  assume r: "scalarValue r"
  consider "r < 0x80" | "0x80 \<le> r" "r < 0x800" | "0x800 \<le> r" "r < 0x10000" | "0x10000 \<le> r" "r < 0x110000"
    using r unfolding scalarValue_def by linarith
  then show ?thesis
  proof cases
    case 1
    then show ?thesis by (simp add: encodeRune_def Let_def)
  next
    case 2
    then show ?thesis using decode_two [OF 2] by (simp add: encodeRune_def)
  next
    case 3
    then show ?thesis using decode_three [OF 3 r] by (simp add: encodeRune_def)
  next
    case 4
    then show ?thesis using decode_four [OF 4] by (simp add: encodeRune_def)
  qed
qed

lemma encodeRune_nonempty [simp]: "encodeRune r \<noteq> []"
  by (simp add: encodeRune_def)

lemma runes_encodeText: "\<forall>r\<in>set rs. scalarValue r \<Longrightarrow> runes (encodeText rs) = rs"
proof (induction rs)
  case (Cons r rs)
  then have d: "decodeRune (encodeRune r @ encodeText rs) = (r, length (encodeRune r))" by (simp add: decode_encode)
  have "encodeText (r # rs) = encodeRune r @ encodeText rs" by (simp add: encodeText_def)
  then show ?case using Cons d by (subst runes.simps) simp
qed (simp add: encodeText_def)

text \<open>What \<open>runes\<close> yields is small enough that no byte of its encoding but an ASCII one is below 128.\<close>

lemma four_byte_bound:
  assumes "240 \<le> x" and "x \<le> 244"
  shows "x mod 8 * 262144 + p mod 64 * 4096 + q mod 64 * 64 + s mod 64 < (1310720 :: nat)"
proof -
  have "x mod 8 \<le> 4" using assms by presburger
  moreover have "p mod 64 < 64" "q mod 64 < 64" "s mod 64 < 64" by simp_all
  ultimately show ?thesis by linarith
qed

lemma decodeRune_bound: "fst (decodeRune s) < 1310720"
proof (cases s)
  case (Cons c s)
  then show ?thesis
    by (auto simp: Let_def runeError_def cont_bits_def four_byte_bound split: list.splits)
qed (simp add: runeError_def)

lemma runes_bound: "r \<in> set (runes s) \<Longrightarrow> r < 1310720"
proof (induction s rule: runes.induct)
  case (1 s)
  then show ?case using decodeRune_bound [of s] by (subst (asm) runes.simps) (auto split: if_splits)
qed

lemma no_quote_byte:
  assumes "n \<noteq> 34" and "n < (256 :: nat)"
  shows "(char_of n :: char) \<noteq> CHR 0x22"
proof
  assume "(char_of n :: char) = CHR 0x22"
  then have "(of_char (char_of n :: char) :: nat) = of_char (CHR 0x22)" by simp
  with assms show False by simp
qed

lemma encodeRune_bytes:
  assumes "r < 1310720" and "\<not> r < 0x80"
  shows "\<exists>bs :: nat list. encodeRune r = map char_of bs \<and> (\<forall>b\<in>set bs. 128 \<le> b \<and> b < 256)"
proof -
  let ?bs = "if r < 0x800 then [0xC0 + r div 64, 0x80 + r mod 64]
    else if r < 0x10000 then [0xE0 + r div 4096, 0x80 + r div 64 mod 64, 0x80 + r mod 64]
    else [0xF0 + r div 262144, 0x80 + r div 4096 mod 64, 0x80 + r div 64 mod 64, 0x80 + r mod 64]"
  have m: "n mod 64 < 128" for n :: nat using mod_less_divisor [of 64 n] by linarith
  have "r div 262144 < 5" "r < 0x10000 \<Longrightarrow> r div 4096 < 32" "r < 0x800 \<Longrightarrow> r div 64 < 64"
    using assms(1) by (simp_all add: less_mult_imp_div_less)
  then have "\<forall>b\<in>set ?bs. 128 \<le> b \<and> b < 256" by (simp add: m)
  moreover have "encodeRune r = map char_of ?bs" using assms(2) by (simp add: encodeRune_def)
  ultimately show ?thesis by blast
qed

lemma encodeRune_no_quote:
  assumes "r < 1310720" and "r \<noteq> 34"
  shows "CHR 0x22 \<notin> set (encodeRune r)"
proof (cases "r < 0x80")
  case True
  then show ?thesis using no_quote_byte [OF assms(2)] by (simp add: encodeRune_def)
next
  case False
  then obtain bs :: "nat list" where "encodeRune r = map char_of bs" "\<forall>b\<in>set bs. 128 \<le> b \<and> b < 256"
    using encodeRune_bytes [OF assms(1)] by blast
  moreover have "char_of b \<noteq> CHR 0x22" if "b \<in> set bs" for b
    by (rule no_quote_byte) (use \<open>\<forall>b\<in>set bs. 128 \<le> b \<and> b < 256\<close> that in auto)
  ultimately show ?thesis by (metis imageE set_map)
qed

end
