(* ===== verification/Regression.thy ===== *)
theory Regression
  imports Migrations GoEncoding Utf8
begin

text \<open>
  \<open>cmd/migration-regression/main.go\<close>: the tool that applies the migrations to a schema of their own,
  reverts them and applies them again. The database, pgx and goose are parameters
  (\<open>regression_env\<close>): they answer by the number of the call, so they may have any state; what the
  tool asks of them is the log. \<open>log.Fatal\<close> ends the process without running deferred calls.
\<close>

section \<open>Identifiers\<close>

text \<open>\<open>for _, r := range value\<close>; \<open>string(r)\<close> encodes the rune again.\<close>

definition quoteRune :: "nat \<Rightarrow> string" where
  "quoteRune r = (if r = 34 then [CHR 0x22, CHR 0x22] else encodeRune r)"

definition quoteIdentifier :: "string \<Rightarrow> string" where
  "quoteIdentifier value = [CHR 0x22] @ concat (map quoteRune (runes value)) @ [CHR 0x22]"

text \<open>
  A quoted identifier at the start of an SQL text, by PostgreSQL's lexical rules: it ends at the first
  double quote that is not doubled. The result is the name and the rest of the text.
\<close>

fun lexBody :: "string \<Rightarrow> (string \<times> string) option" where
  "lexBody [] = None"
| "lexBody (c # r) =
     (if c \<noteq> CHR 0x22 then map_option (\<lambda>(n, t). (c # n, t)) (lexBody r)
      else (case r of
              [] \<Rightarrow> Some ([], [])
            | d # r' \<Rightarrow> if d = CHR 0x22 then map_option (\<lambda>(n, t). (d # n, t)) (lexBody r') else Some ([], r)))"

definition lexIdentifier :: "string \<Rightarrow> (string \<times> string) option" where
  "lexIdentifier s = (case s of c # r \<Rightarrow> if c = CHR 0x22 then lexBody r else None | [] \<Rightarrow> None)"

definition buildTemporarySchemaName :: "int \<Rightarrow> string \<Rightarrow> string" where
  "buildTemporarySchemaName epochSeconds schemaSuffix =
     ''gotchi_migration_regression_'' @ showInt epochSeconds @ ''_'' @ take 8 schemaSuffix"

section \<open>Calls\<close>

datatype db_call =
    OpenPool string
  | ExecSql string
  | ClosePool
  | ConnectManager
  | UpMigrations
  | SetDialect string
  | ResetSource string
  | TableQuery string string
  | FunctionQuery string string
  | CloseManager

record ('p, 'e) regression_env =
  re_libs :: "('p, 'e) pgx_libs"
  re_pool :: "string \<Rightarrow> go_error option"
  re_exec :: "nat \<Rightarrow> string \<Rightarrow> go_error option"
  re_table :: "nat \<Rightarrow> string \<Rightarrow> string \<Rightarrow> go_error + bool"
  re_function :: "nat \<Rightarrow> string \<Rightarrow> string \<Rightarrow> go_error + bool"
  re_reset :: "nat \<Rightarrow> source_fs \<Rightarrow> string \<Rightarrow> go_error option"
  re_now :: int
  re_uuid :: string
  re_quote :: "string \<Rightarrow> string"
  re_content :: "string \<Rightarrow> string \<Rightarrow> string"

type_synonym call_log = "db_call list"

record named_source =
  ns_name :: string
  ns_fs :: source_fs
  ns_dir :: string

definition expectedTables :: "string list" where
  "expectedTables = [''sessions'', ''tenants'', ''users'', ''tenant_memberships'']"

definition expectedFunctions :: "string list" where
  "expectedFunctions = [''set_tenant'']"

definition tableExists ::
    "('p, 'e) regression_env \<Rightarrow> string \<Rightarrow> string \<Rightarrow> call_log \<Rightarrow> (go_error + bool) \<times> call_log" where
  "tableExists E schema table L = (re_table E (length L) schema table, L @ [TableQuery schema table])"

definition functionExists ::
    "('p, 'e) regression_env \<Rightarrow> string \<Rightarrow> string \<Rightarrow> call_log \<Rightarrow> (go_error + bool) \<times> call_log" where
  "functionExists E schema fn L = (re_function E (length L) schema fn, L @ [FunctionQuery schema fn])"

text \<open>
  The four loops of the two assertions: each name is looked up, and the first error or the first answer that is
  not the wanted one ends the loop with an error.
\<close>

fun checkAll ::
    "(string \<Rightarrow> call_log \<Rightarrow> (go_error + bool) \<times> call_log) \<Rightarrow> bool \<Rightarrow> (string \<Rightarrow> string) \<Rightarrow> string list \<Rightarrow> call_log
       \<Rightarrow> go_error option \<times> call_log" where
  "checkAll exists wanted msg [] L = (None, L)"
| "checkAll exists wanted msg (n # ns) L =
     (case exists n L of
        (Inl err, L') \<Rightarrow> (Some err, L')
      | (Inr found, L') \<Rightarrow>
          if found \<noteq> wanted then (Some (ErrorString (msg n)), L') else checkAll exists wanted msg ns L')"

definition assertObjectsPresent ::
    "('p, 'e) regression_env \<Rightarrow> string \<Rightarrow> call_log \<Rightarrow> go_error option \<times> call_log" where
  "assertObjectsPresent E schema L =
     (case checkAll (tableExists E schema) True (\<lambda>n. ''expected table '' @ re_quote E n @ '' to exist'') expectedTables L of
        (Some err, L') \<Rightarrow> (Some err, L')
      | (None, L') \<Rightarrow>
          checkAll (functionExists E schema) True (\<lambda>n. ''expected function '' @ re_quote E n @ '' to exist'') expectedFunctions L')"

definition assertObjectsAbsent ::
    "('p, 'e) regression_env \<Rightarrow> string \<Rightarrow> call_log \<Rightarrow> go_error option \<times> call_log" where
  "assertObjectsAbsent E schema L =
     (case checkAll (tableExists E schema) False
         (\<lambda>n. ''expected table '' @ re_quote E n @ '' to be dropped by down migration'') expectedTables L of
        (Some err, L') \<Rightarrow> (Some err, L')
      | (None, L') \<Rightarrow>
          checkAll (functionExists E schema) False
            (\<lambda>n. ''expected function '' @ re_quote E n @ '' to be dropped by down migration'') expectedFunctions L')"

text \<open>\<open>for i := len(sources) - 1; i >= 0; i--\<close>: the argument is \<open>i + 1\<close>.\<close>

fun downLoop ::
    "('p, 'e) regression_env \<Rightarrow> named_source list \<Rightarrow> nat \<Rightarrow> call_log \<Rightarrow> go_error option \<times> call_log" where
  "downLoop E sources 0 L = (None, L)"
| "downLoop E sources (Suc i) L =
     (let source = sources ! i; L' = L @ [ResetSource (ns_name source)] in
      case re_reset E (length L) (ns_fs source) (ns_dir source) of
        Some err \<Rightarrow> (Some (Wrapped (ns_name source @ '' reset'') err), L')
      | None \<Rightarrow> downLoop E sources i L')"

definition runDownMigrations ::
    "('p, 'e) regression_env \<Rightarrow> named_source list \<Rightarrow> call_log \<Rightarrow> go_error option \<times> call_log" where
  "runDownMigrations E sources L =
     (case px_SetDialect (re_libs E) ''postgres'' of
        Some err \<Rightarrow> (Some err, L @ [SetDialect ''postgres''])
      | None \<Rightarrow> downLoop E sources (length sources) (L @ [SetDialect ''postgres'']))"

definition dropSql :: "string \<Rightarrow> string" where
  "dropSql schema = ''DROP SCHEMA IF EXISTS '' @ quoteIdentifier schema @ '' CASCADE''"

definition createSql :: "string \<Rightarrow> string" where
  "createSql schema = ''CREATE SCHEMA IF NOT EXISTS '' @ quoteIdentifier schema"

text \<open>An error is only logged.\<close>

definition dropSchema :: "string \<Rightarrow> call_log \<Rightarrow> call_log" where
  "dropSchema schema L = L @ [ExecSql (dropSql schema)]"

section \<open>main\<close>

definition regressionSources :: "('p, 'e) regression_env \<Rightarrow> named_source list" where
  "regressionSources E =
     [\<lparr>ns_name = ''core'', ns_fs = Core (re_content E), ns_dir = ''.''\<rparr>,
      \<lparr>ns_name = ''auth'', ns_fs = Auth (re_content E), ns_dir = ''.''\<rparr>]"

definition regressionConfig :: "string \<Rightarrow> string \<Rightarrow> db_config" where
  "regressionConfig url targetSchema =
     \<lparr>dbc_DatabaseURL = url, dbc_SearchPath = targetSchema @ '',public'', dbc_EnableSlogTracing = False,
      dbc_OTELTracing = False\<rparr>"

definition withSources :: "('p, 'e) regression_env \<Rightarrow> 'p db_manager \<Rightarrow> 'p db_manager" where
  "withSources E m =
     fold (\<lambda>s. AddMigrationSource \<lparr>ms_FS = ns_fs s, ms_Dir = ns_dir s\<rparr>) (regressionSources E) m"

text \<open>One step of \<open>main\<close> whose error is fatal, and the rest of \<open>main\<close>.\<close>

definition orFatal ::
    "go_error option \<times> call_log \<Rightarrow> string \<Rightarrow> (call_log \<Rightarrow> go_error option \<times> call_log) \<Rightarrow> go_error option \<times> call_log" where
  "orFatal r what k = (case r of (Some err, L) \<Rightarrow> (Some (Wrapped what err), L) | (None, L) \<Rightarrow> k L)"

definition migrateUp ::
    "('p, 'e) regression_env \<Rightarrow> 'p db_manager \<Rightarrow> call_log \<Rightarrow> go_error option \<times> call_log" where
  "migrateUp E m L = (RunMigrations (re_libs E) (length L) (Some (AdminContext (Some []))) m, L @ [UpMigrations])"

text \<open>From the first migration to the end of \<open>main\<close>, with the deferred calls of a normal return.\<close>

definition regressionRun ::
    "('p, 'e) regression_env \<Rightarrow> string \<Rightarrow> 'p db_manager \<Rightarrow> call_log \<Rightarrow> go_error option \<times> call_log" where
  "regressionRun E schema m L =
     orFatal (migrateUp E m L) ''initial up failed'' (\<lambda>L1.
     orFatal (assertObjectsPresent E schema L1) ''post-up verification failed'' (\<lambda>L2.
     orFatal (runDownMigrations E (regressionSources E) L2) ''down failed'' (\<lambda>L3.
     orFatal (assertObjectsAbsent E schema L3) ''post-down verification failed'' (\<lambda>L4.
     orFatal (migrateUp E m L4) ''second up failed'' (\<lambda>L5.
     orFatal (assertObjectsPresent E schema L5) ''post-second-up verification failed'' (\<lambda>L6.
       (None, dropSchema schema L6 @ [CloseManager])))))))"

text \<open>\<open>main\<close> on the values of its two flags: the fatal error and the calls made.\<close>

definition regressionMain ::
    "('p, 'e) regression_env \<Rightarrow> string \<Rightarrow> string \<Rightarrow> go_error option \<times> call_log" where
  "regressionMain E databaseURL schema =
     (if databaseURL = '''' then
        (Some (ErrorString ''database URL is required (pass -database-url or set DATABASE_URL in wrapper script)''), [])
      else (let targetSchema = (if schema = '''' then buildTemporarySchemaName (re_now E) (re_uuid E) else schema) in
        orFatal (re_pool E databaseURL, [OpenPool databaseURL]) ''create schema pool failed'' (\<lambda>L1.
        orFatal (re_exec E (length L1) (createSql targetSchema), L1 @ [ExecSql (createSql targetSchema)])
            ''create schema failed'' (\<lambda>L2.
          (let L3 = L2 @ [ClosePool];
               (err, m) = Connect (re_libs E) (length L3) (Some []) (NewManager (regressionConfig databaseURL targetSchema))
           in orFatal (err, L3 @ [ConnectManager]) ''connect failed'' (\<lambda>L4.
                regressionRun E targetSchema (withSources E m) L4))))))"

section \<open>Quoting\<close>

lemma lexBody_plain: "CHR 0x22 \<notin> set p \<Longrightarrow> lexBody (p @ t) = map_option (\<lambda>(n, u). (p @ n, u)) (lexBody t)"
proof (induction p)
  case Nil
  show ?case by (simp add: option.map_id [unfolded id_def] case_prod_beta)
next
  case (Cons c p)
  then show ?case by (cases "lexBody t") auto
qed

lemma lexBody_rune:
  assumes "r < 1310720"
  shows "lexBody (quoteRune r @ t) = map_option (\<lambda>(n, u). (encodeRune r @ n, u)) (lexBody t)"
proof (cases "r = 34")
  case True
  have "encodeRune 34 = [CHR 0x22]" by code_simp
  with True show ?thesis by (simp add: quoteRune_def)
next
  case False
  with lexBody_plain [OF encodeRune_no_quote [OF assms False]] show ?thesis by (simp add: quoteRune_def)
qed

lemma lexBody_runes:
  assumes "\<forall>r\<in>set rs. r < 1310720" and "\<not> hasPrefix rest [CHR 0x22]"
  shows "lexBody (concat (map quoteRune rs) @ [CHR 0x22] @ rest) = Some (encodeText rs, rest)"
  using assms(1)
proof (induction rs)
  case Nil
  show ?case using assms(2) by (cases rest) (auto simp: encodeText_def)
next
  case (Cons r rs)
  then show ?case using lexBody_rune [of r "concat (map quoteRune rs) @ [CHR 0x22] @ rest"]
    by (simp add: encodeText_def)
qed

lemma lex_quoteIdentifier:
  assumes "\<not> hasPrefix rest [CHR 0x22]"
  shows "lexIdentifier (quoteIdentifier value @ rest) = Some (encodeText (runes value), rest)"
proof -
  have "\<forall>r\<in>set (runes value). r < 1310720" using runes_bound by blast
  from lexBody_runes [OF this assms] show ?thesis by (simp add: quoteIdentifier_def lexIdentifier_def)
qed

text \<open>
  C39 A schema name goes into the SQL text as exactly one identifier: PostgreSQL reads \<open>quoteIdentifier value\<close>,
  whatever text follows it, as one quoted identifier, whose name is the value, for every value that is valid
  UTF-8 (the text of any list of Unicode scalar values); of any other value, the invalid bytes are replaced and
  nothing can leave the quotes either.
\<close>

theorem quote_identifier_roundtrip:
  assumes "\<not> hasPrefix rest [CHR 0x22]" and "\<forall>r\<in>set rs. scalarValue r"
  shows "lexIdentifier (quoteIdentifier (encodeText rs) @ rest) = Some (encodeText rs, rest) \<and>
    lexIdentifier (quoteIdentifier value @ rest) = Some (encodeText (runes value), rest)"
  using lex_quoteIdentifier [OF assms(1)] runes_encodeText [OF assms(2)] by simp

lemma encode_sample: "encodeText [34, 0xE9, 34] = [CHR 0x22, CHR 0xC3, CHR 0xA9, CHR 0x22]"
  by code_simp

theorem quote_identifier_roundtrip_witness:
  "lexIdentifier (quoteIdentifier [CHR 0x22, CHR 0xC3, CHR 0xA9, CHR 0x22] @ '' CASCADE'') =
     Some ([CHR 0x22, CHR 0xC3, CHR 0xA9, CHR 0x22], '' CASCADE'')"
proof -
  have "\<not> hasPrefix '' CASCADE'' [CHR 0x22]" "\<forall>r\<in>set [34, 0xE9, 34]. scalarValue r"
    by (simp_all add: scalarValue_def)
  from quote_identifier_roundtrip [OF this, of "''''"] show ?thesis by (simp add: encode_sample)
qed

section \<open>A passing run\<close>

text \<open>The log of one call of the assertions, and of the reverting.\<close>

definition lookups :: "string \<Rightarrow> call_log" where
  "lookups schema = map (TableQuery schema) expectedTables @ map (FunctionQuery schema) expectedFunctions"

definition resets :: "call_log" where
  "resets = [SetDialect ''postgres'', ResetSource ''auth'', ResetSource ''core'']"

text \<open>What the lookups that start at call \<open>n\<close> answered.\<close>

definition answered :: "('p, 'e) regression_env \<Rightarrow> string \<Rightarrow> nat \<Rightarrow> bool \<Rightarrow> bool" where
  "answered E schema n wanted \<longleftrightarrow>
     (\<forall>i<4. re_table E (n + i) schema (expectedTables ! i) = Inr wanted) \<and>
     re_function E (n + 4) schema ''set_tenant'' = Inr wanted"

lemma checkAll_ok:
  assumes "\<And>n L. exists n L = (ans (length L) n, L @ [ev n])"
    and "checkAll exists wanted msg ns L = (None, L')"
  shows "L' = L @ map ev ns \<and> (\<forall>i<length ns. ans (length L + i) (ns ! i) = Inr wanted)"
  using assms(2)
proof (induction ns arbitrary: L)
  case (Cons n ns)
  from Cons.prems have a: "ans (length L) n = Inr wanted" and "checkAll exists wanted msg ns (L @ [ev n]) = (None, L')"
    by (auto simp: assms(1) [of n L] split: sum.splits if_splits)
  from Cons.IH [OF this(2)] have L: "L' = (L @ [ev n]) @ map ev ns"
    and rest: "\<forall>i<length ns. ans (Suc (length L + i)) (ns ! i) = Inr wanted" by simp_all
  have "ans (length L + i) ((n # ns) ! i) = Inr wanted" if "i < length (n # ns)" for i
    using that a rest by (cases i) auto
  with L show ?case by simp
qed simp

lemma assert_ok:
  "assertObjectsPresent E schema L = (None, L') \<Longrightarrow> L' = L @ lookups schema \<and> answered E schema (length L) True"
  "assertObjectsAbsent E schema L = (None, L') \<Longrightarrow> L' = L @ lookups schema \<and> answered E schema (length L) False"
proof -
  have t: "tableExists E schema n L = (re_table E (length L) schema n, L @ [TableQuery schema n])" for n L
    by (simp add: tableExists_def)
  have f: "functionExists E schema n L = (re_function E (length L) schema n, L @ [FunctionQuery schema n])" for n L
    by (simp add: functionExists_def)
  have both: "L' = L @ lookups schema \<and> answered E schema (length L) wanted"
    if "checkAll (tableExists E schema) wanted msg expectedTables L = (None, L1)"
      "checkAll (functionExists E schema) wanted msg' expectedFunctions L1 = (None, L')" for wanted msg msg' L1
    using checkAll_ok [OF t that(1)] checkAll_ok [OF f that(2)]
    by (simp add: lookups_def answered_def expectedTables_def expectedFunctions_def eval_nat_numeral)
  show "assertObjectsPresent E schema L = (None, L') \<Longrightarrow> L' = L @ lookups schema \<and> answered E schema (length L) True"
    by (auto simp: assertObjectsPresent_def split: prod.splits option.splits dest: both)
  show "assertObjectsAbsent E schema L = (None, L') \<Longrightarrow> L' = L @ lookups schema \<and> answered E schema (length L) False"
    by (auto simp: assertObjectsAbsent_def split: prod.splits option.splits dest: both)
qed

lemma down_ok: "runDownMigrations E (regressionSources E) L = (None, L') \<Longrightarrow> L' = L @ resets"
  by (auto simp: runDownMigrations_def regressionSources_def resets_def Let_def numeral_2_eq_2
      split: option.splits)

lemma orFatal_ok: "orFatal r what k = (None, L') \<longleftrightarrow> (\<exists>L. r = (None, L) \<and> k L = (None, L'))"
  by (cases r) (auto simp: orFatal_def split: option.splits)

lemma migrateUp_log: "migrateUp E m L = (r, L') \<Longrightarrow> L' = L @ [UpMigrations]"
  by (simp add: migrateUp_def)

lemma regressionRun_ok:
  assumes "regressionRun E schema m L = (None, L')"
  shows "L' = L @ [UpMigrations] @ lookups schema @ resets @ lookups schema @ [UpMigrations] @ lookups schema @
      [ExecSql (dropSql schema), CloseManager] \<and>
    answered E schema (length L + 1) True \<and> answered E schema (length L + 9) False \<and>
    answered E schema (length L + 15) True"
proof -
  have len: "length (lookups schema) = 5" "length resets = 3"
    by (simp_all add: lookups_def expectedTables_def expectedFunctions_def resets_def)
  from assms obtain L1 L2 L3 L4 L5 L6 where
    s: "migrateUp E m L = (None, L1)" "assertObjectsPresent E schema L1 = (None, L2)"
      "runDownMigrations E (regressionSources E) L2 = (None, L3)" "assertObjectsAbsent E schema L3 = (None, L4)"
      "migrateUp E m L4 = (None, L5)" "assertObjectsPresent E schema L5 = (None, L6)"
    and L': "L' = dropSchema schema L6 @ [CloseManager]"
    by (auto simp: regressionRun_def orFatal_ok)
  note a = migrateUp_log [OF s(1)] assert_ok(1) [OF s(2)] down_ok [OF s(3)] assert_ok(2) [OF s(4)]
    migrateUp_log [OF s(5)] assert_ok(1) [OF s(6)]
  have l: "length L1 = length L + 1" "length L3 = length L + 9" "length L5 = length L + 15"
    using a by (simp_all add: len)
  show ?thesis using a L' by (simp add: dropSchema_def flip: l)
qed

section \<open>A failing run\<close>

text \<open>The calls between the migrations and the clean-up send no SQL of the tool.\<close>

definition silent :: "call_log \<Rightarrow> call_log \<Rightarrow> bool" where
  "silent L L' \<longleftrightarrow> (\<exists>K. L' = L @ K \<and> (\<forall>c\<in>set K. \<forall>q. c \<noteq> ExecSql q))"

lemma silentI: "(\<And>q. c \<noteq> ExecSql q) \<Longrightarrow> silent L (L @ [c])"
  by (auto simp: silent_def)

lemma silent_refl [simp]: "silent L L"
  by (auto simp: silent_def)

lemma silent_trans: "silent L L' \<Longrightarrow> silent L' L'' \<Longrightarrow> silent L L''"
proof -
  assume "silent L L'" and "silent L' L''"
  then obtain K K' where k: "L' = L @ K" "L'' = L' @ K'"
    and s: "\<forall>c\<in>set K. \<forall>q. c \<noteq> ExecSql q" "\<forall>c\<in>set K'. \<forall>q. c \<noteq> ExecSql q"
    unfolding silent_def by blast
  have "\<forall>c\<in>set (K @ K'). \<forall>q. c \<noteq> ExecSql q" using s by auto
  moreover have "L'' = L @ K @ K'" using k by simp
  ultimately show ?thesis unfolding silent_def by blast
qed

lemma silentD: "silent L L' \<Longrightarrow> ExecSql q \<in> set L' \<longleftrightarrow> ExecSql q \<in> set L"
  by (auto simp: silent_def)

lemma checkAll_silent:
  assumes "\<And>n L. silent L (snd (exists n L))"
  shows "silent L (snd (checkAll exists wanted msg ns L))"
proof (induction ns arbitrary: L)
  case (Cons n ns)
  obtain a L1 where e: "exists n L = (a, L1)" by (cases "exists n L")
  then have "silent L L1" using assms [of L n] by simp
  then show ?case using Cons.IH [of L1] e by (auto intro: silent_trans split: sum.split)
qed simp

lemma lookup_silent: "silent L (snd (tableExists E s n L))" "silent L (snd (functionExists E s n L))"
  by (simp_all add: tableExists_def functionExists_def silentI)

lemma assert_silent:
  "silent L (snd (assertObjectsPresent E s L))" "silent L (snd (assertObjectsAbsent E s L))"
proof -
  have both: "silent L (snd (case checkAll (tableExists E s) w m xs L of
      (Some err, L') \<Rightarrow> (Some err, L') | (None, L') \<Rightarrow> checkAll (functionExists E s) w m' ys L'))" for w m xs m' ys
  proof -
    obtain r L1 where c: "checkAll (tableExists E s) w m xs L = (r, L1)" by (cases "checkAll (tableExists E s) w m xs L")
    have "silent L L1" using checkAll_silent [of "tableExists E s" L w m xs] lookup_silent(1) c by (metis snd_conv)
    moreover have "silent L1 (snd (checkAll (functionExists E s) w m' ys L1))"
      by (rule checkAll_silent) (rule lookup_silent(2))
    ultimately show ?thesis using c silent_trans by (auto split: option.split)
  qed
  show "silent L (snd (assertObjectsPresent E s L))" unfolding assertObjectsPresent_def by (rule both)
  show "silent L (snd (assertObjectsAbsent E s L))" unfolding assertObjectsAbsent_def by (rule both)
qed

lemma downLoop_silent: "silent L (snd (downLoop E sources i L))"
proof (induction i arbitrary: L)
  case (Suc i)
  have "silent L (L @ [ResetSource n])" for n by (rule silentI) simp
  then show ?case using Suc.IH silent_trans by (auto simp: Let_def split: option.split) blast+
qed simp

lemma down_silent: "silent L (snd (runDownMigrations E sources L))"
proof -
  have "silent L (L @ [SetDialect d])" for d by (rule silentI) simp
  then show ?thesis using downLoop_silent silent_trans by (auto simp: runDownMigrations_def split: option.split) blast+
qed

lemma up_silent: "silent L (snd (migrateUp E m L))"
  by (simp add: migrateUp_def silentI)

text \<open>A fatal error ends the chain with a log that is silent as long as its steps are.\<close>

lemma orFatal_silent:
  assumes "silent L (snd r)" and "\<And>L1 L'. k L1 = (Some e, L') \<Longrightarrow> silent L1 L'"
    and "orFatal r what k = (Some e, L')"
  shows "silent L L'"
proof (cases "fst r")
  case None
  then obtain L1 where "r = (None, L1)" by (cases r) simp
  with assms show ?thesis by (auto simp: orFatal_def intro: silent_trans)
next
  case (Some err)
  then obtain L1 where "r = (Some err, L1)" by (cases r) simp
  with assms(1,3) show ?thesis by (auto simp: orFatal_def)
qed

lemma regressionRun_error_silent:
  assumes "regressionRun E schema m L = (Some e, L')"
  shows "silent L L'"
proof -
  define k6 where "k6 = (\<lambda>L6. (None :: go_error option, dropSchema schema L6 @ [CloseManager]))"
  define k5 where "k5 = (\<lambda>L5. orFatal (assertObjectsPresent E schema L5) ''post-second-up verification failed'' k6)"
  define k4 where "k4 = (\<lambda>L4. orFatal (migrateUp E m L4) ''second up failed'' k5)"
  define k3 where "k3 = (\<lambda>L3. orFatal (assertObjectsAbsent E schema L3) ''post-down verification failed'' k4)"
  define k2 where "k2 = (\<lambda>L2. orFatal (runDownMigrations E (regressionSources E) L2) ''down failed'' k3)"
  define k1 where "k1 = (\<lambda>L1. orFatal (assertObjectsPresent E schema L1) ''post-up verification failed'' k2)"
  have run: "regressionRun E schema m L = orFatal (migrateUp E m L) ''initial up failed'' k1"
    by (simp only: regressionRun_def k1_def k2_def k3_def k4_def k5_def k6_def)
  have 6: "k6 A = (Some e, B) \<Longrightarrow> silent A B" for A B by (simp add: k6_def)
  have 5: "k5 A = (Some e, B) \<Longrightarrow> silent A B" for A B unfolding k5_def by (rule orFatal_silent [OF assert_silent(1) 6])
  have 4: "k4 A = (Some e, B) \<Longrightarrow> silent A B" for A B unfolding k4_def by (rule orFatal_silent [OF up_silent 5])
  have 3: "k3 A = (Some e, B) \<Longrightarrow> silent A B" for A B unfolding k3_def by (rule orFatal_silent [OF assert_silent(2) 4])
  have 2: "k2 A = (Some e, B) \<Longrightarrow> silent A B" for A B unfolding k2_def by (rule orFatal_silent [OF down_silent 3])
  have 1: "k1 A = (Some e, B) \<Longrightarrow> silent A B" for A B unfolding k1_def by (rule orFatal_silent [OF assert_silent(1) 2])
  show ?thesis using 1 by (rule orFatal_silent [OF up_silent _ assms [unfolded run]])
qed

lemma quoteIdentifier_hd: "\<exists>t. quoteIdentifier s = CHR 0x22 # t"
  by (simp add: quoteIdentifier_def)

lemma createSql_not_drop: "createSql s \<noteq> dropSql s'"
  by (simp add: createSql_def dropSql_def)

definition targetSchemaOf :: "('p, 'e) regression_env \<Rightarrow> string \<Rightarrow> string" where
  "targetSchemaOf E schema = (if schema = '''' then buildTemporarySchemaName (re_now E) (re_uuid E) else schema)"

definition openingCalls :: "string \<Rightarrow> string \<Rightarrow> call_log" where
  "openingCalls url s = [OpenPool url, ExecSql (createSql s), ClosePool, ConnectManager]"

lemma regressionMain_run:
  assumes "regressionMain E url schema = (r, L)"
  shows "(\<exists>m. regressionRun E (targetSchemaOf E schema) m (openingCalls url (targetSchemaOf E schema)) = (r, L)) \<or>
    (r \<noteq> None \<and> (\<forall>q. ExecSql q \<in> set L \<longrightarrow> q = createSql (targetSchemaOf E schema)))"
  using assms
  by (auto simp: regressionMain_def targetSchemaOf_def [symmetric] openingCalls_def orFatal_def Let_def
      split: if_splits option.splits prod.splits)

text \<open>
  C38 The regression tool passes only after this sequence of calls: the schema is created, the migrations are applied,
  every expected object is found, the sources are reverted in reverse order, none of the objects is found any
  more, the migrations are applied again, all objects are found again, and the schema is dropped before the
  manager is closed. After any fatal error, in contrast, no schema is dropped: \<open>log.Fatalf\<close> skips the deferred
  clean-up, and the schema that the tool created stays in the database.
\<close>

theorem regression_main:
  "(case regressionMain E url schema of
      (None, L) \<Rightarrow>
        (let s = targetSchemaOf E schema in
         L = openingCalls url s @ [UpMigrations] @ lookups s @ resets @ lookups s @ [UpMigrations] @ lookups s @
             [ExecSql (dropSql s), CloseManager] \<and>
         answered E s 5 True \<and> answered E s 13 False \<and> answered E s 19 True)
    | (Some err, L) \<Rightarrow> \<forall>s. ExecSql (dropSql s) \<notin> set L)"
proof -
  let ?s = "targetSchemaOf E schema"
  obtain r L where m: "regressionMain E url schema = (r, L)" by (cases "regressionMain E url schema")
  have len: "length (openingCalls url ?s) = 4" by (simp add: openingCalls_def)
  show ?thesis
  proof (cases r)
    case None
    then obtain mg where "regressionRun E ?s mg (openingCalls url ?s) = (None, L)"
      using regressionMain_run [OF m] by blast
    from regressionRun_ok [OF this] show ?thesis by (simp add: m None len Let_def)
  next
    case (Some err)
    have "ExecSql (dropSql s) \<notin> set L" for s
      using regressionMain_run [OF m]
    proof
      assume "\<exists>mg. regressionRun E ?s mg (openingCalls url ?s) = (r, L)"
      then obtain mg where "regressionRun E ?s mg (openingCalls url ?s) = (Some err, L)" using Some by auto
      from silentD [OF regressionRun_error_silent [OF this], of "dropSql s"] show ?thesis
        using createSql_not_drop [of ?s s] by (auto simp: openingCalls_def)
    qed (metis createSql_not_drop)
    then show ?thesis by (simp add: m Some)
  qed
qed

text \<open>A database where everything works: the objects are there except after the reverting.\<close>

definition sampleRegression :: "(unit, unit) regression_env" where
  "sampleRegression =
     \<lparr>re_libs =
        \<lparr>px_ParseConfig = (\<lambda>url. Inr \<lparr>plc_RuntimeParams = [], plc_Tracer = None, plc_Hooks = False\<rparr>),
         px_slogTracer = \<lparr>tr_Start = id, tr_End = (\<lambda>x. id)\<rparr>, px_otelTracer = \<lparr>tr_Start = id, tr_End = (\<lambda>x. id)\<rparr>,
         px_New = (\<lambda>cfg. Inr ()), px_Ping = (\<lambda>n p x. None), px_SetDialect = (\<lambda>d. None), px_Up = (\<lambda>n p f x. None)\<rparr>,
      re_pool = (\<lambda>url. None), re_exec = (\<lambda>n q. None),
      re_table = (\<lambda>n s t. Inr (n < 13 \<or> 19 \<le> n)), re_function = (\<lambda>n s f. Inr (n < 13 \<or> 19 \<le> n)),
      re_reset = (\<lambda>n fs d. None), re_now = 1700000000, re_uuid = ''0123456789'', re_quote = id,
      re_content = (\<lambda>dir name. dir @ name)\<rparr>"

theorem regression_main_witness:
  "\<exists>L. regressionMain sampleRegression ''postgres'' ''check'' = (None, L) \<and> length L = 26 \<and>
     answered sampleRegression ''check'' 13 False"
proof -
  have "fst (regressionMain sampleRegression ''postgres'' ''check'') = None" by code_simp
  then obtain L where L: "regressionMain sampleRegression ''postgres'' ''check'' = (None, L)" by (metis prod.collapse)
  moreover have "targetSchemaOf sampleRegression ''check'' = ''check''" by (simp add: targetSchemaOf_def)
  ultimately show ?thesis
    using regression_main [where E = sampleRegression and url = "''postgres''" and schema = "''check''"]
    by (simp add: lookups_def expectedTables_def expectedFunctions_def resets_def openingCalls_def Let_def)
qed

end
