(* ===== verification/TestProvider.thy ===== *)
theory TestProvider
  imports Http GoEncoding
begin

text \<open>
  \<open>internal/testoidc/provider.go\<close>: the OpenID provider of the tests. Users are shared by pointer: a builder
  may change a user after a code was made for it, so they live in a heap. RSA, SHA-256, random
  UUIDs, the clock and JSON encoding are parameters (\<open>mock_libs\<close>), by the number of the call where they
  differ from call to call.
\<close>

record test_user =
  tu_Subject :: string
  tu_Email :: string
  tu_EmailVerified :: bool
  tu_Name :: string
  tu_Nickname :: string
  tu_PreferredUsername :: string

record 'k mock_libs =
  ml_uuid :: "nat \<Rightarrow> string"
  ml_now :: "nat \<Rightarrow> int"
  ml_GenerateKey :: "go_error + 'k"
  ml_modulus :: "'k \<Rightarrow> string"
  ml_exponent :: "'k \<Rightarrow> string"
  ml_marshal :: "json \<Rightarrow> go_error + string"
  ml_sha256 :: "string \<Rightarrow> string"
  ml_sign :: "nat \<Rightarrow> 'k \<Rightarrow> string \<Rightarrow> go_error + string"

record 'k mock_provider =
  mp_url :: string
  mp_privateKey :: 'k
  mp_kid :: string
  mp_clientID :: string
  mp_codeToUser :: "string \<Rightarrow> nat option"
  mp_tokenToUser :: "string \<Rightarrow> nat option"
  mp_heap :: "nat \<Rightarrow> test_user"
  mp_calls :: nat
  mp_serving :: bool

section \<open>Users\<close>

definition NewTestUser :: "string \<Rightarrow> string \<Rightarrow> test_user" where
  "NewTestUser pre uuid =
     (let name = pre @ ''-'' @ take 8 uuid
      in \<lparr>tu_Subject = name, tu_Email = name @ ''@example.com'', tu_EmailVerified = True, tu_Name = '''',
          tu_Nickname = '''', tu_PreferredUsername = name\<rparr>)"

text \<open>The builder's methods on the user at a pointer; \<open>Build\<close> returns the pointer itself.\<close>

definition WithName :: "nat \<Rightarrow> string \<Rightarrow> 'k mock_provider \<Rightarrow> 'k mock_provider" where
  "WithName u name s = s\<lparr>mp_heap := (mp_heap s)(u := (mp_heap s u)\<lparr>tu_Name := name\<rparr>)\<rparr>"

definition Build :: "nat \<Rightarrow> nat" where
  "Build u = u"

section \<open>The provider\<close>

text \<open>None: the constructor panics.\<close>

definition NewMockOIDCProvider ::
    "'k mock_libs \<Rightarrow> string \<Rightarrow> string \<Rightarrow> (nat \<Rightarrow> test_user) \<Rightarrow> 'k mock_provider option" where
  "NewMockOIDCProvider L url clientID heap =
     (case ml_GenerateKey L of
        Inl err \<Rightarrow> None
      | Inr key \<Rightarrow>
          Some \<lparr>mp_url = url, mp_privateKey = key, mp_kid = ''test-key-'' @ take 8 (ml_uuid L 0), mp_clientID = clientID,
                mp_codeToUser = (\<lambda>_. None), mp_tokenToUser = (\<lambda>_. None), mp_heap = heap, mp_calls = 1,
                mp_serving = True\<rparr>)"

definition IssuerURL :: "'k mock_provider \<Rightarrow> string" where
  "IssuerURL s = mp_url s"

definition mockClose :: "'k mock_provider \<Rightarrow> 'k mock_provider" where
  "mockClose s = s\<lparr>mp_serving := False\<rparr>"

definition nextCall :: "'k mock_provider \<Rightarrow> 'k mock_provider" where
  "nextCall s = s\<lparr>mp_calls := Suc (mp_calls s)\<rparr>"

definition authCode :: "'k mock_libs \<Rightarrow> nat \<Rightarrow> string" where
  "authCode L n = ''auth-code-'' @ ml_uuid L n"

definition CreateAuthCode :: "'k mock_libs \<Rightarrow> nat \<Rightarrow> 'k mock_provider \<Rightarrow> string \<times> 'k mock_provider" where
  "CreateAuthCode L user s =
     (let code = authCode L (mp_calls s)
      in (code, (nextCall s)\<lparr>mp_codeToUser := (mp_codeToUser s)(code \<mapsto> user)\<rparr>))"

definition handleDiscovery :: "'k mock_provider \<Rightarrow> http_response" where
  "handleDiscovery s =
     (let issuer = mp_url s in jsonResponse 200 (JObject
        [(''issuer'', JString issuer),
         (''authorization_endpoint'', JString (issuer @ ''/auth'')),
         (''token_endpoint'', JString (issuer @ ''/token'')),
         (''userinfo_endpoint'', JString (issuer @ ''/userinfo'')),
         (''jwks_uri'', JString (issuer @ ''/keys'')),
         (''id_token_signing_alg_values_supported'', JArray [JString ''RS256'']),
         (''response_types_supported'', JArray [JString ''code'']),
         (''subject_types_supported'', JArray [JString ''public'']),
         (''token_endpoint_auth_methods_supported'', JArray [JString ''client_secret_post''])]))"

definition signJWT :: "'k mock_libs \<Rightarrow> json \<Rightarrow> 'k mock_provider \<Rightarrow> go_error + string" where
  "signJWT L claims s =
     (case ml_marshal L (JObject [(''alg'', JString ''RS256''), (''typ'', JString ''JWT''), (''kid'', JString (mp_kid s))]) of
        Inl err \<Rightarrow> Inl err
      | Inr headerJSON \<Rightarrow>
          (case ml_marshal L claims of
             Inl err \<Rightarrow> Inl err
           | Inr payloadJSON \<Rightarrow>
               (let signingInput = encode64 urlAlphabet headerJSON @ ''.'' @ encode64 urlAlphabet payloadJSON in
                case ml_sign L (mp_calls s) (mp_privateKey s) (ml_sha256 L signingInput) of
                  Inl err \<Rightarrow> Inl err
                | Inr sig \<Rightarrow> Inr (signingInput @ ''.'' @ encode64 urlAlphabet sig))))"

text \<open>The first critical section of \<open>handleToken\<close>: a code is looked up and deleted.\<close>

definition takeCode :: "string \<Rightarrow> 'k mock_provider \<Rightarrow> nat option \<times> 'k mock_provider" where
  "takeCode code s =
     (case mp_codeToUser s code of
        None \<Rightarrow> (None, s)
      | Some user \<Rightarrow> (Some user, s\<lparr>mp_codeToUser := (mp_codeToUser s)(code := None)\<rparr>))"

definition tokenClaims :: "test_user \<Rightarrow> int \<Rightarrow> 'k mock_provider \<Rightarrow> json" where
  "tokenClaims user now s = JObject
     [(''sub'', JString (tu_Subject user)), (''iss'', JString (mp_url s)), (''aud'', JString (mp_clientID s)),
      (''exp'', JInt (now + 3600)), (''iat'', JInt now)]"

definition accessToken :: "'k mock_libs \<Rightarrow> nat \<Rightarrow> string" where
  "accessToken L n = ''access-'' @ ml_uuid L n"

text \<open>The rest of \<open>handleToken\<close>, with the second critical section: the access token is stored.\<close>

definition issueToken :: "'k mock_libs \<Rightarrow> nat \<Rightarrow> 'k mock_provider \<Rightarrow> http_response \<times> 'k mock_provider" where
  "issueToken L user s =
     (case signJWT L (tokenClaims (mp_heap s user) (ml_now L (mp_calls s)) s) s of
        Inl err \<Rightarrow> (httpError ''token signing failed'' 500, nextCall s)
      | Inr idToken \<Rightarrow>
          (let token = accessToken L (mp_calls s) in
           (jsonResponse 200 (JObject
              [(''access_token'', JString token), (''token_type'', JString ''Bearer''),
               (''id_token'', JString idToken), (''expires_in'', JInt 3600)]),
            (nextCall s)\<lparr>mp_tokenToUser := (mp_tokenToUser s)(token \<mapsto> user)\<rparr>)))"

text \<open>The form of the request, None when it does not parse.\<close>

definition handleToken ::
    "'k mock_libs \<Rightarrow> (string \<Rightarrow> string) option \<Rightarrow> 'k mock_provider \<Rightarrow> http_response \<times> 'k mock_provider" where
  "handleToken L form s =
     (case form of
        None \<Rightarrow> (httpError ''invalid request'' 400, s)
      | Some f \<Rightarrow>
          if f ''code'' = '''' then (httpError ''missing code'' 400, s)
          else (case takeCode (f ''code'') s of
                  (None, s') \<Rightarrow> (httpError ''invalid_grant'' 400, s')
                | (Some user, s') \<Rightarrow> issueToken L user s'))"

definition userInfoJson :: "test_user \<Rightarrow> json" where
  "userInfoJson user = JObject
     [(''sub'', JString (tu_Subject user)), (''email'', JString (tu_Email user)),
      (''email_verified'', JBool (tu_EmailVerified user)), (''name'', JString (tu_Name user)),
      (''nickname'', JString (tu_Nickname user)), (''preferred_username'', JString (tu_PreferredUsername user))]"

definition handleUserInfo :: "http_request \<Rightarrow> 'k mock_provider \<Rightarrow> http_response" where
  "handleUserInfo r s =
     (let authHeader = rq_Header r ''Authorization'' in
      if authHeader = '''' then httpError ''unauthorized'' 401
      else (case mp_tokenToUser s (trimPrefix authHeader ''Bearer '') of
              None \<Rightarrow> httpError ''invalid token'' 401
            | Some user \<Rightarrow> jsonResponse 200 (userInfoJson (mp_heap s user))))"

definition handleJWKS :: "'k mock_libs \<Rightarrow> 'k mock_provider \<Rightarrow> http_response" where
  "handleJWKS L s = jsonResponse 200 (JObject [(''keys'', JArray [JObject
     [(''kty'', JString ''RSA''), (''kid'', JString (mp_kid s)), (''use'', JString ''sig''), (''alg'', JString ''RS256''),
      (''n'', JString (encode64 urlAlphabet (ml_modulus L (mp_privateKey s)))),
      (''e'', JString (encode64 urlAlphabet (ml_exponent L (mp_privateKey s))))]])])"

text \<open>The mux of the constructor, None for other paths and after \<open>Close\<close>.\<close>

definition mockRoutes ::
    "'k mock_libs \<Rightarrow> http_request \<Rightarrow> (string \<Rightarrow> string) option \<Rightarrow> 'k mock_provider
       \<Rightarrow> (http_response \<times> 'k mock_provider) option" where
  "mockRoutes L r form s =
     (if \<not> mp_serving s then None
      else if rq_Path r = ''/.well-known/openid-configuration'' then Some (handleDiscovery s, s)
      else if rq_Path r = ''/token'' then Some (handleToken L form s)
      else if rq_Path r = ''/userinfo'' then Some (handleUserInfo r s, s)
      else if rq_Path r = ''/keys'' then Some (handleJWKS L s, s)
      else None)"

section \<open>The ID token\<close>

text \<open>
  The three parts of an ID token, decoded: what a verifier reads. \<open>verify\<close> is the check of the
  signature with the public key.
\<close>

definition openJWT :: "('k \<Rightarrow> string \<Rightarrow> string \<Rightarrow> bool) \<Rightarrow> 'k mock_libs \<Rightarrow> 'k \<Rightarrow> string \<Rightarrow> (string \<times> string) option" where
  "openJWT verify L key token =
     (case splitOn CHR ''.'' token of
        [h, p, g] \<Rightarrow>
          (case (decode64 urlAlphabet h, decode64 urlAlphabet p, decode64 urlAlphabet g) of
             (Some hj, Some pj, Some sig) \<Rightarrow>
               if verify key (ml_sha256 L (h @ ''.'' @ p)) sig then Some (hj, pj) else None
           | _ \<Rightarrow> None)
      | _ \<Rightarrow> None)"

lemma no_dot: "CHR ''.'' \<notin> set (encode64 urlAlphabet bs)"
proof -
  have "CHR ''.'' \<notin> set urlAlphabet" by (simp add: urlAlphabet_def)
  then show ?thesis using encode64_alphabet [OF urlAlphabet_ok] by blast
qed

lemma split_three: "splitOn CHR ''.'' (encode64 urlAlphabet a @ ''.'' @ encode64 urlAlphabet b @ ''.'' @ encode64 urlAlphabet c) =
    [encode64 urlAlphabet a, encode64 urlAlphabet b, encode64 urlAlphabet c]"
  using no_dot by (simp add: splitOn_append_sep splitOn_no_sep)

text \<open>
  An ID token of the provider opens again: it has three parts, the first two decode to the JSON of its header
  and of the claims it was made from, and its signature over the text of the first two parts verifies with the
  provider's key.
\<close>

theorem id_token_roundtrip:
  assumes "signJWT L claims s = Inr token"
    and "\<And>n h sig. ml_sign L n (mp_privateKey s) h = Inr sig \<Longrightarrow> verify (mp_privateKey s) h sig"
  shows "\<exists>header payload. openJWT verify L (mp_privateKey s) token = Some (header, payload) \<and>
    ml_marshal L (JObject [(''alg'', JString ''RS256''), (''typ'', JString ''JWT''), (''kid'', JString (mp_kid s))]) = Inr header \<and>
    ml_marshal L claims = Inr payload"
proof -
  from assms(1) obtain hj pj sig where
    m: "ml_marshal L (JObject [(''alg'', JString ''RS256''), (''typ'', JString ''JWT''), (''kid'', JString (mp_kid s))]) = Inr hj"
      "ml_marshal L claims = Inr pj"
    and g: "ml_sign L (mp_calls s) (mp_privateKey s)
        (ml_sha256 L (encode64 urlAlphabet hj @ ''.'' @ encode64 urlAlphabet pj)) = Inr sig"
    and t: "token = encode64 urlAlphabet hj @ ''.'' @ encode64 urlAlphabet pj @ ''.'' @ encode64 urlAlphabet sig"
    by (auto simp: signJWT_def Let_def split: sum.splits)
  have "openJWT verify L (mp_privateKey s) token = Some (hj, pj)"
    unfolding openJWT_def t split_three
    using assms(2) [OF g] by (simp add: decode64_encode64 urlAlphabet_ok)
  with m show ?thesis by blast
qed

section \<open>Concurrent requests\<close>

text \<open>
  The mutex makes the two critical sections of \<open>handleToken\<close> atomic, not the handler: between them other requests
  run. A configuration is the provider, the requests that have taken a code and not yet issued a
  token, and the history.
\<close>

datatype mock_event = Created string nat | Issued string string nat

type_synonym 'k mock_conf = "'k mock_provider \<times> (string \<times> nat) list \<times> mock_event list"

inductive mock_step :: "'k mock_libs \<Rightarrow> 'k mock_conf \<Rightarrow> 'k mock_conf \<Rightarrow> bool" for L where
  ms_create: "CreateAuthCode L u s = (c, s') \<Longrightarrow> mock_step L (s, P, H) (s', P, H @ [Created c u])"
| ms_take: "takeCode c s = (Some u, s') \<Longrightarrow> mock_step L (s, P, H) (s', P @ [(c, u)], H)"
| ms_refuse: "takeCode c s = (None, s') \<Longrightarrow> mock_step L (s, P, H) (s', P, H)"
| ms_issue: "issueToken L u s = (r, s') \<Longrightarrow> rs_Status r = 200 \<Longrightarrow>
    mock_step L (s, P @ (c, u) # Q, H) (s', P @ Q, H @ [Issued c (accessToken L (mp_calls s)) u])"
| ms_fail: "issueToken L u s = (r, s') \<Longrightarrow> rs_Status r \<noteq> 200 \<Longrightarrow>
    mock_step L (s, P @ (c, u) # Q, H) (s', P @ Q, H)"
| ms_rename: "mock_step L (s, P, H) (WithName u name s, P, H)"

inductive mock_reachable :: "'k mock_libs \<Rightarrow> 'k mock_conf \<Rightarrow> bool" for L where
  mr_init: "NewMockOIDCProvider L url clientID heap = Some s \<Longrightarrow> mock_reachable L (s, [], [])"
| mr_step: "mock_reachable L c \<Longrightarrow> mock_step L c c' \<Longrightarrow> mock_reachable L c'"

definition issuedCodes :: "mock_event list \<Rightarrow> string list" where
  "issuedCodes H = concat (map (\<lambda>e. case e of Issued c t u \<Rightarrow> [c] | Created c u \<Rightarrow> []) H)"

definition createdCodes :: "mock_event list \<Rightarrow> string list" where
  "createdCodes H = concat (map (\<lambda>e. case e of Created c u \<Rightarrow> [c] | Issued c t u \<Rightarrow> []) H)"

lemma codes_simps [simp]:
  "issuedCodes [] = []" "issuedCodes (H @ [Created c u]) = issuedCodes H"
  "issuedCodes (H @ [Issued c t u]) = issuedCodes H @ [c]"
  "createdCodes [] = []" "createdCodes (H @ [Created c u]) = createdCodes H @ [c]"
  "createdCodes (H @ [Issued c t u]) = createdCodes H"
  by (simp_all add: issuedCodes_def createdCodes_def)

text \<open>Every code is in at most one place: waiting, taken or used.\<close>

definition mock_inv :: "'k mock_libs \<Rightarrow> 'k mock_conf \<Rightarrow> bool" where
  "mock_inv L conf \<longleftrightarrow> (case conf of (s, P, H) \<Rightarrow>
     distinct (map fst P @ issuedCodes H) \<and>
     (\<forall>c u. mp_codeToUser s c = Some u \<longrightarrow> Created c u \<in> set H \<and> c \<notin> set (map fst P @ issuedCodes H)) \<and>
     (\<forall>c u. (c, u) \<in> set P \<longrightarrow> Created c u \<in> set H) \<and>
     (\<forall>c t u. Issued c t u \<in> set H \<longrightarrow> Created c u \<in> set H) \<and>
     (\<forall>t u. mp_tokenToUser s t = Some u \<longrightarrow> (\<exists>c. Issued c t u \<in> set H)) \<and>
     (\<forall>c u. Created c u \<in> set H \<longrightarrow> (\<exists>n<mp_calls s. c = authCode L n)))"

lemma issuedCodes_created: "(\<forall>c t u. Issued c t u \<in> set H \<longrightarrow> Created c u \<in> set H) \<Longrightarrow> c \<in> set (issuedCodes H) \<Longrightarrow>
    \<exists>u. Created c u \<in> set H"
  by (fastforce simp: issuedCodes_def split: mock_event.splits)

lemma authCode_inj: "inj (ml_uuid L) \<Longrightarrow> authCode L n = authCode L m \<Longrightarrow> n = m"
  by (simp add: authCode_def inj_eq)

lemma issueToken_state:
  assumes "issueToken L u s = (r, s')"
  shows "mp_codeToUser s' = mp_codeToUser s \<and> mp_calls s' = Suc (mp_calls s) \<and>
    mp_tokenToUser s' = (if rs_Status r = 200 then (mp_tokenToUser s)(accessToken L (mp_calls s) \<mapsto> u) else mp_tokenToUser s)"
  using assms by (auto simp: issueToken_def nextCall_def Let_def split: sum.splits)

lemma mock_inv_create:
  assumes inv: "mock_inv L (s, P, H)" and uuid: "inj (ml_uuid L)" and c: "CreateAuthCode L u s = (c, s')"
  shows "mock_inv L (s', P, H @ [Created c u])"
proof -
  from c have s': "c = authCode L (mp_calls s)" "mp_codeToUser s' = (mp_codeToUser s)(c \<mapsto> u)"
    "mp_tokenToUser s' = mp_tokenToUser s" "mp_calls s' = Suc (mp_calls s)"
    by (auto simp: CreateAuthCode_def nextCall_def Let_def)
  have fresh: "Created c u' \<notin> set H" for u'
  proof
    assume "Created c u' \<in> set H"
    then obtain n where "n < mp_calls s" "c = authCode L n" using inv by (auto simp: mock_inv_def)
    then show False using authCode_inj [OF uuid] s'(1) by blast
  qed
  have "c \<notin> set (map fst P)"
  proof
    assume "c \<in> set (map fst P)"
    then obtain u' where "(c, u') \<in> set P" by auto
    then have "Created c u' \<in> set H" using inv by (auto simp: mock_inv_def)
    with fresh show False by blast
  qed
  moreover have "c \<notin> set (issuedCodes H)"
  proof
    assume "c \<in> set (issuedCodes H)"
    then have "\<exists>u'. Created c u' \<in> set H" using inv issuedCodes_created [of H c] by (simp add: mock_inv_def)
    with fresh show False by blast
  qed
  moreover have "\<exists>n<mp_calls s'. c = authCode L n" using s'(1,4) by auto
  ultimately show ?thesis using inv
    by (auto simp: mock_inv_def s'(2,3,4)) (auto simp: less_Suc_eq)
qed

lemma mock_inv_take:
  assumes "mock_inv L (s, P, H)" and "takeCode c s = (Some u, s')"
  shows "mock_inv L (s', P @ [(c, u)], H)"
proof -
  from assms(2) have s': "mp_codeToUser s c = Some u" "s' = s\<lparr>mp_codeToUser := (mp_codeToUser s)(c := None)\<rparr>"
    by (auto simp: takeCode_def split: option.splits)
  then show ?thesis using assms(1) by (auto simp: mock_inv_def s'(2))
qed

lemma mock_inv_issue:
  assumes "mock_inv L (s, P @ (c, u) # Q, H)" and "issueToken L u s = (r, s')"
  shows "mock_inv L (s', P @ Q, if rs_Status r = 200 then H @ [Issued c (accessToken L (mp_calls s)) u] else H)"
proof -
  note s' = issueToken_state [OF assms(2)]
  have calls: "\<exists>n<Suc (mp_calls s). c' = authCode L n" if "Created c' u' \<in> set H" for c' u'
    using assms(1) that by (auto simp: mock_inv_def) (meson less_SucI)
  show ?thesis using assms(1) s' calls by (auto simp: mock_inv_def)
qed

theorem mock_inv_reachable:
  assumes "mock_reachable L conf" and "inj (ml_uuid L)"
  shows "mock_inv L conf"
  using assms(1)
proof (induction rule: mock_reachable.induct)
  case (mr_init url clientID heap s)
  then show ?case by (auto simp: NewMockOIDCProvider_def mock_inv_def split: sum.splits)
next
  case (mr_step conf conf')
  from mr_step.hyps(2) mr_step.IH show ?case
  proof (cases rule: mock_step.cases)
    case ms_create
    with mr_step.IH show ?thesis by (simp add: mock_inv_create [OF _ assms(2)])
  next
    case ms_take
    with mr_step.IH show ?thesis by (simp add: mock_inv_take)
  next
    case (ms_refuse c s s' P H)
    then have "s' = s" by (auto simp: takeCode_def split: option.splits)
    with ms_refuse mr_step.IH show ?thesis by simp
  next
    case ms_issue
    with mr_step.IH show ?thesis using mock_inv_issue by fastforce
  next
    case ms_fail
    with mr_step.IH show ?thesis using mock_inv_issue by fastforce
  next
    case ms_rename
    with mr_step.IH show ?thesis by (simp add: mock_inv_def WithName_def)
  qed
qed

lemma distinct_issued:
  assumes "distinct (issuedCodes H)" and "H = A @ Issued c t u # B" and "Issued c t' u' \<in> set (A @ B)"
  shows False
proof -
  have split: "issuedCodes H = issuedCodes A @ c # issuedCodes B" by (simp add: assms(2) issuedCodes_def)
  have "c \<in> set (issuedCodes A) \<union> set (issuedCodes B)"
    using assms(3) by (force simp: issuedCodes_def split: mock_event.splits)
  with assms(1) show False by (auto simp: split)
qed

text \<open>
  C40 However the requests of the test provider interleave, an authorization code is redeemed at most once: in the
  history of a reachable configuration, a token issued for a code is the only one for this code, and it belongs
  to the user that the code was created for; and every access token that the user info endpoint knows
  was issued in this way for the user it answers with.
\<close>

theorem code_single_use:
  assumes "mock_reachable L (s, P, H)" and "inj (ml_uuid L)"
  shows "(\<forall>A c t u B. H = A @ Issued c t u # B \<longrightarrow>
      Created c u \<in> set H \<and> (\<forall>t' u'. Issued c t' u' \<notin> set (A @ B)) \<and> mp_codeToUser s c = None) \<and>
    (\<forall>t u. mp_tokenToUser s t = Some u \<longrightarrow> (\<exists>c. Issued c t u \<in> set H \<and> Created c u \<in> set H))"
proof -
  have inv: "mock_inv L (s, P, H)" by (rule mock_inv_reachable [OF assms])
  then have d: "distinct (issuedCodes H)" and cr: "\<forall>c t u. Issued c t u \<in> set H \<longrightarrow> Created c u \<in> set H"
    and w: "\<forall>c u. mp_codeToUser s c = Some u \<longrightarrow> c \<notin> set (issuedCodes H)"
    and tk: "\<forall>t u. mp_tokenToUser s t = Some u \<longrightarrow> (\<exists>c. Issued c t u \<in> set H)"
    by (auto simp: mock_inv_def)
  have "Created c u \<in> set H \<and> (\<forall>t' u'. Issued c t' u' \<notin> set (A @ B)) \<and> mp_codeToUser s c = None"
    if H: "H = A @ Issued c t u # B" for A c t u B
  proof (intro conjI allI)
    show "Created c u \<in> set H" using cr H by simp
    show "Issued c t' u' \<notin> set (A @ B)" for t' u' using distinct_issued [OF d H] by blast
    have "c \<in> set (issuedCodes H)" by (simp add: H issuedCodes_def)
    then show "mp_codeToUser s c = None" using w by (metis not_Some_eq)
  qed
  with cr tk show ?thesis by blast
qed

text \<open>One code, redeemed by one request while a second one with the same code is refused.\<close>

definition sampleMockLibs :: "unit mock_libs" where
  "sampleMockLibs = \<lparr>ml_uuid = (\<lambda>n. replicate n CHR ''0''), ml_now = (\<lambda>n. 1700000000), ml_GenerateKey = Inr (),
     ml_modulus = (\<lambda>k. ''n''), ml_exponent = (\<lambda>k. ''e''), ml_marshal = (\<lambda>j. Inr ''{}''), ml_sha256 = id,
     ml_sign = (\<lambda>n k h. Inr h)\<rparr>"

definition mockUser :: test_user where
  "mockUser = NewTestUser ''alice'' ''0123456789''"

definition mock0 :: "unit mock_provider" where
  "mock0 = the (NewMockOIDCProvider sampleMockLibs ''http://issuer'' ''client'' (\<lambda>u. mockUser))"

definition mock1 :: "unit mock_provider" where
  "mock1 = snd (CreateAuthCode sampleMockLibs 7 mock0)"

definition mock2 :: "unit mock_provider" where
  "mock2 = snd (takeCode ''auth-code-0'' mock1)"

definition mock3 :: "unit mock_provider" where
  "mock3 = snd (issueToken sampleMockLibs 7 mock2)"

lemma mock_run:
  "CreateAuthCode sampleMockLibs 7 mock0 = (''auth-code-0'', mock1)"
  "takeCode ''auth-code-0'' mock1 = (Some 7, mock2)" "takeCode ''auth-code-0'' mock2 = (None, mock2)"
  "rs_Status (fst (issueToken sampleMockLibs 7 mock2)) = 200" "accessToken sampleMockLibs (mp_calls mock2) = ''access-00''"
  by (simp_all add: mock3_def mock2_def mock1_def mock0_def CreateAuthCode_def takeCode_def NewMockOIDCProvider_def
      sampleMockLibs_def authCode_def accessToken_def issueToken_def signJWT_def nextCall_def Let_def eval_nat_numeral)

lemma mock_issue: "issueToken sampleMockLibs 7 mock2 = (fst (issueToken sampleMockLibs 7 mock2), mock3)"
  by (simp add: mock3_def)

lemma mock_sample_reachable:
  "mock_reachable sampleMockLibs (mock3, [], [Created ''auth-code-0'' 7, Issued ''auth-code-0'' ''access-00'' 7])"
proof -
  have "NewMockOIDCProvider sampleMockLibs ''http://issuer'' ''client'' (\<lambda>u. mockUser) = Some mock0"
    by (simp add: mock0_def NewMockOIDCProvider_def sampleMockLibs_def)
  then have "mock_reachable sampleMockLibs (mock0, [], [])" by (rule mr_init)
  then have "mock_reachable sampleMockLibs (mock1, [], [] @ [Created ''auth-code-0'' 7])"
    by (rule mr_step) (rule ms_create [OF mock_run(1)])
  then have "mock_reachable sampleMockLibs (mock2, [] @ [(''auth-code-0'', 7)], [] @ [Created ''auth-code-0'' 7])"
    by (rule mr_step) (rule ms_take [OF mock_run(2)])
  then have "mock_reachable sampleMockLibs (mock2, [] @ [(''auth-code-0'', 7)], [] @ [Created ''auth-code-0'' 7])"
    by (rule mr_step) (rule ms_refuse [OF mock_run(3)])
  then have "mock_reachable sampleMockLibs (mock3, [] @ [],
      ([] @ [Created ''auth-code-0'' 7]) @ [Issued ''auth-code-0'' (accessToken sampleMockLibs (mp_calls mock2)) 7])"
    by (rule mr_step) (rule ms_issue [OF mock_issue mock_run(4)])
  then show ?thesis by (simp add: mock_run(5))
qed

lemma sample_uuid_inj: "inj (ml_uuid sampleMockLibs)"
  by (rule injI) (metis length_replicate sampleMockLibs_def mock_libs.select_convs(1))

theorem code_single_use_witness:
  "mp_codeToUser mock3 ''auth-code-0'' = None \<and> mp_tokenToUser mock3 ''access-00'' = Some 7"
proof -
  have "[Created ''auth-code-0'' 7, Issued ''auth-code-0'' ''access-00'' 7] =
      [Created ''auth-code-0'' 7] @ Issued ''auth-code-0'' ''access-00'' 7 # []" by simp
  then have "mp_codeToUser mock3 ''auth-code-0'' = None"
    using code_single_use [OF mock_sample_reachable sample_uuid_inj] by blast
  moreover have "mp_tokenToUser mock3 ''access-00'' = Some 7"
    using issueToken_state [OF mock_issue] mock_run(4,5) by simp
  ultimately show ?thesis by simp
qed

theorem id_token_roundtrip_witness:
  "\<exists>token header payload. signJWT sampleMockLibs (JObject []) mock0 = Inr token \<and>
     openJWT (\<lambda>k h sig. h = sig) sampleMockLibs () token = Some (header, payload)"
proof -
  obtain token where t: "signJWT sampleMockLibs (JObject []) mock0 = Inr token"
    by (simp add: signJWT_def sampleMockLibs_def Let_def)
  have "\<And>n h sig. ml_sign sampleMockLibs n (mp_privateKey mock0) h = Inr sig \<Longrightarrow> h = sig"
    by (simp add: sampleMockLibs_def)
  from id_token_roundtrip [OF t, of "\<lambda>k h sig. h = sig"] this t show ?thesis by auto
qed

end
