(* ===== verification/TestDb.thy ===== *)
theory TestDb
  imports Migrations
begin

text \<open>
  \<open>internal/testutil/postgres.go\<close>: the database container of the integration tests. dockertest and
  pgx are parameters (\<open>test_env\<close>); what reaches the network answers by the number of the call. The
  state is what is open: the Docker client with its container, and the connection pools.
\<close>

record 'p test_host =
  th_calls :: nat
  th_out :: "string list"
  th_docker :: bool
  th_open :: "'p list"

text \<open>
  \<open>te_attempts\<close> is how often \<open>Retry\<close> calls its operation before its deadline, \<open>te_timeout\<close> the error
  it then returns.
\<close>

record ('p, 'e) test_env =
  te_libs :: "('p, 'e) pgx_libs"
  te_NewPool :: "go_error option"
  te_Run :: "go_error + string"
  te_attempts :: nat
  te_timeout :: go_error
  te_New :: "nat \<Rightarrow> string \<Rightarrow> go_error + 'p"
  te_Ping :: "nat \<Rightarrow> 'p \<Rightarrow> go_error option"
  te_content :: "string \<Rightarrow> string \<Rightarrow> string"

record 'p test_db =
  tdb_Pool :: "'p option"
  tdb_DatabaseURL :: string
  tdb_closer :: "('p test_host \<Rightarrow> 'p test_host) option"

definition closePool :: "'p \<Rightarrow> 'p test_host \<Rightarrow> 'p test_host" where
  "closePool p H = H\<lparr>th_open := remove1 p (th_open H)\<rparr>"

definition closeDocker :: "'p test_host \<Rightarrow> 'p test_host" where
  "closeDocker H = H\<lparr>th_docker := False\<rparr>"

definition printError :: "string \<Rightarrow> go_error \<Rightarrow> 'p test_host \<Rightarrow> 'p test_host" where
  "printError what err H = H\<lparr>th_out := th_out H @ [what @ '': '' @ errorText err]\<rparr>"

definition closeTestDB :: "'p test_db \<Rightarrow> 'p test_host \<Rightarrow> 'p test_host" where
  "closeTestDB tdb H = (case tdb_closer tdb of None \<Rightarrow> H | Some closer \<Rightarrow> closer H)"

definition testDatabaseURL :: "string \<Rightarrow> string" where
  "testDatabaseURL hostPort = ''postgres://postgres:secret@'' @ hostPort @ ''/testdb?sslmode=disable''"

text \<open>The operation that \<open>Retry\<close> calls assigns the variable \<open>dbPool\<close> of \<open>SetupTestDB\<close>, on every call.\<close>

fun retryConnect ::
    "('p, 'e) test_env \<Rightarrow> string \<Rightarrow> nat \<Rightarrow> 'p option \<Rightarrow> 'p test_host \<Rightarrow> go_error option \<times> 'p option \<times> 'p test_host" where
  "retryConnect E url 0 dbPool H = (Some (te_timeout E), dbPool, H)"
| "retryConnect E url (Suc k) dbPool H =
     (let n = th_calls H; H1 = H\<lparr>th_calls := Suc n\<rparr> in
      case te_New E n url of
        Inl err \<Rightarrow> retryConnect E url k None H1
      | Inr p \<Rightarrow>
          (let H2 = H1\<lparr>th_open := th_open H1 @ [p]\<rparr> in
           case te_Ping E n p of
             Some err \<Rightarrow> retryConnect E url k (Some p) H2
           | None \<Rightarrow> (None, Some p, H2)))"

definition testSources :: "(string \<Rightarrow> string \<Rightarrow> string) \<Rightarrow> migration_source list" where
  "testSources content = [coreSource content, authSource content, passwordSource content]"

definition runTestMigrations ::
    "('p, 'e) test_env \<Rightarrow> string \<Rightarrow> 'p test_host \<Rightarrow> go_error option \<times> 'p test_host" where
  "runTestMigrations E url H =
     (let mgr = fold AddMigrationSource (testSources (te_content E))
                  (NewManager \<lparr>dbc_DatabaseURL = url, dbc_SearchPath = '''', dbc_EnableSlogTracing = False,
                               dbc_OTELTracing = False\<rparr>);
          n = th_calls H;
          (err, mgr') = Connect (te_libs E) n (Some []) mgr;
          H1 = H\<lparr>th_calls := Suc (Suc n),
                 th_open := th_open H @ (case Pool mgr' of None \<Rightarrow> [] | Some p \<Rightarrow> [p])\<rparr>
      in case err of
           Some e \<Rightarrow> (Some (Wrapped ''could not connect'' e), H1)
         | None \<Rightarrow>
             (case RunMigrations (te_libs E) (Suc n) (Some []) mgr' of
                Some e \<Rightarrow> (Some (Wrapped ''could not run migrations'' e), H1)
              | None \<Rightarrow> (None, H1)))"

definition SetupTestDB :: "('p, 'e) test_env \<Rightarrow> 'p test_host \<Rightarrow> 'p test_db option \<times> 'p test_host" where
  "SetupTestDB E H =
     (case te_NewPool E of
        Some err \<Rightarrow> (None, printError ''Could not connect to docker'' err H)
      | None \<Rightarrow>
          (let H1 = H\<lparr>th_docker := True\<rparr> in
           case te_Run E of
             Inl err \<Rightarrow> (None, closeDocker (printError ''Could not start postgres container'' err H1))
           | Inr hostPort \<Rightarrow>
               (let databaseURL = testDatabaseURL hostPort in
                case retryConnect E databaseURL (te_attempts E) None H1 of
                  (Some err, dbPool, H2) \<Rightarrow> (None, closeDocker (printError ''Could not connect to postgres'' err H2))
                | (None, dbPool, H2) \<Rightarrow>
                    (let release = (\<lambda>H. closeDocker (case dbPool of None \<Rightarrow> H | Some p \<Rightarrow> closePool p H)) in
                     case runTestMigrations E databaseURL H2 of
                       (Some err, H3) \<Rightarrow> (None, release (printError ''Could not run migrations'' err H3))
                     | (None, H3) \<Rightarrow>
                         (Some \<lparr>tdb_Pool = dbPool, tdb_DatabaseURL = databaseURL, tdb_closer = Some release\<rparr>, H3)))))"

text \<open>\<open>tb.Fatal\<close> and a failed \<open>require\<close> end the test: \<open>Inl\<close>.\<close>

definition RequireTestDB :: "('p, 'e) test_env \<Rightarrow> 'p test_host \<Rightarrow> (string + 'p test_db) \<times> 'p test_host" where
  "RequireTestDB E H =
     (case SetupTestDB E H of
        (None, H') \<Rightarrow> (Inl ''Failed to setup test database'', H')
      | (Some testDB, H') \<Rightarrow>
          if tdb_Pool testDB = None then (Inl ''test database pool should not be nil'', H') else (Inr testDB, H'))"

section \<open>What stays open\<close>

text \<open>The pools of attempts whose ping failed: the next attempt forgets them.\<close>

lemma retry_pools:
  "retryConnect E url k d H = (r, d', H') \<Longrightarrow>
     th_docker H' = th_docker H \<and> th_out H' = th_out H \<and>
     (\<exists>ps. th_open H' = th_open H @ ps @ (if r = None then [the d'] else []) \<and> (r = None \<longrightarrow> d' \<noteq> None) \<and>
        (\<forall>p\<in>set ps. \<exists>n err. te_New E n url = Inr p \<and> te_Ping E n p = Some err) \<and>
        (r = None \<longrightarrow> (\<exists>n. te_New E n url = Inr (the d') \<and> te_Ping E n (the d') = None)))"
proof (induction k arbitrary: d H)
  case 0
  then show ?case by auto
next
  case (Suc k)
  let ?n = "th_calls H"
  let ?H1 = "H\<lparr>th_calls := Suc ?n\<rparr>"
  show ?case
  proof (cases "te_New E ?n url")
    case (Inl err)
    with Suc.prems have "retryConnect E url k None ?H1 = (r, d', H')" by (simp add: Let_def)
    from Suc.IH [OF this] show ?thesis by simp
  next
    case (Inr p)
    let ?H2 = "?H1\<lparr>th_open := th_open H @ [p]\<rparr>"
    show ?thesis
    proof (cases "te_Ping E ?n p")
      case None
      with Suc.prems Inr show ?thesis by (auto simp: Let_def)
    next
      case (Some err)
      with Suc.prems Inr have "retryConnect E url k (Some p) ?H2 = (r, d', H')" by (simp add: Let_def)
      from Suc.IH [OF this] obtain ps where
        "th_docker H' = th_docker H" "th_out H' = th_out H"
        "th_open H' = th_open H @ (p # ps) @ (if r = None then [the d'] else [])" "r = None \<longrightarrow> d' \<noteq> None"
        "\<forall>p\<in>set ps. \<exists>n err. te_New E n url = Inr p \<and> te_Ping E n p = Some err"
        "r = None \<longrightarrow> (\<exists>n. te_New E n url = Inr (the d') \<and> te_Ping E n (the d') = None)"
        by auto
      with Inr Some show ?thesis by (intro conjI exI [of _ "p # ps"]) auto
    qed
  qed
qed

lemma migrations_pools:
  "runTestMigrations E url H = (r, H') \<Longrightarrow>
     th_docker H' = th_docker H \<and> th_out H' = th_out H \<and>
     (\<exists>ms. th_open H' = th_open H @ ms \<and> length ms \<le> 1 \<and> (r = None \<longrightarrow> length ms = 1))"
  by (auto simp: runTestMigrations_def Let_def Connect_def Pool_def NewManager_def testSources_def
      AddMigrationSource_def RunMigrations_def split: prod.splits option.splits sum.splits if_splits)

text \<open>
  \<open>SetupTestDB\<close> either returns nothing and leaves no Docker client open, or a pool that has answered a
  ping, on the container's database, whose \<open>Close\<close> stops the container and closes that pool. In both cases
  pools stay open that nobody can close any more: those of the attempts whose ping failed, and after the
  migrations always the one of the manager that ran them.
\<close>

theorem setup_test_db:
  assumes "SetupTestDB E H = (r, H')" and "\<not> th_docker H"
  shows "case r of
      None \<Rightarrow> \<not> th_docker H' \<and> (\<exists>msg. th_out H' = th_out H @ [msg])
    | Some t \<Rightarrow> th_docker H' \<and> th_out H' = th_out H \<and>
        (\<exists>hostPort p lost m. te_Run E = Inr hostPort \<and> tdb_DatabaseURL t = testDatabaseURL hostPort \<and>
          tdb_Pool t = Some p \<and> (\<exists>n. te_New E n (tdb_DatabaseURL t) = Inr p \<and> te_Ping E n p = None) \<and>
          th_open H' = th_open H @ lost @ [p, m] \<and>
          (\<forall>q\<in>set lost. \<exists>n err. te_New E n (tdb_DatabaseURL t) = Inr q \<and> te_Ping E n q = Some err) \<and>
          \<not> th_docker (closeTestDB t H') \<and>
          th_open (closeTestDB t H') = remove1 p (th_open H @ lost @ [p, m]))"
proof (cases "te_NewPool E")
  case (Some err)
  with assms show ?thesis by (auto simp: SetupTestDB_def printError_def)
next
  case no_error: None
  let ?H1 = "H\<lparr>th_docker := True\<rparr>"
  show ?thesis
  proof (cases "te_Run E")
    case (Inl err)
    with assms no_error show ?thesis by (auto simp: SetupTestDB_def printError_def closeDocker_def Let_def)
  next
    case (Inr hostPort)
    let ?url = "testDatabaseURL hostPort"
    obtain rr d H2 where c: "retryConnect E ?url (te_attempts E) None ?H1 = (rr, d, H2)"
      by (cases "retryConnect E ?url (te_attempts E) None ?H1") auto
    from retry_pools [OF c] obtain lost where
      k: "th_out H2 = th_out H" "th_docker H2"
        "th_open H2 = th_open H @ lost @ (if rr = None then [the d] else [])" "rr = None \<longrightarrow> d \<noteq> None"
        "\<forall>q\<in>set lost. \<exists>n err. te_New E n ?url = Inr q \<and> te_Ping E n q = Some err"
        "rr = None \<longrightarrow> (\<exists>n. te_New E n ?url = Inr (the d) \<and> te_Ping E n (the d) = None)"
      by auto
    show ?thesis
    proof (cases rr)
      case (Some err)
      with assms no_error Inr c k(1) show ?thesis
        by (auto simp: SetupTestDB_def printError_def closeDocker_def Let_def)
    next
      case None
      with k obtain p where d: "d = Some p" by auto
      obtain mr H3 where m: "runTestMigrations E ?url H2 = (mr, H3)"
        by (cases "runTestMigrations E ?url H2")
      from migrations_pools [OF m] obtain ms where
        ms: "th_docker H3 = th_docker H2" "th_out H3 = th_out H2" "th_open H3 = th_open H2 @ ms" "mr = None \<longrightarrow> length ms = 1"
        by auto
      show ?thesis
      proof (cases mr)
        case (Some err)
        with assms no_error Inr c None d m k(1) ms(2) show ?thesis
          by (auto simp: SetupTestDB_def printError_def closeDocker_def closePool_def Let_def)
      next
        case mr: None
        with ms(4) obtain m' where m': "ms = [m']" by (auto simp: length_Suc_conv)
        let ?t = "\<lparr>tdb_Pool = Some p, tdb_DatabaseURL = ?url, tdb_closer = Some (\<lambda>H. closeDocker (closePool p H))\<rparr>"
        have r: "r = Some ?t" "H' = H3"
          using assms(1) no_error Inr c None d m mr by (simp_all add: SetupTestDB_def Let_def)
        have o: "th_open H3 = th_open H @ lost @ [p, m']" using k(3) None d ms(3) m' by simp
        have "\<exists>n. te_New E n ?url = Inr p \<and> te_Ping E n p = None" using k(6) None d by simp
        with k(1,2,5) ms(1,2) Inr o show ?thesis
          unfolding r option.case
          by (intro conjI exI [of _ hostPort] exI [of _ p] exI [of _ lost] exI [of _ m'])
            (simp_all add: closeTestDB_def closeDocker_def closePool_def)
      qed
    qed
  qed
qed

end
