(* ===== verification/Spec2Isabelle.thy ===== *)
theory Spec2Isabelle
  imports AppServer HttpServe ReferenceApp SessionTypes TokenUse ConcurrentLogins CliExport Regression TestProvider TestDb
begin

text \<open>
  A verification development for gotchi, a Go library for multi-tenant web applications on PostgreSQL,
  with its command line tool. This theory imports all others; the definitions and the theorems are in
  the theories of the components, and each opens with what it holds.

  \<^bold>\<open>The program and how its parts interact.\<close> \<open>app.New\<close> takes options, validates them and fills in
  defaults; \<open>Application.Run\<close> connects the database manager (\<open>db/db.go\<close>), merges and applies the
  migration sources, builds a session manager (\<open>session/session.go\<close>), an identity store
  (\<open>auth/postgres_store.go\<close>), a password store (\<open>auth/password/store.go\<close>) and the handlers of
  \<open>auth/handler.go\<close> (OIDC) and \<open>auth/password/handler.go\<close>, mounts them behind a middleware chain
  (\<open>observability/middleware.go\<close>, CORS, sessions) and serves until it is cancelled; applications put \<open>auth/middleware.go\<close> and
  \<open>openapi/openapi.go\<close> before their own routes. A login, by
  password or by provider, resolves or provisions a user with a membership in a tenant and stores claims in
  the session; the middleware reads the claims, puts the tenant in the context, and the hooks of the
  connection pool set it on every connection that is handed out. So tenant isolation is a
  property that spans sessions, handlers, middleware, context and pool.

  \<^bold>\<open>Theories and sources.\<close>
  \<^item> \<open>Prelude\<close>, \<open>GoInt\<close>, \<open>GoStrings\<close>, \<open>Utf8\<close>, \<open>GoEncoding\<close>, \<open>Filepath\<close>, \<open>HostFiles\<close>, \<open>Flags\<close>, \<open>Http\<close>: what the source uses
    of Go and its standard library: 64-bit integers, byte strings and runes, UTF-8, decimal numbers, base64, JSON
    values, paths, a file system with faults, the \<open>flag\<close> package, requests and responses. \<open>Prelude\<close> also has the
    triples over the state monad that carry the invariants.
  \<^item> \<open>Errors\<close> (\<open>auth/password/errors.go\<close>), \<open>AuthTypes\<close> (\<open>auth/types.go\<close>, \<open>auth/config.go\<close>), \<open>Tenantctx\<close>
    (\<open>tenantctx/\<close>, \<open>auth/context.go\<close>).
  \<^item> \<open>Schema\<close>, \<open>World\<close>, \<open>Queries\<close> (\<open>internal/db/*.go\<close>): the tables as a record of lists, the world of a request
    (clock, tables, open transaction, mail) with faults for every statement, begin and commit, and
    each generated query as its effect on the tables with the constraints of the migrations.
  \<^item> \<open>Session\<close> (\<open>session/session.go\<close>), \<open>Middleware\<close> (\<open>auth/middleware.go\<close>), \<open>IdentityStore\<close> (\<open>auth/postgres_store.go\<close>),
    \<open>PasswordConfig\<close> (\<open>config.go\<close>, \<open>policy.go\<close>, \<open>lockout.go\<close>, \<open>token.go\<close>), \<open>Hasher\<close> (\<open>hasher.go\<close>), \<open>PasswordStore\<close>,
    \<open>Logins\<close>, \<open>Registration\<close>, \<open>Resets\<close>, \<open>ConcurrentLogins\<close> (\<open>store.go\<close>), \<open>PasswordHandler\<close> (\<open>auth/password/handler.go\<close>), \<open>Oidc\<close>
    (\<open>auth/oidc.go\<close>, \<open>auth/handler.go\<close>). \<open>Sample\<close> holds concrete inputs of the witnesses.
  \<^item> \<open>Server\<close>, \<open>SessionTypes\<close>, \<open>TokenUse\<close>: all handlers behind one server, as a step relation over tables and
    sessions, in which the session store may fail to save a session; reset tokens over any series of requests.
  \<^item> \<open>DbManager\<close> (\<open>db/db.go\<close>), \<open>Openapi\<close> (\<open>openapi/openapi.go\<close>), \<open>Observability\<close> (\<open>observability/\<close>), \<open>Migrations\<close>
    (\<open>migrations/migrations.go\<close>), \<open>AppConfig\<close> (\<open>app/option.go\<close>, \<open>app/config.go\<close>), \<open>App\<close>, \<open>HttpServe\<close> and \<open>AppRun\<close> (\<open>app/app.go\<close>),
    \<open>AppServer\<close>: requests through the routes and the middleware chain of an application that \<open>New\<close> and \<open>Run\<close>
    built.
  \<^item> \<open>Scaffold\<close> (\<open>internal/scaffold/scaffold.go\<close>), \<open>Cli\<close> and \<open>CliExport\<close> (\<open>cmd/gotchi/main.go\<close>), \<open>Regression\<close>
    (\<open>cmd/migration-regression/main.go\<close>), \<open>TestProvider\<close> (\<open>internal/testoidc/provider.go\<close>), \<open>TestDb\<close>
    (\<open>internal/testutil/postgres.go\<close>), \<open>ReferenceApp\<close> (\<open>examples/reference-app/\<close>).
\<close>

text \<open>
  \<^bold>\<open>State and operations.\<close> Handlers and stores run in a state monad over the world of their request; a Go error is
  the left side of a sum, a nil pointer \<open>None\<close>, a context a list of key-value pairs, a duration an integer
  of nanoseconds, and a string a list of bytes. An operation of the source is one definition of the same name;
  names that clash have a prefix of their component (\<open>sessionNew\<close>, \<open>managerGet\<close>, \<open>hasherVerify\<close>,
  \<open>sqlInsertUser\<close>). Interfaces of the source are records of functions; what a client relies on is a
  locale (\<open>session_store\<close>, the hasher of the password store and others), interpreted on the model of the
  component that provides it.

  \<^bold>\<open>Parameters.\<close> Code that is not in the repository is an argument, in a record of functions, that
  answers by the number of the call where it reaches the outside: the faults of PostgreSQL, the
  clocks and the random source (\<open>env\<close>), Argon2id and SHA-256, UUID parsing, SCS (\<open>scs\<close>), the OIDC libraries and the
  provider (\<open>oidc_libs\<close>), pgx and goose (\<open>pgx_libs\<close>), kin-openapi, OpenTelemetry, the host's file system
  (\<open>disk\<close>), Docker (\<open>test_env\<close>), RSA. Their documented behaviour is in the definitions whose names end in
  \<open>contract\<close>, which are hypotheses where a property needs them and hold of the samples.

  \<^bold>\<open>What the lemmas show.\<close>
  \<^item> Tenant isolation: the invariant of reachable servers, of the composed application and of the pool
    (\<open>Server\<close>, \<open>AppServer\<close>, \<open>DbManager\<close>), who may put claims into a session, the types of session values.
  \<^item> Authentication: \<open>Authenticate\<close> refines an abstract login step, the replacement of an outdated hash included;
    with faults it commits that step or nothing; lockout, the number of passwords checked alone and with
    interleaved requests, single use of reset tokens, mails of a registration, registration and reset followed by
    a login, uniform answers.
  \<^item> Each other component: its results on every branch, its bounds (body limit, page sizes, positions that wrap
    at 64 bits) and its round trips (hashes, ID tokens, quoted identifiers, contexts).
  \<^item> Tools: the argument loop against a grammar, generated projects independent of map order, exports that keep
    files and are idempotent, the call sequence of the regression tool, codes redeemed once.
  \<^item> Schema invariants are proved once per statement (\<open>stmt_inv\<close>) and carried through the operations by triples.

  \<^bold>\<open>Termination and bounds.\<close> Recursion is structural except for the argument loop of \<open>init\<close> and the flag parser,
  whose measure is the number of arguments left. \<open>Retry\<close> of the test database is given the number
  of attempts before its deadline, \<open>downLoop\<close> counts down as the source does, and the reading of directories in
  pages ends after as many calls as there are pages. \<open>runHTTPServer\<close> is a step relation of its select
  statements; its steps are bounded and its only wait is for the server.

  \<^bold>\<open>Not modelled.\<close> The SQL text inside the migrations, which reaches the model only as the
  constraints of \<open>Schema\<close>, without the length limits of its \<open>VARCHAR\<close> columns and the rounding of its
  timestamps to microseconds; log lines; the usage text that the \<open>flag\<close> package prints; timing, beyond that the
  code hashes on each path; and the deadline of contexts. A handler that panics is a response, without the unwinding.
  Some texts inside errors are shorter than those of the libraries: the offset in a base64 error, the quotes of \<open>%q\<close>.
  A request body delivers a read error after its bytes and not together with the last of them. PostgreSQL's limit of
  63 bytes for an identifier is left out.
\<close>

end
